(* ===== verification/Prelude.thy ===== *)
theory Prelude
  imports Main "HOL-Library.Word" "HOL-Library.AList" "HOL-Library.Multiset"
begin

text \<open>
  The vocabulary the components share: machine integers at their width, Rust's
  outcomes (a value, an error of the function's own error type, or a panic),
  and \<open>std::collections::HashMap\<close>.

  A map is an association list with distinct keys (\<open>hm_ok\<close>).  The list order
  is the table's current iteration order, which the standard library leaves
  unspecified: every statement about a map quantifies over all lists, hence
  over all orders.  The contract the components rely on is the locale
  \<open>keyed_table\<close>, discharged here for the association-list model.
\<close>

section \<open>Machine integers\<close>

type_synonym u8 = "8 word"
type_synonym u32 = "32 word"
type_synonym u64 = "64 word"
type_synonym usize = "64 word"
type_synonym uuid = "128 word"

named_theorems panics \<open>outcomes that are panics\<close>

lemma unat_bound: "unat (w :: 'a::len word) < 2 ^ LENGTH('a)"
  by (rule unsigned_less)

lemma unat_of_nat_exact: "n < 2 ^ LENGTH('a) \<Longrightarrow> unat (word_of_nat n :: 'a::len word) = n"
  by (simp add: unsigned_of_nat take_bit_nat_eq_self)

lemma unat_ucast_up:
  "LENGTH('a) \<le> LENGTH('b) \<Longrightarrow> unat (ucast (w :: 'a::len word) :: 'b::len word) = unat w"
proof -
  assume "LENGTH('a) \<le> LENGTH('b)"
  then have "unat w < 2 ^ LENGTH('b)"
    using unat_bound [of w] by (meson less_le_trans one_le_numeral power_increasing)
  then show ?thesis by (simp add: unsigned_ucast_eq take_bit_nat_eq_self)
qed

lemma unat_plus_exact:
  fixes a b :: "'a::len word"
  assumes "unat a + unat b < 2 ^ LENGTH('a)"
  shows "unat (a + b) = unat a + unat b"
  using assms by (simp add: unat_word_ariths)

lemma unat_minus_exact:
  fixes a b :: "'a::len word"
  assumes "unat b \<le> unat a"
  shows "unat (a - b) = unat a - unat b"
  using assms by (simp add: unat_sub word_le_nat_alt)

lemma unat_times_exact:
  fixes a b :: "'a::len word"
  assumes "unat a * unat b < 2 ^ LENGTH('a)"
  shows "unat (a * b) = unat a * unat b"
  using assms by (simp add: unat_word_ariths)

text \<open>A wrapping sum is exact when the total fits.\<close>

lemma unat_sum_list_exact:
  fixes f :: "'b \<Rightarrow> 'a::len word"
  assumes "(\<Sum>x\<leftarrow>xs. unat (f x)) < 2 ^ LENGTH('a)"
  shows "unat (\<Sum>x\<leftarrow>xs. f x) = (\<Sum>x\<leftarrow>xs. unat (f x))"
  using assms by (induction xs) (auto simp: unat_plus_exact)

text \<open>Rust's unsigned \<open>saturating_sub\<close>.\<close>

definition saturating_sub :: "'a::len word \<Rightarrow> 'a word \<Rightarrow> 'a word" where
  "saturating_sub a b = (if a < b then 0 else a - b)"

lemma unat_saturating_sub: "unat (saturating_sub a b) = unat a - unat b"
  by (auto simp: saturating_sub_def unat_minus_exact word_less_nat_alt not_less)

section \<open>Outcomes\<close>

text \<open>Why a thread of the program dies: the panics the modelled code can raise.\<close>

datatype panic =
    Slice_Out_Of_Range
  | Copy_Length_Mismatch
  | Unwrap_On_None
  | Capacity_Overflow
  | Stack_Overflow
  | Divide_By_Zero

datatype ('e, 'a) outcome = Ok 'a | Err 'e | Panic panic

fun bind_outcome :: "('e, 'a) outcome \<Rightarrow> ('a \<Rightarrow> ('e, 'b) outcome) \<Rightarrow> ('e, 'b) outcome" where
  "bind_outcome (Ok a) f = f a"
| "bind_outcome (Err e) f = Err e"
| "bind_outcome (Panic p) f = Panic p"

fun is_ok :: "('e, 'a) outcome \<Rightarrow> bool" where
  "is_ok (Ok a) = True"
| "is_ok (Err e) = False"
| "is_ok (Panic p) = False"

fun is_panic :: "('e, 'a) outcome \<Rightarrow> bool" where
  "is_panic (Panic p) = True"
| "is_panic (Ok a) = False"
| "is_panic (Err e) = False"

lemma bind_outcome_Ok_iff [simp]:
  "bind_outcome r f = Ok b \<longleftrightarrow> (\<exists>a. r = Ok a \<and> f a = Ok b)"
  by (cases r) auto

lemma bind_outcome_Err_iff [simp]:
  "bind_outcome r f = Err e \<longleftrightarrow> r = Err e \<or> (\<exists>a. r = Ok a \<and> f a = Err e)"
  by (cases r) auto

lemma bind_outcome_Panic_iff [simp]:
  "bind_outcome r f = Panic p \<longleftrightarrow> r = Panic p \<or> (\<exists>a. r = Ok a \<and> f a = Panic p)"
  by (cases r) auto

lemma bind_outcome_assoc:
  "bind_outcome (bind_outcome r f) g = bind_outcome r (\<lambda>a. bind_outcome (f a) g)"
  by (cases r) auto

lemma is_ok_iff: "is_ok r \<longleftrightarrow> (\<exists>a. r = Ok a)"
  by (cases r) auto

lemma is_panic_iff: "is_panic r \<longleftrightarrow> (\<exists>p. r = Panic p)"
  by (cases r) auto

text \<open>\<open>Option::ok_or\<close>.\<close>

definition ok_or :: "'e \<Rightarrow> 'a option \<Rightarrow> ('e, 'a) outcome" where
  "ok_or e x = (case x of None \<Rightarrow> Err e | Some a \<Rightarrow> Ok a)"

lemma ok_or_simps [simp]: "ok_or e None = Err e" "ok_or e (Some a) = Ok a"
  by (simp_all add: ok_or_def)

text \<open>
  A function with a mutable receiver: from a state to an outcome and the state
  it leaves, whatever the outcome (the \<open>?\<close> operator returns early with the
  state as it is).
\<close>

type_synonym ('s, 'e, 'a) action = "'s \<Rightarrow> ('e, 'a) outcome \<times> 's"

definition return_action :: "'a \<Rightarrow> ('s, 'e, 'a) action" where
  "return_action a s = (Ok a, s)"

definition fail_action :: "'e \<Rightarrow> ('s, 'e, 'a) action" where
  "fail_action e s = (Err e, s)"

definition lift_outcome :: "('e, 'a) outcome \<Rightarrow> ('s, 'e, 'a) action" where
  "lift_outcome r s = (r, s)"

definition bind_action :: "('s, 'e, 'a) action \<Rightarrow> ('a \<Rightarrow> ('s, 'e, 'b) action) \<Rightarrow> ('s, 'e, 'b) action" where
  "bind_action m f s =
     (case m s of
        (Ok a, s') \<Rightarrow> f a s'
      | (Err e, s') \<Rightarrow> (Err e, s')
      | (Panic p, s') \<Rightarrow> (Panic p, s'))"

lemma bind_action_cong [fundef_cong]:
  "m s = m' s' \<Longrightarrow> (\<And>a t. m' s' = (Ok a, t) \<Longrightarrow> f a t = f' a t) \<Longrightarrow>
   bind_action m f s = bind_action m' f' s'"
  by (auto simp: bind_action_def split: prod.splits outcome.splits)

lemma bind_action_simps [simp]:
  "m s = (Ok a, t) \<Longrightarrow> bind_action m f s = f a t"
  "m s = (Err e, t) \<Longrightarrow> bind_action m f s = (Err e, t)"
  "m s = (Panic p, t) \<Longrightarrow> bind_action m f s = (Panic p, t)"
  by (simp_all add: bind_action_def)

lemma bind_return_action [simp]: "bind_action (return_action a) f = f a"
  by (rule ext) (simp add: bind_action_def return_action_def)

lemma bind_lift_outcome [simp]:
  "bind_action (lift_outcome (Ok a)) f = f a"
  "bind_action (lift_outcome (Err e)) f s = (Err e, s)"
  "bind_action (lift_outcome (Panic p)) f s = (Panic p, s)"
  by (simp_all add: bind_action_def lift_outcome_def fun_eq_iff)

lemma action_Ok_iff [simp]:
  "return_action a s = (r, t) \<longleftrightarrow> r = Ok a \<and> t = s"
  "fail_action e s = (r, t) \<longleftrightarrow> r = Err e \<and> t = s"
  "lift_outcome q s = (r, t) \<longleftrightarrow> r = q \<and> t = s"
  by (auto simp: return_action_def fail_action_def lift_outcome_def)

lemma bind_action_OkE:
  assumes "bind_action m f s = (Ok b, u)"
  obtains a t where "m s = (Ok a, t)" "f a t = (Ok b, u)"
  using assms by (auto simp: bind_action_def split: prod.splits outcome.splits)

lemma bind_action_assoc:
  "bind_action (bind_action m f) g = bind_action m (\<lambda>a. bind_action (f a) g)"
  by (rule ext) (simp add: bind_action_def split: prod.splits outcome.splits)

text \<open>\<open>&xs[..n]\<close> and \<open>&xs[a..b]\<close>: the slice, or the panic of an index out of range.\<close>

definition slice_to :: "nat \<Rightarrow> 'a list \<Rightarrow> ('e, 'a list) outcome" where
  "slice_to n xs = (if n \<le> length xs then Ok (take n xs) else Panic Slice_Out_Of_Range)"

definition slice :: "nat \<Rightarrow> nat \<Rightarrow> 'a list \<Rightarrow> ('e, 'a list) outcome" where
  "slice a b xs =
     (if a \<le> b \<and> b \<le> length xs then Ok (take (b - a) (drop a xs)) else Panic Slice_Out_Of_Range)"

text \<open>
  \<open>dst[a..b].copy_from_slice(src)\<close>: panics when the range is out of bounds or
  the lengths differ.
\<close>

definition copy_into :: "nat \<Rightarrow> nat \<Rightarrow> 'a list \<Rightarrow> 'a list \<Rightarrow> ('e, 'a list) outcome" where
  "copy_into a b src dst =
     (if \<not> (a \<le> b \<and> b \<le> length dst) then Panic Slice_Out_Of_Range
      else if length src \<noteq> b - a then Panic Copy_Length_Mismatch
      else Ok (take a dst @ src @ drop b dst))"

lemma slice_to_Ok: "n \<le> length xs \<Longrightarrow> slice_to n xs = Ok (take n xs)"
  by (simp add: slice_to_def)

lemma slice_to_panics [panics]: "length xs < n \<Longrightarrow> slice_to n xs = Panic Slice_Out_Of_Range"
  by (simp add: slice_to_def)

lemma copy_into_panics [panics]: "length dst < b \<Longrightarrow> copy_into a b src dst = Panic Slice_Out_Of_Range"
  by (simp add: copy_into_def)

lemma copy_into_Ok:
  "a \<le> b \<Longrightarrow> b \<le> length dst \<Longrightarrow> length src = b - a \<Longrightarrow>
   copy_into a b src dst = Ok (take a dst @ src @ drop b dst)"
  by (simp add: copy_into_def)

lemma copy_into_length: "copy_into a b src dst = Ok xs \<Longrightarrow> length xs = length dst"
  by (auto simp: copy_into_def split: if_splits)

section \<open>HashMap\<close>

type_synonym ('k, 'v) hash_map = "('k \<times> 'v) list"

definition hm_ok :: "('k, 'v) hash_map \<Rightarrow> bool" where
  "hm_ok m \<longleftrightarrow> distinct (map fst m)"

definition hm_new :: "('k, 'v) hash_map" where
  "hm_new = []"

definition hm_get :: "('k, 'v) hash_map \<Rightarrow> 'k \<Rightarrow> 'v option" where
  "hm_get m k = map_of m k"

definition hm_insert :: "'k \<Rightarrow> 'v \<Rightarrow> ('k, 'v) hash_map \<Rightarrow> ('k, 'v) hash_map" where
  "hm_insert k v m = AList.update k v m"

definition hm_remove :: "'k \<Rightarrow> ('k, 'v) hash_map \<Rightarrow> ('k, 'v) hash_map" where
  "hm_remove k m = AList.delete k m"

text \<open>\<open>get_mut\<close> followed by an update of the entry in place; nothing when the key is absent.\<close>

definition hm_modify :: "'k \<Rightarrow> ('v \<Rightarrow> 'v) \<Rightarrow> ('k, 'v) hash_map \<Rightarrow> ('k, 'v) hash_map" where
  "hm_modify k f m = map (\<lambda>(k', v). (k', if k' = k then f v else v)) m"

text \<open>\<open>entry(k).or_insert_with(\<dots>)\<close>.\<close>

definition hm_or_insert :: "'k \<Rightarrow> 'v \<Rightarrow> ('k, 'v) hash_map \<Rightarrow> ('k, 'v) hash_map" where
  "hm_or_insert k v m = (case hm_get m k of None \<Rightarrow> hm_insert k v m | Some _ \<Rightarrow> m)"

definition hm_keys :: "('k, 'v) hash_map \<Rightarrow> 'k list" where
  "hm_keys m = map fst m"

definition hm_values :: "('k, 'v) hash_map \<Rightarrow> 'v list" where
  "hm_values m = map snd m"

definition hm_len :: "('k, 'v) hash_map \<Rightarrow> nat" where
  "hm_len m = length m"

lemmas hm_defs = hm_get_def hm_insert_def hm_remove_def hm_modify_def hm_or_insert_def
  hm_keys_def hm_values_def hm_len_def hm_new_def

text \<open>
  The contract a client of a table relies on: what a lookup returns after each
  operation, and that the operations keep the representation invariant.
\<close>

locale keyed_table =
  fixes ok :: "'m \<Rightarrow> bool"
    and empty :: "'m"
    and get :: "'m \<Rightarrow> 'k \<Rightarrow> 'v option"
    and ins :: "'k \<Rightarrow> 'v \<Rightarrow> 'm \<Rightarrow> 'm"
    and del :: "'k \<Rightarrow> 'm \<Rightarrow> 'm"
    and upd :: "'k \<Rightarrow> ('v \<Rightarrow> 'v) \<Rightarrow> 'm \<Rightarrow> 'm"
  assumes ok_empty: "ok empty"
    and ok_ins: "ok m \<Longrightarrow> ok (ins k v m)"
    and ok_del: "ok m \<Longrightarrow> ok (del k m)"
    and ok_upd: "ok m \<Longrightarrow> ok (upd k f m)"
    and get_empty: "get empty k = None"
    and get_ins: "get (ins k v m) j = (if j = k then Some v else get m j)"
    and get_del: "get (del k m) j = (if j = k then None else get m j)"
    and get_upd: "get (upd k f m) j = (if j = k then map_option f (get m k) else get m j)"
begin

lemmas ok_rules = ok_empty ok_ins ok_del ok_upd
lemmas get_rules = get_empty get_ins get_del get_upd

lemma entries_empty: "\<forall>k v. get empty k = Some v \<longrightarrow> P k v"
  by (simp add: get_rules)

text \<open>A property of every entry is kept by an operation when the new entry has it.\<close>

lemma entries_ins:
  "\<forall>k v. get m k = Some v \<longrightarrow> P k v \<Longrightarrow> P k0 v0 \<Longrightarrow>
   \<forall>k v. get (ins k0 v0 m) k = Some v \<longrightarrow> P k v"
  by (simp add: get_rules)

lemma entries_del:
  "\<forall>k v. get m k = Some v \<longrightarrow> P k v \<Longrightarrow> \<forall>k v. get (del k0 m) k = Some v \<longrightarrow> P k v"
  by (simp add: get_rules)

lemma entries_upd:
  "\<forall>k v. get m k = Some v \<longrightarrow> P k v \<Longrightarrow>
   (\<And>v. get m k0 = Some v \<Longrightarrow> P k0 (f v)) \<Longrightarrow>
   \<forall>k v. get (upd k0 f m) k = Some v \<longrightarrow> P k v"
  by (auto simp: get_rules)

lemma del_after_ins: "get (del k (ins k v m)) = get (del k m)"
  by (rule ext) (simp add: get_rules)

lemma upd_absent: "get m k = None \<Longrightarrow> get (upd k f m) = get m"
  by (rule ext) (simp add: get_rules)

end

lemma hm_get_modify:
  "hm_get (hm_modify k f m) j = (if j = k then map_option f (hm_get m k) else hm_get m j)"
  by (induction m) (auto simp: hm_get_def hm_modify_def)

lemma hm_keys_modify [simp]: "hm_keys (hm_modify k f m) = hm_keys m"
  by (induction m) (auto simp: hm_keys_def hm_modify_def)

interpretation hm: keyed_table hm_ok hm_new hm_get hm_insert hm_remove hm_modify
proof unfold_locales
  show "hm_ok hm_new" by (simp add: hm_ok_def hm_new_def)
  show "\<And>m k v. hm_ok m \<Longrightarrow> hm_ok (hm_insert k v m)"
    by (simp add: hm_ok_def hm_insert_def distinct_update)
  show "\<And>m k. hm_ok m \<Longrightarrow> hm_ok (hm_remove k m)"
    by (simp add: hm_ok_def hm_remove_def distinct_delete)
  show "\<And>m k f. hm_ok m \<Longrightarrow> hm_ok (hm_modify k f m)"
    by (metis hm_ok_def hm_keys_def hm_keys_modify)
qed (auto simp: hm_get_def hm_new_def hm_insert_def hm_remove_def update_conv' delete_conv'
    hm_get_modify [unfolded hm_get_def])

declare hm.get_rules [simp] hm.ok_rules [simp, intro]

lemma hm_or_insert_get [simp]:
  "hm_get (hm_or_insert k d m) j =
     (if j = k then Some (case hm_get m k of None \<Rightarrow> d | Some v \<Rightarrow> v) else hm_get m j)"
  by (simp add: hm_or_insert_def split: option.split)

lemma hm_or_insert_ok [simp]: "hm_ok m \<Longrightarrow> hm_ok (hm_or_insert k d m)"
  by (simp add: hm_or_insert_def split: option.split)

lemma hm_get_mem: "hm_ok m \<Longrightarrow> hm_get m k = Some v \<longleftrightarrow> (k, v) \<in> set m"
  by (simp add: hm_ok_def hm_get_def)

lemma hm_get_keys: "hm_get m k = None \<longleftrightarrow> k \<notin> set (hm_keys m)"
  by (simp add: hm_get_def hm_keys_def map_of_eq_None_iff)

text \<open>Totals over the values, as the code's \<open>values().map(f).sum()\<close> computes them.\<close>

definition hm_total :: "('v \<Rightarrow> nat) \<Rightarrow> ('k, 'v) hash_map \<Rightarrow> nat" where
  "hm_total g m = sum_list (map g (hm_values m))"

lemma hm_total_new [simp]: "hm_total g hm_new = 0"
  by (simp add: hm_total_def hm_new_def hm_values_def)

lemma hm_remove_absent [simp]: "hm_get m k = None \<Longrightarrow> hm_remove k m = m"
  by (simp add: hm_get_def hm_remove_def map_of_eq_None_iff)

lemma hm_total_remove:
  "hm_ok m \<Longrightarrow> hm_get m k = Some v \<Longrightarrow> hm_total g m = g v + hm_total g (hm_remove k m)"
proof (induction m)
  case Nil
  then show ?case by (simp add: hm_get_def)
next
  case (Cons p m)
  show ?case
  proof (cases "fst p = k")
    case True
    with Cons.prems have "v = snd p" "k \<notin> fst ` set m"
      by (auto simp: hm_get_def hm_ok_def)
    then show ?thesis
      using True by (cases p) (simp add: hm_total_def hm_values_def hm_remove_def)
  next
    case False
    with Cons.prems have "hm_ok m" "hm_get m k = Some v"
      by (auto simp: hm_ok_def hm_get_def split: if_splits)
    with Cons.IH False show ?thesis
      by (cases p) (simp add: hm_total_def hm_values_def hm_remove_def)
  qed
qed

lemma hm_total_insert:
  "hm_ok m \<Longrightarrow> hm_total g (hm_insert k v m) = g v + hm_total g (hm_remove k m)"
proof -
  assume ok: "hm_ok m"
  have "hm_remove k (hm_insert k v m) = hm_remove k m"
    by (simp add: hm_remove_def hm_insert_def delete_update_same)
  with ok show ?thesis
    using hm_total_remove [of "hm_insert k v m" k v g] by simp
qed

lemma hm_len_total: "hm_len m = hm_total (\<lambda>_. 1) m"
  by (induction m) (auto simp: hm_total_def hm_len_def hm_values_def)

lemma hm_len_new [simp]: "hm_len hm_new = 0"
  by (simp add: hm_len_def hm_new_def)

lemma hm_len_remove: "hm_ok m \<Longrightarrow> hm_get m k = Some v \<Longrightarrow> hm_len m = Suc (hm_len (hm_remove k m))"
  using hm_total_remove [of m k v "\<lambda>_. 1"] by (simp add: hm_len_total)

lemma hm_len_insert: "hm_ok m \<Longrightarrow> hm_len (hm_insert k v m) = Suc (hm_len (hm_remove k m))"
  using hm_total_insert [of m "\<lambda>_. 1" k v] by (simp add: hm_len_total)

lemma hm_len_insert_le: "hm_ok m \<Longrightarrow> hm_len (hm_insert k v m) \<le> Suc (hm_len m)"
  using hm_len_insert [of m k v] hm_len_remove [of m k]
  by (cases "hm_get m k") auto

lemma hm_insert_absent: "hm_get m k = None \<Longrightarrow> hm_insert k v m = m @ [(k, v)]"
  unfolding hm_get_def hm_insert_def by (induction m) (auto split: if_splits)

lemma hm_keys_insert:
  "hm_keys (hm_insert k v m) = (if hm_get m k = None then hm_keys m @ [k] else hm_keys m)"
  unfolding hm_keys_def hm_get_def hm_insert_def by (induction m) (auto split: if_splits)

lemma hm_keys_remove: "hm_keys (hm_remove k m) = filter (\<lambda>j. j \<noteq> k) (hm_keys m)"
  unfolding hm_keys_def hm_remove_def by (induction m) auto

lemma hm_keys_remove_mset:
  "hm_ok m \<Longrightarrow> hm_get m k = Some v \<Longrightarrow> mset (hm_keys m) = add_mset k (mset (hm_keys (hm_remove k m)))"
proof (induction m)
  case Nil
  then show ?case by (simp add: hm_get_def)
next
  case (Cons p m)
  then have "filter (\<lambda>j. j \<noteq> k) (hm_keys m) = hm_keys m" if "fst p = k"
    using that Cons.prems(1) unfolding filter_id_conv hm_ok_def hm_keys_def
    by (metis distinct.simps(2) list.simps(9))
  with Cons show ?case
    unfolding hm_keys_remove by (auto simp: hm_keys_def hm_ok_def hm_get_def split: if_splits)
qed

text \<open>\<open>HashMap::retain\<close>.\<close>

definition hm_retain :: "('k \<Rightarrow> 'v \<Rightarrow> bool) \<Rightarrow> ('k, 'v) hash_map \<Rightarrow> ('k, 'v) hash_map" where
  "hm_retain P = filter (\<lambda>(k, v). P k v)"

lemma hm_ok_retain [simp]: "hm_ok m \<Longrightarrow> hm_ok (hm_retain P m)"
  by (simp add: hm_ok_def hm_retain_def distinct_map_filter)

lemma hm_get_retain:
  "hm_ok m \<Longrightarrow> hm_get (hm_retain P m) k = Some v \<longleftrightarrow> hm_get m k = Some v \<and> P k v"
  using hm_ok_retain [of m P] by (auto simp: hm_get_mem) (simp_all add: hm_retain_def)

lemma hm_keys_retain: "mset (hm_keys (hm_retain P m)) \<subseteq># mset (hm_keys m)"
  unfolding hm_keys_def hm_retain_def by (simp add: image_mset_subseteq_mono)

lemma hm_or_insert_present: "hm_get m k = Some v \<Longrightarrow> hm_or_insert k d m = m"
  by (simp add: hm_or_insert_def)

text \<open>
  The iteration order of a freshly built table depends on its random state: a
  rehash may permute the entries in any way.
\<close>

definition iteration_order :: "(('k, 'v) hash_map \<Rightarrow> ('k, 'v) hash_map) \<Rightarrow> bool" where
  "iteration_order rehash \<longleftrightarrow> (\<forall>m. mset (rehash m) = mset m)"

lemma iteration_order_id: "iteration_order (\<lambda>m. m)"
  by (simp add: iteration_order_def)

lemma iteration_order_rev: "iteration_order rev"
  by (simp add: iteration_order_def)

end
