(* ===== verification/Ieee.thy ===== *)
theory Ieee
  imports Prelude Complex_Main "HOL-Library.Log_Nat"
begin

text \<open>
  Rust's \<open>f32\<close> and \<open>f64\<close>: IEEE 754 binary32 and binary64 with
  round-to-nearest, ties to even.  A finite value is the rational it denotes;
  every operation is the exact rational operation followed by one rounding
  (\<open>round_rat\<close>), with overflow to infinity and gradual underflow.  The sign
  of a zero is not kept: the modelled code never observes it (its divisors are
  counts and durations, never negative zeros).

  The rounding's laws are the locale \<open>rounding\<close>, interpreted for both
  formats; the components use its facts only.
\<close>

section \<open>Rounding\<close>

text \<open>The exponent of a positive rational: \<open>2 ^ e \<le> x < 2 ^ (e + 1)\<close>.\<close>

definition floor_log2 :: "rat \<Rightarrow> int" where
  "floor_log2 x =
     (let (a, b) = quotient_of x; e = bitlen a - bitlen b
      in if 2 powi e \<le> x then e else e - 1)"

definition round_half_even :: "rat \<Rightarrow> int" where
  "round_half_even x =
     (let f = \<lfloor>x\<rfloor>; d = x - of_int f
      in if d < 1 / 2 then f else if 1 / 2 < d then f + 1 else if even f then f else f + 1)"

text \<open>
  A format: \<open>p\<close> bits of precision, least quantum exponent \<open>qmin\<close> (that of the
  subnormals), and infinity from \<open>2 ^ emax\<close> on.
\<close>

record float_format =
  prec :: nat
  qmin :: int
  emax :: nat

definition binary32 :: float_format where
  "binary32 = \<lparr>prec = 24, qmin = -149, emax = 128\<rparr>"

definition binary64 :: float_format where
  "binary64 = \<lparr>prec = 53, qmin = -1074, emax = 1024\<rparr>"

definition quantum :: "nat \<Rightarrow> int \<Rightarrow> rat \<Rightarrow> int" where
  "quantum p q x = max (floor_log2 \<bar>x\<bar> - int p + 1) q"

definition round_rat :: "nat \<Rightarrow> int \<Rightarrow> rat \<Rightarrow> rat" where
  "round_rat p q x =
     (if x = 0 then 0
      else let u = 2 powi quantum p q x in of_int (round_half_even (x / u)) * u)"

section \<open>Floating-point values and operations\<close>

datatype fl = NaN | Neg_Inf | Pos_Inf | Fin rat

type_synonym f32 = fl
type_synonym f64 = fl

definition fl_round :: "float_format \<Rightarrow> rat \<Rightarrow> fl" where
  "fl_round fmt x =
     (let r = round_rat (prec fmt) (qmin fmt) x
      in if 2 ^ emax fmt \<le> r then Pos_Inf else if r \<le> - (2 ^ emax fmt) then Neg_Inf else Fin r)"

text \<open>\<open>n as f32\<close> for an unsigned \<open>n\<close>.\<close>

definition fl_of_nat :: "float_format \<Rightarrow> nat \<Rightarrow> fl" where
  "fl_of_nat fmt n = fl_round fmt (of_nat n)"

fun fl_neg :: "fl \<Rightarrow> fl" where
  "fl_neg NaN = NaN"
| "fl_neg Pos_Inf = Neg_Inf"
| "fl_neg Neg_Inf = Pos_Inf"
| "fl_neg (Fin x) = Fin (- x)"

fun fl_add :: "float_format \<Rightarrow> fl \<Rightarrow> fl \<Rightarrow> fl" where
  "fl_add fmt (Fin x) (Fin y) = fl_round fmt (x + y)"
| "fl_add fmt NaN y = NaN"
| "fl_add fmt x NaN = NaN"
| "fl_add fmt Pos_Inf Neg_Inf = NaN"
| "fl_add fmt Neg_Inf Pos_Inf = NaN"
| "fl_add fmt Pos_Inf y = Pos_Inf"
| "fl_add fmt Neg_Inf y = Neg_Inf"
| "fl_add fmt x Pos_Inf = Pos_Inf"
| "fl_add fmt x Neg_Inf = Neg_Inf"

definition fl_sub :: "float_format \<Rightarrow> fl \<Rightarrow> fl \<Rightarrow> fl" where
  "fl_sub fmt x y = fl_add fmt x (fl_neg y)"

text \<open>An infinity with the sign of a rational; \<open>NaN\<close> for zero.\<close>

definition signed_inf :: "rat \<Rightarrow> fl" where
  "signed_inf s = (if 0 < s then Pos_Inf else if s < 0 then Neg_Inf else NaN)"

fun fl_mul :: "float_format \<Rightarrow> fl \<Rightarrow> fl \<Rightarrow> fl" where
  "fl_mul fmt (Fin x) (Fin y) = fl_round fmt (x * y)"
| "fl_mul fmt NaN y = NaN"
| "fl_mul fmt x NaN = NaN"
| "fl_mul fmt Pos_Inf (Fin y) = signed_inf y"
| "fl_mul fmt Neg_Inf (Fin y) = signed_inf (- y)"
| "fl_mul fmt (Fin x) Pos_Inf = signed_inf x"
| "fl_mul fmt (Fin x) Neg_Inf = signed_inf (- x)"
| "fl_mul fmt Pos_Inf Pos_Inf = Pos_Inf"
| "fl_mul fmt Neg_Inf Neg_Inf = Pos_Inf"
| "fl_mul fmt Pos_Inf Neg_Inf = Neg_Inf"
| "fl_mul fmt Neg_Inf Pos_Inf = Neg_Inf"

text \<open>Division; a zero divisor is positive zero.\<close>

fun fl_div :: "float_format \<Rightarrow> fl \<Rightarrow> fl \<Rightarrow> fl" where
  "fl_div fmt (Fin x) (Fin y) = (if y = 0 then signed_inf x else fl_round fmt (x / y))"
| "fl_div fmt NaN y = NaN"
| "fl_div fmt x NaN = NaN"
| "fl_div fmt Pos_Inf (Fin y) = (if y = 0 then Pos_Inf else signed_inf y)"
| "fl_div fmt Neg_Inf (Fin y) = (if y = 0 then Neg_Inf else signed_inf (- y))"
| "fl_div fmt (Fin x) Pos_Inf = Fin 0"
| "fl_div fmt (Fin x) Neg_Inf = Fin 0"
| "fl_div fmt x y = NaN"

text \<open>The partial comparison: every comparison with \<open>NaN\<close> is false.\<close>

fun fl_less :: "fl \<Rightarrow> fl \<Rightarrow> bool" where
  "fl_less (Fin x) (Fin y) = (x < y)"
| "fl_less Neg_Inf (Fin y) = True"
| "fl_less (Fin x) Pos_Inf = True"
| "fl_less Neg_Inf Pos_Inf = True"
| "fl_less x y = False"

definition fl_le :: "fl \<Rightarrow> fl \<Rightarrow> bool" where
  "fl_le x y = (fl_less x y \<or> (x = y \<and> x \<noteq> NaN))"

text \<open>\<open>f32::min\<close>: the other operand when one is \<open>NaN\<close>.\<close>

definition fl_min :: "fl \<Rightarrow> fl \<Rightarrow> fl" where
  "fl_min x y = (if x = NaN then y else if y = NaN then x else if fl_less y x then y else x)"

definition fl_is_finite :: "fl \<Rightarrow> bool" where
  "fl_is_finite x = (case x of Fin _ \<Rightarrow> True | _ \<Rightarrow> False)"

text \<open>\<open>f32::ceil\<close>: exact, since the ceiling of a float is a float.\<close>

fun fl_ceil :: "fl \<Rightarrow> fl" where
  "fl_ceil (Fin x) = Fin (of_int \<lceil>x\<rceil>)"
| "fl_ceil x = x"

text \<open>\<open>x as u32\<close>, \<open>x as u64\<close>: truncation, saturating at both ends, \<open>NaN\<close> to 0.\<close>

fun fl_to_word :: "fl \<Rightarrow> 'a::len word" where
  "fl_to_word NaN = 0"
| "fl_to_word Neg_Inf = 0"
| "fl_to_word Pos_Inf = - 1"
| "fl_to_word (Fin x) =
     (if x \<le> 0 then 0 else if 2 ^ LENGTH('a) \<le> \<lfloor>x\<rfloor> then - 1 else word_of_int \<lfloor>x\<rfloor>)"

section \<open>The rounding's laws\<close>

lemma two_powi_pos [simp]: "(0::rat) < 2 powi e"
  by simp

lemma powi_split: "(2::rat) powi (a + b) = 2 powi a * 2 powi b"
  by (simp add: power_int_add)

lemma powi_mono: "a \<le> b \<Longrightarrow> (2::rat) powi a \<le> 2 powi b"
  by (simp add: power_int_increasing)

lemma powi_less_iff: "(2::rat) powi a < 2 powi b \<longleftrightarrow> a < b"
proof
  show "a < b \<Longrightarrow> (2::rat) powi a < 2 powi b"
    by (rule power_int_strict_increasing) auto
  show "(2::rat) powi a < 2 powi b \<Longrightarrow> a < b"
    using powi_mono [of b a] by linarith
qed

lemma bitlen_powi:
  assumes "0 < a"
  shows "(2::rat) powi (bitlen a - 1) \<le> of_int a" and "of_int a < (2::rat) powi bitlen a"
proof -
  from assms have b: "2 ^ nat (bitlen a - 1) \<le> a" "a < 2 ^ nat (bitlen a)"
    using bitlen_bounds [of a] by auto
  from assms have pos: "1 \<le> bitlen a"
    by (metis bitlen_nonneg bitlen_eq_zero_iff int_one_le_iff_zero_less order_le_less not_le)
  have "(2::rat) powi (bitlen a - 1) = of_int (2 ^ nat (bitlen a - 1))"
    using pos by (simp add: power_int_nonneg_exp)
  then show "(2::rat) powi (bitlen a - 1) \<le> of_int a"
    using b(1) by (metis of_int_le_iff)
  have "(2::rat) powi bitlen a = of_int (2 ^ nat (bitlen a))"
    using pos by (simp add: power_int_nonneg_exp)
  then show "of_int a < (2::rat) powi bitlen a"
    using b(2) by (metis of_int_less_iff)
qed

lemma floor_log2_bounds:
  assumes "0 < x"
  shows "2 powi floor_log2 x \<le> x" and "x < 2 powi (floor_log2 x + 1)"
proof -
  obtain a b where q: "quotient_of x = (a, b)" by force
  have x: "x = of_int a / of_int b" and b: "0 < b"
    using q by (simp_all add: quotient_of_div quotient_of_denom_pos)
  with assms have a: "0 < a"
    by (simp add: zero_less_divide_iff)
  let ?e = "bitlen a - bitlen b"
  have up: "x < 2 powi (?e + 1)"
  proof -
    have "of_int a < (2::rat) powi (?e + 1) * 2 powi (bitlen b - 1)"
      using bitlen_powi(2) [OF a] by (simp flip: powi_split)
    also have "\<dots> \<le> 2 powi (?e + 1) * of_int b"
      using bitlen_powi(1) [OF b] by (intro mult_left_mono) auto
    finally show ?thesis
      using b by (simp add: x divide_less_eq)
  qed
  have down: "2 powi (?e - 1) < x"
  proof -
    have "(2::rat) powi (?e - 1) * of_int b < 2 powi (?e - 1) * 2 powi bitlen b"
      using bitlen_powi(2) [OF b] by (intro mult_strict_left_mono) auto
    also have "\<dots> \<le> of_int a"
      using bitlen_powi(1) [OF a] by (simp flip: powi_split)
    finally show ?thesis
      using b by (simp add: x less_divide_eq)
  qed
  show "2 powi floor_log2 x \<le> x" "x < 2 powi (floor_log2 x + 1)"
    using up down by (auto simp: floor_log2_def q Let_def)
qed

lemma floor_log2_less:
  assumes "0 < x" and "x < 2 powi n"
  shows "floor_log2 x < n"
  using floor_log2_bounds(1) [OF assms(1)] assms(2) powi_less_iff [of "floor_log2 x" n]
  by linarith

lemma round_half_even_error: "\<bar>of_int (round_half_even x) - x\<bar> \<le> 1 / 2"
proof -
  have "of_int \<lfloor>x\<rfloor> \<le> x" "x < of_int \<lfloor>x\<rfloor> + 1" by linarith+
  then show ?thesis
    by (auto simp: round_half_even_def Let_def)
qed

lemma round_half_even_of_int [simp]: "round_half_even (of_int n) = n"
  by (simp add: round_half_even_def)

lemma round_half_even_mono: "x \<le> y \<Longrightarrow> round_half_even x \<le> round_half_even y"
proof -
  assume le: "x \<le> y"
  then have fl: "\<lfloor>x\<rfloor> \<le> \<lfloor>y\<rfloor>" by (rule floor_mono)
  show ?thesis
  proof (cases "\<lfloor>x\<rfloor> = \<lfloor>y\<rfloor>")
    case True
    with le show ?thesis
      by (auto simp: round_half_even_def Let_def)
  next
    case False
    with fl have "\<lfloor>x\<rfloor> + 1 \<le> \<lfloor>y\<rfloor>" by simp
    moreover have "round_half_even x \<le> \<lfloor>x\<rfloor> + 1" "\<lfloor>y\<rfloor> \<le> round_half_even y"
      by (auto simp: round_half_even_def Let_def)
    ultimately show ?thesis by linarith
  qed
qed

definition representable :: "nat \<Rightarrow> int \<Rightarrow> rat \<Rightarrow> bool" where
  "representable p q x \<longleftrightarrow> (\<exists>m e. x = of_int m * 2 powi e \<and> \<bar>m\<bar> < 2 ^ p \<and> q \<le> e)"

lemma representable_quantum:
  assumes "representable p q x" and "x \<noteq> 0"
  shows "\<exists>k. x = of_int k * 2 powi quantum p q x"
proof -
  obtain m e where x: "x = of_int m * 2 powi e" and m: "\<bar>m\<bar> < 2 ^ p" and e: "q \<le> e"
    using assms(1) by (auto simp: representable_def)
  have "\<bar>x\<bar> = of_int \<bar>m\<bar> * 2 powi e"
    by (simp add: x abs_mult)
  moreover have "of_int \<bar>m\<bar> < (2::rat) powi int p"
    using m by (simp flip: of_int_less_iff [where 'a = rat])
  ultimately have "\<bar>x\<bar> < 2 powi (int p + e)"
    by (simp add: powi_split)
  then have "floor_log2 \<bar>x\<bar> < int p + e"
    using assms(2) by (intro floor_log2_less) auto
  then have le: "quantum p q x \<le> e"
    using e by (simp add: quantum_def)
  then have "x = of_int (m * 2 ^ nat (e - quantum p q x)) * 2 powi quantum p q x"
    by (simp add: x powi_split [symmetric] power_int_nonneg_exp [symmetric] mult.assoc)
  then show ?thesis by blast
qed

lemma round_rat_exact:
  assumes "representable p q x"
  shows "round_rat p q x = x"
proof (cases "x = 0")
  case True
  then show ?thesis by (simp add: round_rat_def)
next
  case False
  with assms obtain k where "x = of_int k * 2 powi quantum p q x"
    using representable_quantum by blast
  then have "x / 2 powi quantum p q x = of_int k"
    by (metis nonzero_mult_div_cancel_right power_int_not_zero zero_neq_numeral)
  with False \<open>x = of_int k * 2 powi quantum p q x\<close> show ?thesis
    by (simp add: round_rat_def Let_def)
qed

lemma round_rat_error: "\<bar>round_rat p q x - x\<bar> \<le> 2 powi quantum p q x / 2"
proof (cases "x = 0")
  case True
  then show ?thesis by (simp add: round_rat_def)
next
  case False
  let ?u = "(2::rat) powi quantum p q x"
  have "round_rat p q x - x = (of_int (round_half_even (x / ?u)) - x / ?u) * ?u"
    using False by (simp add: round_rat_def Let_def algebra_simps)
  then have "\<bar>round_rat p q x - x\<bar> = \<bar>of_int (round_half_even (x / ?u)) - x / ?u\<bar> * ?u"
    by (simp add: abs_mult)
  also have "\<dots> \<le> 1 / 2 * ?u"
    by (intro mult_right_mono round_half_even_error) auto
  finally show ?thesis by simp
qed

lemma round_rat_le:
  assumes "0 < x" and "x \<le> of_int k * 2 powi quantum p q x"
  shows "round_rat p q x \<le> of_int k * 2 powi quantum p q x"
proof -
  let ?u = "(2::rat) powi quantum p q x"
  have "x / ?u \<le> of_int k"
    using assms(2) by (simp add: divide_le_eq)
  then have "round_half_even (x / ?u) \<le> k"
    using round_half_even_mono round_half_even_of_int by metis
  then show ?thesis
    using assms(1) by (simp add: round_rat_def Let_def)
qed

lemma floor_log2_mono: "0 < x \<Longrightarrow> x \<le> y \<Longrightarrow> floor_log2 x \<le> floor_log2 y"
  using floor_log2_bounds [of x] floor_log2_bounds [of y] powi_less_iff [of "floor_log2 x" "floor_log2 y + 1"]
  by linarith

text \<open>Rounding never passes a representable value above its argument.\<close>

lemma round_rat_le_representable:
  assumes "0 < x" and "x \<le> z" and "representable p q z"
  shows "round_rat p q x \<le> z"
proof -
  have z: "0 < z" using assms by linarith
  then obtain k where k: "z = of_int k * 2 powi quantum p q z"
    using representable_quantum [OF assms(3)] by auto
  have le: "quantum p q x \<le> quantum p q z"
    using floor_log2_mono [of x z] assms z by (auto simp: quantum_def)
  then have "z = of_int (k * 2 ^ nat (quantum p q z - quantum p q x)) * 2 powi quantum p q x"
    using k by (simp add: powi_split [symmetric] power_int_nonneg_exp [symmetric] mult.assoc)
  then show ?thesis
    using round_rat_le assms(1,2) by metis
qed

lemma round_half_even_scaled_mono:
  "x \<le> y \<Longrightarrow> 0 < u \<Longrightarrow> of_int (round_half_even (x / u)) * u \<le> (of_int (round_half_even (y / u)) * u :: rat)"
  by (intro mult_right_mono) (simp_all add: round_half_even_mono divide_right_mono)

lemma round_rat_nonzero:
  "x \<noteq> 0 \<Longrightarrow> round_rat p q x = of_int (round_half_even (x / 2 powi quantum p q x)) * 2 powi quantum p q x"
  by (simp add: round_rat_def Let_def)

lemma round_rat_mono:
  assumes "0 < x" and "x \<le> y" and "0 < p"
  shows "round_rat p q x \<le> round_rat p q y"
proof (cases "quantum p q x = quantum p q y")
  case True
  have "x \<noteq> 0" "y \<noteq> 0" using assms by simp_all
  with round_half_even_scaled_mono [OF assms(2), of "2 powi quantum p q y"] show ?thesis
    by (simp add: round_rat_nonzero True)
next
  case False
  have y: "0 < y" using assms by simp
  have "floor_log2 x \<le> floor_log2 y" using assms floor_log2_mono by blast
  with False have less: "floor_log2 x < floor_log2 y" "q < floor_log2 y - int p + 1"
    using assms y by (auto simp: quantum_def max_def split: if_splits)
  then have qy: "quantum p q y = floor_log2 y - int p + 1" using y by (simp add: quantum_def)
  let ?z = "2 powi floor_log2 y :: rat"
  have "x < 2 powi (floor_log2 x + 1)" using assms floor_log2_bounds by blast
  also have "\<dots> \<le> ?z" using less by (intro powi_mono) simp
  finally have "x \<le> ?z" by simp
  moreover have "representable p q ?z"
    unfolding representable_def using assms(3) less(2)
    by (intro exI [of _ 1] exI [of _ "floor_log2 y"]) auto
  ultimately have "round_rat p q x \<le> ?z" using assms(1) by (intro round_rat_le_representable)
  also have z: "?z = of_int (2 ^ (p - 1)) * 2 powi quantum p q y"
  proof -
    have "?z = 2 powi (int (p - 1) + quantum p q y)" using assms(3) by (simp add: qy of_nat_diff)
    then show ?thesis by (simp only: powi_split) simp
  qed
  also have "\<dots> \<le> round_rat p q y"
  proof -
    let ?u = "2 powi quantum p q y :: rat"
    have le: "of_int (2 ^ (p - 1)) * ?u \<le> y" using floor_log2_bounds(1) [OF y] z by simp
    have "of_int (2 ^ (p - 1)) * ?u / ?u = (of_int (2 ^ (p - 1)) :: rat)" by simp
    then have "round_half_even (of_int (2 ^ (p - 1)) * ?u / ?u) = 2 ^ (p - 1)"
      by (metis round_half_even_of_int)
    moreover have y0: "y \<noteq> 0" using y by simp
    ultimately show ?thesis
      using round_half_even_scaled_mono [OF le, of ?u, OF two_powi_pos] by (simp only: round_rat_nonzero [OF y0])
  qed
  finally show ?thesis .
qed

lemma quantum_normal:
  assumes "0 < x" and "2 powi (q + int p - 1) \<le> x"
  shows "quantum p q x = floor_log2 x - int p + 1"
proof -
  have "(2::rat) powi (q + int p - 1) < 2 powi (floor_log2 x + 1)"
    using floor_log2_bounds(2) [OF assms(1)] assms(2) by linarith
  then have "q + int p - 1 < floor_log2 x + 1"
    by (simp only: powi_less_iff)
  then show ?thesis
    using assms(1) by (simp add: quantum_def)
qed

lemma round_rat_relative_error:
  assumes "0 < x" and "2 powi (q + int p - 1) \<le> x"
  shows "\<bar>round_rat p q x - x\<bar> \<le> x / 2 ^ p"
proof -
  have "2 powi quantum p q x / 2 = (2::rat) powi (floor_log2 x - int p)"
    unfolding quantum_normal [OF assms] by (simp add: power_int_add)
  also have "\<dots> = 2 powi floor_log2 x / 2 ^ p"
    by (simp add: power_int_diff)
  also have "\<dots> \<le> x / 2 ^ p"
    using floor_log2_bounds(1) [OF assms(1)] by (simp add: divide_right_mono)
  finally show ?thesis
    using round_rat_error [of p q x] by linarith
qed

lemma round_rat_nonneg: "0 \<le> x \<Longrightarrow> 0 \<le> round_rat p q x"
proof (cases "x = 0")
  case True
  then show ?thesis by (simp add: round_rat_def)
next
  case False
  assume "0 \<le> x"
  then have "round_half_even 0 \<le> round_half_even (x / 2 powi quantum p q x)"
    by (intro round_half_even_mono) simp
  then show ?thesis
    using False round_half_even_of_int [of 0] by (simp add: round_rat_def Let_def)
qed

lemma representable_int:
  assumes "\<bar>n\<bar> \<le> 2 ^ p" and "0 < p" and "q \<le> 0"
  shows "representable p q (of_int n)"
proof (cases "\<bar>n\<bar> = 2 ^ p")
  case True
  define m where "m = (if 0 \<le> n then 2 ^ (p - 1) else - (2 ^ (p - 1)) :: int)"
  have "(2::int) ^ p = 2 * 2 ^ (p - 1)"
    using assms(2) by (simp add: power_eq_if)
  then have "n = m * 2" "\<bar>m\<bar> = 2 ^ (p - 1)"
    using True by (auto simp: m_def)
  moreover have "(2::int) ^ (p - 1) < 2 ^ p"
    using assms(2) by simp
  ultimately have "of_int n = of_int m * (2::rat) powi 1" "\<bar>m\<bar> < 2 ^ p" "q \<le> 1"
    using assms(3) by auto
  then show ?thesis unfolding representable_def by blast
next
  case False
  with assms show ?thesis
    unfolding representable_def by (intro exI [of _ n] exI [of _ 0]) auto
qed

lemma round_rat_relative_error_strict:
  assumes "0 < x" and "2 powi (q + int p - 1) \<le> x" and "0 < p"
  shows "\<bar>round_rat p q x - x\<bar> < x / 2 ^ p"
proof (cases "x = 2 powi floor_log2 x")
  case True
  have "q \<le> quantum p q x" by (simp add: quantum_def)
  moreover have "x = of_int (2 ^ (p - 1)) * 2 powi quantum p q x"
    using assms(3) unfolding quantum_normal [OF assms(1,2)]
    by (subst True) (simp add: powi_split [symmetric] power_int_of_nat [symmetric]
        del: power_int_of_nat)
  moreover have "\<bar>2 ^ (p - 1)\<bar> < (2::int) ^ p"
    using assms(3) by simp
  ultimately have "representable p q x"
    unfolding representable_def by blast
  then show ?thesis
    using assms(1) by (simp add: round_rat_exact)
next
  case False
  then have "2 powi floor_log2 x < x"
    using floor_log2_bounds(1) [OF assms(1)] by simp
  moreover have "2 powi quantum p q x / 2 = (2::rat) powi floor_log2 x / 2 ^ p"
    unfolding quantum_normal [OF assms(1,2)] by (simp add: power_int_add power_int_diff)
  ultimately have "2 powi quantum p q x / 2 < x / 2 ^ p"
    by (simp add: divide_strict_right_mono)
  then show ?thesis
    using round_rat_error [of p q x] by linarith
qed

text \<open>
  What a client needs of a rounding: integers up to \<open>2 ^ p\<close> are exact, the
  relative error of a normal number is below \<open>2 ^ -p\<close>, an integer bound is kept.
\<close>

locale rounding =
  fixes rnd :: "rat \<Rightarrow> rat" and p :: nat and least_normal :: rat
  assumes rnd_int: "\<bar>n\<bar> \<le> 2 ^ p \<Longrightarrow> rnd (of_int n) = of_int n"
    and rnd_le_int: "0 < x \<Longrightarrow> x \<le> of_int n \<Longrightarrow> n \<le> 2 ^ p \<Longrightarrow> rnd x \<le> of_int n"
    and rnd_rel: "0 < x \<Longrightarrow> least_normal \<le> x \<Longrightarrow> \<bar>rnd x - x\<bar> < x / 2 ^ p"
    and least_normal: "least_normal \<le> 1 / 2 ^ p"
    and precision: "8 \<le> p"
begin

lemma rnd_nat: "n \<le> 2 ^ p \<Longrightarrow> rnd (of_nat n) = of_nat n"
proof -
  assume "n \<le> 2 ^ p"
  then have "\<bar>int n\<bar> \<le> 2 ^ p" by (metis abs_of_nat of_nat_le_numeral_power_cancel_iff)
  then show ?thesis using rnd_int [of "int n"] by simp
qed

lemma rnd_upper: "0 < x \<Longrightarrow> least_normal \<le> x \<Longrightarrow> rnd x \<le> x * (1 + 1 / 2 ^ p)"
  using rnd_rel [of x] by (simp add: abs_less_iff algebra_simps)

lemma rnd_positive: "0 < x \<Longrightarrow> least_normal \<le> x \<Longrightarrow> 0 < rnd x"
proof -
  assume x: "0 < x" "least_normal \<le> x"
  have "x / 2 ^ p \<le> x"
    using x by (simp add: divide_le_eq)
  with rnd_rel [OF x] show ?thesis by (simp add: abs_less_iff)
qed

text \<open>
  The ceiling of a rounded quotient of two counts is the ceiling of the exact
  quotient: the rounding cannot fall onto the integer below, because the
  quotient lies at least \<open>1 / b\<close> above it.
\<close>

lemma ceiling_quotient:
  assumes "1 \<le> a" and "a \<le> 2 ^ p" and "1 \<le> b" and "b \<le> 2 ^ p"
  shows "\<lceil>rnd (of_nat a / of_nat b)\<rceil> = \<lceil>of_nat a / of_nat b :: rat\<rceil>"
proof -
  let ?x = "of_nat a / of_nat b :: rat" and ?c = "\<lceil>of_nat a / of_nat b :: rat\<rceil>"
  have b_le: "of_nat b \<le> (2::rat) ^ p" and a_le: "of_nat a \<le> (2::rat) ^ p"
    using assms by (metis of_nat_le_iff of_nat_numeral of_nat_power)+
  have x: "0 < ?x" using assms by simp
  have "1 / 2 ^ p \<le> 1 / (of_nat b :: rat)"
    using b_le assms by (simp add: frac_le)
  also have "\<dots> \<le> ?x"
    using assms by (simp add: divide_right_mono)
  finally have normal: "least_normal \<le> ?x"
    using least_normal by linarith
  have "?x \<le> of_nat a"
    using assms by (simp add: divide_le_eq)
  then have c_le: "?c \<le> int a"
    by (simp add: ceiling_le_iff)
  then have c_le2: "?c \<le> 2 ^ p"
    using assms(2) by (metis of_nat_le_iff of_nat_numeral of_nat_power order_trans)
  have upper: "rnd ?x \<le> of_int ?c"
    by (rule rnd_le_int [OF x _ c_le2]) simp
  have "of_int (?c - 1) < ?x" by linarith
  then have "of_int (?c - 1) * of_nat b < (of_nat a :: rat)"
    using assms by (simp add: less_divide_eq)
  then have "(?c - 1) * int b < int a"
    by (metis of_int_less_iff of_int_mult of_int_of_nat_eq)
  then have "(?c - 1) * int b + 1 \<le> int a" by simp
  then have "of_int ((?c - 1) * int b + 1) \<le> (of_int (int a) :: rat)"
    by (simp only: of_int_le_iff)
  then have "of_int (?c - 1) * of_nat b + 1 \<le> (of_nat a :: rat)"
    by simp
  then have gap: "of_int (?c - 1) + 1 / of_nat b \<le> ?x"
  proof -
    have "(of_int (?c - 1) * of_nat b + 1) / of_nat b \<le> (of_nat a / of_nat b :: rat)"
      by (rule divide_right_mono [OF \<open>of_int (?c - 1) * of_nat b + 1 \<le> (of_nat a :: rat)\<close>]) simp
    then show ?thesis
      using assms(3) by (simp add: add_divide_distrib)
  qed
  have "?x / 2 ^ p \<le> 1 / of_nat b"
    using a_le assms by (simp add: field_simps)
  then have "?x - 1 / of_nat b < rnd ?x"
    using rnd_rel [OF x normal] by (simp add: abs_less_iff)
  with gap have "of_int (?c - 1) < rnd ?x" by linarith
  with upper show ?thesis by linarith
qed

text \<open>A count scaled by a rounded factor of at most \<open>9 / 10\<close> does not grow.\<close>

lemma scaled_count_le:
  assumes "1 / 2 \<le> c" and "c \<le> 9 / 10"
  shows "rnd (rnd (of_nat n) * rnd c) \<le> of_nat n"
proof (cases "n = 0")
  case True
  have "rnd 0 = 0" using rnd_nat [of 0] by simp
  with True show ?thesis by simp
next
  case False
  let ?k = "1 + 1 / 2 ^ p :: rat"
  have small: "least_normal \<le> 1 / 256"
  proof -
    have "(2::rat) ^ 8 \<le> 2 ^ p" using precision by (intro power_increasing) auto
    then have "1 / 2 ^ p \<le> (1 / 256 :: rat)" by (simp add: frac_le)
    with least_normal show ?thesis by linarith
  qed
  have k: "1 \<le> ?k" "?k \<le> 257 / 256"
  proof -
    have "(2::rat) ^ 8 \<le> 2 ^ p" using precision by (intro power_increasing) auto
    then show "?k \<le> 257 / 256" by (simp add: frac_le divide_le_eq)
  qed simp
  have n: "1 \<le> (of_nat n :: rat)" using False by simp
  have rn: "rnd (of_nat n) \<le> of_nat n * ?k" "of_nat n / 2 \<le> rnd (of_nat n)"
  proof -
    show "rnd (of_nat n) \<le> of_nat n * ?k"
      using n small by (intro rnd_upper) linarith+
    have "of_nat n / 2 ^ p \<le> (of_nat n :: rat) / 2"
      using precision by (intro divide_left_mono) (auto simp: self_le_power)
    then show "of_nat n / 2 \<le> rnd (of_nat n)"
      using rnd_rel [of "of_nat n"] n small by linarith
  qed
  have rc: "rnd c \<le> c * ?k" "1 / 4 \<le> rnd c"
  proof -
    show "rnd c \<le> c * ?k"
      using assms small by (intro rnd_upper) linarith+
    have "c / 2 ^ p \<le> c / 2"
      using precision assms by (intro divide_left_mono) (auto simp: self_le_power)
    then show "1 / 4 \<le> rnd c"
      using rnd_rel [of c] assms small by linarith
  qed
  have "1 / 8 \<le> rnd (of_nat n) * rnd c"
  proof -
    have "1 / 2 * (1 / 4) \<le> rnd (of_nat n) * rnd c"
      using rn(2) rc(2) n by (intro mult_mono) auto
    then show ?thesis by simp
  qed
  then have "rnd (rnd (of_nat n) * rnd c) \<le> (rnd (of_nat n) * rnd c) * ?k"
    using small by (intro rnd_upper) linarith+
  also have "\<dots> \<le> ((of_nat n * ?k) * (c * ?k)) * ?k"
    using rn rc n k assms by (intro mult_right_mono mult_mono) auto
  also have "\<dots> = of_nat n * (c * (?k * ?k * ?k))"
    by (simp only: ac_simps)
  also have "\<dots> \<le> of_nat n * 1"
  proof (rule mult_left_mono)
    have "c * (?k * ?k * ?k) \<le> 9 / 10 * (257 / 256 * (257 / 256) * (257 / 256))"
      using assms k by (intro mult_mono) auto
    also have "\<dots> \<le> (1::rat)" by simp
    finally show "c * (?k * ?k * ?k) \<le> 1" .
  qed simp
  finally show ?thesis by simp
qed

text \<open>It is within \<open>2 ^ (2 - p)\<close> of the exact product, relatively.\<close>

lemma rnd_lower: "0 < x \<Longrightarrow> least_normal \<le> x \<Longrightarrow> x * (1 - 1 / 2 ^ p) \<le> rnd x"
  using rnd_rel [of x] by (simp add: abs_less_iff algebra_simps)

lemma eps_cubed:
  fixes d :: rat
  assumes "0 \<le> d" and "d \<le> 1 / 8"
  shows "1 - 4 * d \<le> (1 - d) * (1 - d) * (1 - d)" and "(1 + d) * (1 + d) * (1 + d) \<le> 1 + 4 * d"
proof -
  define e2 e3 where "e2 = d * d" and "e3 = d * (d * d)"
  have e2: "0 \<le> e2" "e2 \<le> d / 8"
    using assms mult_left_mono [of d "1 / 8" d] by (simp_all add: e2_def)
  have "d * d \<le> 1 / 64" using e2 assms(2) unfolding e2_def by linarith
  then have "e3 \<le> d * (1 / 64)" unfolding e3_def using assms(1) by (rule mult_left_mono)
  moreover have "0 \<le> e3" using assms by (simp add: e3_def)
  moreover have "(1 - d) * (1 - d) * (1 - d) = 1 - 3 * d + 3 * e2 - e3"
    "(1 + d) * (1 + d) * (1 + d) = 1 + 3 * d + 3 * e2 + e3"
    by (simp_all add: e2_def e3_def algebra_simps)
  ultimately show "1 - 4 * d \<le> (1 - d) * (1 - d) * (1 - d)" "(1 + d) * (1 + d) * (1 + d) \<le> 1 + 4 * d"
    using assms(1) e2 by simp_all
qed

lemma scaled_count_close:
  assumes "1 / 2 \<le> c" and "c \<le> 9 / 10"
  shows "\<bar>rnd (rnd (of_nat n) * rnd c) - c * of_nat n\<bar> \<le> c * of_nat n * (4 / 2 ^ p)"
proof (cases "n = 0")
  case True
  have "rnd 0 = 0" using rnd_nat [of 0] by simp
  with True show ?thesis by simp
next
  case False
  define d :: rat where "d = 1 / 2 ^ p"
  have "(2 :: rat) ^ 8 \<le> 2 ^ p" using precision by (rule power_increasing) simp
  then have d: "0 < d" "d \<le> 1 / 8" unfolding d_def by (simp_all add: divide_le_eq)
  have norm: "least_normal \<le> x" if "1 / 8 \<le> x" for x using least_normal d that unfolding d_def by linarith
  have n: "1 \<le> (of_nat n :: rat)" using False by simp
  have N: "of_nat n * (1 - d) \<le> rnd (of_nat n)" "rnd (of_nat n) \<le> of_nat n * (1 + d)"
    using rnd_lower rnd_upper norm n unfolding d_def by simp_all
  have C: "c * (1 - d) \<le> rnd c" "rnd c \<le> c * (1 + d)"
    using rnd_lower [of c] rnd_upper [of c] norm [of c] assms unfolding d_def by simp_all
  have "1 * (7 / 8) \<le> of_nat n * (1 - d)" "1 / 2 * (7 / 8) \<le> c * (1 - d)"
    using n d assms by (intro mult_mono; simp)+
  then have pos: "7 / 8 \<le> rnd (of_nat n)" "7 / 16 \<le> rnd c" using N C by simp_all
  let ?y = "rnd (of_nat n) * rnd c"
  have "7 / 8 * (7 / 16) \<le> ?y" using pos by (intro mult_mono) simp_all
  then have y: "0 < ?y" "least_normal \<le> ?y" using norm [of ?y] by simp_all
  have "(of_nat n * (1 - d)) * (c * (1 - d)) * (1 - d) \<le> ?y * (1 - d)"
    using N C pos n d assms by (intro mult_right_mono mult_mono) simp_all
  also have "\<dots> \<le> rnd ?y" using rnd_lower [OF y] by (simp add: d_def)
  finally have low: "c * of_nat n * ((1 - d) * (1 - d) * (1 - d)) \<le> rnd ?y" by (simp add: ac_simps)
  have "rnd ?y \<le> ?y * (1 + d)" using rnd_upper [OF y] by (simp add: d_def)
  also have "\<dots> \<le> (of_nat n * (1 + d)) * (c * (1 + d)) * (1 + d)"
    using N C pos n d assms by (intro mult_right_mono mult_mono) simp_all
  finally have up: "rnd ?y \<le> c * of_nat n * ((1 + d) * (1 + d) * (1 + d))" by (simp add: ac_simps)
  have cn: "0 \<le> c * of_nat n" using assms by simp
  have "c * of_nat n * (1 - 4 * d) \<le> rnd ?y" "rnd ?y \<le> c * of_nat n * (1 + 4 * d)"
    using low up mult_left_mono [OF eps_cubed(1) cn, of d] mult_left_mono [OF eps_cubed(2) cn, of d] d
    by simp_all
  then show ?thesis by (simp add: d_def abs_le_iff algebra_simps)
qed

end

lemma round_rat_rounding:
  assumes "8 \<le> p" and "q \<le> 0" and "q + 2 * int p \<le> 1"
  shows "rounding (round_rat p q) p (2 powi (q + int p - 1))"
proof
  fix n :: int
  assume "\<bar>n\<bar> \<le> 2 ^ p"
  then show "round_rat p q (of_int n) = of_int n"
    using assms by (simp add: round_rat_exact representable_int)
next
  fix x :: rat and n :: int
  assume "0 < x" "x \<le> of_int n" "n \<le> 2 ^ p"
  moreover from this have "0 < n"
    using of_int_0_less_iff [of n, where 'a = rat] by linarith
  ultimately show "round_rat p q x \<le> of_int n"
    using assms round_rat_le_representable [of x "of_int n" p q] representable_int [of n p q]
    by simp
next
  fix x :: rat
  assume "0 < x" "2 powi (q + int p - 1) \<le> x"
  then show "\<bar>round_rat p q x - x\<bar> < x / 2 ^ p"
    using assms by (intro round_rat_relative_error_strict) auto
next
  have "(2::rat) powi (q + int p - 1) \<le> 2 powi (- int p)"
    using assms by (intro powi_mono) simp
  also have "\<dots> = 1 / 2 ^ p"
    by (simp add: power_int_minus divide_inverse)
  finally show "2 powi (q + int p - 1) \<le> (1 / 2 ^ p :: rat)" .
qed (rule assms(1))

interpretation r32: rounding "round_rat 24 (-149)" 24 "2 powi (-149 + int 24 - 1)"
  by (rule round_rat_rounding) auto

interpretation r64: rounding "round_rat 53 (-1074)" 53 "2 powi (-1074 + int 53 - 1)"
  by (rule round_rat_rounding) auto

section \<open>Operations on counts\<close>

named_theorems float_eval \<open>values of floating-point operations\<close>

lemma format_simps [simp]:
  "prec binary32 = 24" "qmin binary32 = -149" "emax binary32 = 128"
  "prec binary64 = 53" "qmin binary64 = -1074" "emax binary64 = 1024"
  by (simp_all add: binary32_def binary64_def)

lemma fl_round_Fin:
  assumes "0 \<le> x" and "x \<le> 2 ^ k" and "k < emax fmt" and "qmin fmt \<le> 0" and "0 < prec fmt"
  shows "fl_round fmt x = Fin (round_rat (prec fmt) (qmin fmt) x)"
proof -
  have "round_rat (prec fmt) (qmin fmt) x \<le> 2 ^ k"
  proof (cases "x = 0")
    case True
    then show ?thesis by (simp add: round_rat_def)
  next
    case False
    have "representable (prec fmt) (qmin fmt) (2 ^ k)"
      unfolding representable_def
      using assms by (intro exI [of _ 1] exI [of _ "int k"]) auto
    then show ?thesis
      using assms False by (intro round_rat_le_representable) auto
  qed
  moreover have "(2::rat) ^ k < 2 ^ emax fmt"
    using assms(3) by simp
  moreover have "0 \<le> round_rat (prec fmt) (qmin fmt) x"
    using assms(1) by (rule round_rat_nonneg)
  moreover have "(0::rat) < 2 ^ emax fmt" by simp
  ultimately have "\<not> 2 ^ emax fmt \<le> round_rat (prec fmt) (qmin fmt) x"
    "\<not> round_rat (prec fmt) (qmin fmt) x \<le> - (2 ^ emax fmt)"
    by linarith+
  then show ?thesis
    by (simp add: fl_round_def Let_def)
qed

lemma fl_of_nat_exact32 [float_eval]: "n \<le> 2 ^ 24 \<Longrightarrow> fl_of_nat binary32 n = Fin (of_nat n)"
proof -
  assume n: "n \<le> 2 ^ 24"
  then have "(of_nat n :: rat) \<le> 2 ^ 24"
    by (metis of_nat_le_iff of_nat_numeral of_nat_power)
  then have "fl_of_nat binary32 n = Fin (round_rat 24 (-149) (of_nat n))"
    unfolding fl_of_nat_def by (subst fl_round_Fin [of _ 24]) auto
  then show ?thesis using r32.rnd_nat [OF n] by simp
qed

lemma fl_round_range32:
  assumes "0 \<le> x" and "x \<le> of_nat n" and "n \<le> 2 ^ 24"
  shows "\<exists>y. fl_round binary32 x = Fin y \<and> 0 \<le> y \<and> y \<le> of_nat n"
proof (cases "x = 0")
  case True
  then show ?thesis by (simp add: fl_round_def round_rat_def)
next
  case False
  then have "round_rat 24 (-149) x \<le> round_rat 24 (-149) (of_nat n)"
    using assms by (intro round_rat_mono) auto
  then have "round_rat 24 (-149) x \<le> of_nat n" using r32.rnd_nat [OF assms(3)] by simp
  moreover have "(of_nat n :: rat) \<le> 2 ^ 24"
    using assms(3) by (metis of_nat_le_iff of_nat_numeral of_nat_power)
  then have "x \<le> 2 ^ 24" using assms(2) by linarith
  then have "fl_round binary32 x = Fin (round_rat 24 (-149) x)"
    using assms(1) by (subst fl_round_Fin [of _ 24]) auto
  ultimately show ?thesis using round_rat_nonneg [OF assms(1)] by blast
qed

lemma fl_of_nat_Fin64: "n < 2 ^ 64 \<Longrightarrow> fl_of_nat binary64 n = Fin (round_rat 53 (-1074) (of_nat n))"
proof -
  assume n: "n < 2 ^ 64"
  then have "(of_nat n :: rat) < 2 ^ 64"
    by (metis of_nat_less_iff of_nat_numeral of_nat_power)
  then show ?thesis
    unfolding fl_of_nat_def by (subst fl_round_Fin [of _ 64]) auto
qed

text \<open>\<open>(a as f32 / b as f32).ceil()\<close> of two counts of at most \<open>2 ^ 24\<close>.\<close>

lemma fl_ceil_quotient32 [float_eval]:
  assumes "1 \<le> a" and "a \<le> 2 ^ 24" and "1 \<le> b" and "b \<le> 2 ^ 24"
  shows "fl_ceil (fl_div binary32 (fl_of_nat binary32 a) (fl_of_nat binary32 b)) =
    Fin (of_int \<lceil>of_nat a / of_nat b :: rat\<rceil>)"
proof -
  have a24: "(of_nat a :: rat) \<le> 2 ^ 24"
    using assms(2) by (metis of_nat_le_iff of_nat_numeral of_nat_power)
  have "of_nat a / of_nat b \<le> (2::rat) ^ 24"
  proof -
    have "of_nat a / of_nat b \<le> (of_nat a :: rat)"
      using assms by (simp add: divide_le_eq)
    with a24 show ?thesis by linarith
  qed
  then have "fl_round binary32 (of_nat a / of_nat b) = Fin (round_rat 24 (-149) (of_nat a / of_nat b))"
    by (subst fl_round_Fin [of _ 24]) auto
  then show ?thesis
    using assms r32.ceiling_quotient [of a b] by (simp add: fl_of_nat_exact32)
qed

lemma fl_add_nat: "a + b \<le> 2 ^ 24 \<Longrightarrow> fl_add binary32 (Fin (of_nat a)) (Fin (of_nat b)) = Fin (of_nat (a + b))"
  using fl_of_nat_exact32 [of "a + b"] by (simp add: fl_of_nat_def)

lemma fl_sub_nat:
  "b \<le> a \<Longrightarrow> a \<le> 2 ^ 24 \<Longrightarrow> fl_sub binary32 (Fin (of_nat a)) (Fin (of_nat b)) = Fin (of_nat (a - b))"
  using fl_of_nat_exact32 [of "a - b"] by (simp add: fl_sub_def fl_of_nat_def of_nat_diff)

end
