(* ===== verification/Cluster_Types.thy ===== *)
theory Cluster_Types
  imports Ieee
begin

text \<open>
  The data model of \<open>crates/cluster-types\<close>: every struct is a record with the
  source's fields (prefixed by the struct's initials, since record fields share
  one name space), every enum a datatype with the source's variants, integers at
  their width, \<open>f32\<close> as in \<open>Ieee\<close>.  A \<open>Uuid\<close> is its 128 bits, a
  \<open>DateTime<Utc>\<close> a count of nanoseconds.
\<close>

type_synonym node_id = uuid
type_synonym cluster_id = uuid
type_synonym model_id = string
type_synonym session_id = uuid
type_synonym tensor_id = string
type_synonym datetime = int

section \<open>Nodes\<close>

record cpu_capabilities =
  cpu_architecture :: string
  cpu_cores :: u32
  cpu_threads :: u32
  cpu_frequency_mhz :: u32
  cpu_features :: "string list"
  cpu_numa_nodes :: u32

datatype gpu_vendor = Nvidia | Amd | Intel | Apple | Unknown

datatype precision = Fp32 | Fp16 | Bf16 | Int8 | Int4 | Fp8

record gpu_capabilities =
  gpu_id :: string
  gpu_name :: string
  gpu_vendor :: gpu_vendor
  gpu_vram_bytes :: u64
  gpu_compute_capability :: "string option"
  gpu_supports_peer_to_peer :: bool
  gpu_supports_nvml :: bool
  gpu_supported_precisions :: "precision list"

record memory_capabilities =
  mem_total_bytes :: u64
  mem_available_bytes :: u64
  mem_bandwidth_mbps :: u64

record storage_capabilities =
  sto_total_bytes :: u64
  sto_available_bytes :: u64
  sto_read_throughput_mbps :: u32
  sto_write_throughput_mbps :: u32

record network_interface =
  nif_name :: string
  nif_ip_address :: string
  nif_mac_address :: string
  nif_bandwidth_mbps :: u32
  nif_supports_rdma :: bool

record network_capabilities =
  net_interfaces :: "network_interface list"

datatype runtime_backend = GGML | CUDA | ROCm | MLX | Vulkan | CPU

record node_capabilities =
  nc_cpu :: cpu_capabilities
  nc_gpus :: "gpu_capabilities list"
  nc_memory :: memory_capabilities
  nc_storage :: storage_capabilities
  nc_network :: network_capabilities
  nc_supported_runtimes :: "runtime_backend list"

record gpu_usage =
  gu_device_id :: string
  gu_utilization_percent :: f32
  gu_vram_used_bytes :: u64
  gu_temperature_celsius :: f32
  gu_power_draw_watts :: "f32 option"

record node_resources =
  nr_cpu_usage_percent :: f32
  nr_memory_used_bytes :: u64
  nr_memory_committed_bytes :: u64
  nr_gpu_usage :: "gpu_usage list"
  nr_network_tx_mbps :: f32
  nr_network_rx_mbps :: f32
  nr_temperature_celsius :: "f32 option"

record schedule_hours =
  sh_allowed_hours :: "string list"

record node_permissions =
  np_max_cpu_percent :: u8
  np_max_cpu_threads :: "u32 option"
  np_max_ram_bytes :: u64
  np_gpu_enabled :: bool
  np_max_vram_bytes :: u64
  np_max_storage_bytes :: u64
  np_allow_when_on_battery :: bool
  np_pause_when_user_active :: bool
  np_allowed_schedule :: "schedule_hours option"

datatype node_status = Healthy | Suspect | Unavailable | Draining | Maintenance

record physical_node =
  pn_id :: node_id
  pn_name :: string
  pn_hostname :: string
  pn_cluster_id :: cluster_id
  pn_capabilities :: node_capabilities
  pn_resources :: node_resources
  pn_permissions :: node_permissions
  pn_status :: node_status
  pn_last_heartbeat :: datetime
  pn_certificate_fingerprint :: "string option"

section \<open>The logical cluster\<close>

datatype parallelism_strategy = Pipeline | Tensor | PipelineHybrid | Expert | Data

record logical_resources =
  lr_cpu_compute_units :: f32
  lr_host_memory_bytes :: u64
  lr_device_memory_bytes :: u64
  lr_storage_bytes :: u64
  lr_preferred_parallelism :: parallelism_strategy

record node_topology =
  nt_cpu_score :: f32
  nt_ram_usable_bytes :: u64
  nt_devices :: "string list"

record link_measurement =
  lm_from :: node_id
  lm_to :: node_id
  lm_transport :: string
  lm_latency_us :: u32
  lm_bandwidth_mbps :: u32
  lm_jitter_us :: u32
  lm_packet_loss_percent :: f32

record cluster_topology =
  ct_nodes :: "(node_id, node_topology) hash_map"
  ct_links :: "link_measurement list"

record logical_cluster =
  lc_id :: cluster_id
  lc_name :: string
  lc_logical_resources :: logical_resources
  lc_nodes :: "(node_id, physical_node) hash_map"
  lc_topology :: cluster_topology

section \<open>Tensors and placements\<close>

datatype placement_role = Primary | Replica | WarmCopy

record physical_placement =
  pp_node_id :: node_id
  pp_device :: string
  pp_offset :: u64
  pp_length :: u64
  pp_role :: placement_role

record tensor_handle =
  th_tensor_id :: tensor_id
  th_device :: string
  th_offset :: u64
  th_size :: u64

text \<open>A tensor as the interfaces describe it, with all its copies.\<close>

record tensor_placement =
  tp_tensor_id :: tensor_id
  tp_shape :: "usize list"
  tp_dtype :: string
  tp_placements :: "physical_placement list"

datatype memory_tier =
    OnDeviceVram | LocalPinnedRam | LocalPageableRam | RemoteVram
  | RemotePinnedRam | RemotePageableRam | LocalNvme | RemoteNvme

section \<open>Requests to a runtime\<close>

record model_shard_spec =
  ms_model_id :: model_id
  ms_shard_id :: u32
  ms_layers :: "u32 list"
  ms_format :: string
  ms_quantization :: string
  ms_bytes :: u64
  ms_checksum :: string

record tensor_spec =
  tc_tensor_id :: tensor_id
  tc_shape :: "usize list"
  tc_dtype :: string
  tc_bytes :: u64

record shard_handle =
  sd_shard_id :: u32
  sd_backend :: runtime_backend

record stage_execution =
  sx_stage_id :: u32
  sx_input_tensors :: "tensor_handle list"

record stage_output =
  so_stage_id :: u32
  so_output_tensors :: "tensor_handle list"
  so_execution_time_ms :: u32

record tensor_transfer =
  tt_tensor_id :: tensor_id
  tt_from_device :: string
  tt_to_device :: string
  tt_bytes :: u64

record transfer_receipt =
  rt_tensor_id :: tensor_id
  rt_bytes_transferred :: u64
  rt_transfer_time_ms :: u32

section \<open>Plans\<close>

record performance_estimate =
  pe_load_seconds :: f32
  pe_prompt_tokens_per_second :: f32
  pe_decode_tokens_per_second :: f32

record stage_plan =
  sp_id :: u32
  sp_node_id :: node_id
  sp_device :: string
  sp_layers :: "u32 list"
  sp_weight_bytes :: u64

datatype kv_cache_policy = StageLocal | StageLocalWithHostSpill | Distributed

record kv_cache_plan =
  kv_policy :: kv_cache_policy
  kv_reserved_bytes :: u64

record execution_plan =
  ep_model_id :: model_id
  ep_strategy :: parallelism_strategy
  ep_estimated :: performance_estimate
  ep_stages :: "stage_plan list"
  ep_kv_cache :: kv_cache_plan

text \<open>The common error type, which no operation of the repository returns.\<close>

datatype cluster_error =
    NodeNotFound node_id
  | NodeUnavailable node_id
  | InsufficientResources string
  | InvalidPlan string
  | TensorNotFound tensor_id
  | TransportError string
  | AuthenticationError string
  | PermissionDenied string

section \<open>Nodes, for the components that select them\<close>

definition healthy :: "physical_node \<Rightarrow> bool" where
  "healthy node \<longleftrightarrow> pn_status node = Healthy"

definition has_gpu :: "physical_node \<Rightarrow> bool" where
  "has_gpu node \<longleftrightarrow> nc_gpus (pn_capabilities node) \<noteq> []"

text \<open>\<open>as f32\<close> for the fields' widths.\<close>

definition f32_of :: "'a::len word \<Rightarrow> f32" where
  "f32_of w = fl_of_nat binary32 (unat w)"

definition f64_of :: "'a::len word \<Rightarrow> f64" where
  "f64_of w = fl_of_nat binary64 (unat w)"

end
