(* ===== verification/Samples.thy ===== *)
theory Samples
  imports Cluster_Types
begin

text \<open>
  Concrete nodes and clusters for the witnesses: every hypothesis of a property
  is shown to hold at one of these values.
\<close>

definition sample_gpu :: "string \<Rightarrow> u64 \<Rightarrow> gpu_capabilities" where
  "sample_gpu name vram = \<lparr>gpu_id = name, gpu_name = ''RTX 4090'', gpu_vendor = Nvidia,
     gpu_vram_bytes = vram, gpu_compute_capability = Some ''8.9'',
     gpu_supports_peer_to_peer = False, gpu_supports_nvml = True,
     gpu_supported_precisions = [Fp32, Fp16]\<rparr>"

definition sample_node :: "node_id \<Rightarrow> node_status \<Rightarrow> gpu_capabilities list \<Rightarrow> physical_node" where
  "sample_node n status gpus = \<lparr>pn_id = n, pn_name = ''worker'', pn_hostname = ''worker.local'',
     pn_cluster_id = 1,
     pn_capabilities = \<lparr>
       nc_cpu = \<lparr>cpu_architecture = ''x86_64'', cpu_cores = 16, cpu_threads = 32,
         cpu_frequency_mhz = 3600, cpu_features = [], cpu_numa_nodes = 1\<rparr>,
       nc_gpus = gpus,
       nc_memory = \<lparr>mem_total_bytes = 68719476736, mem_available_bytes = 34359738368,
         mem_bandwidth_mbps = 50000\<rparr>,
       nc_storage = \<lparr>sto_total_bytes = 1000, sto_available_bytes = 500,
         sto_read_throughput_mbps = 3000, sto_write_throughput_mbps = 2000\<rparr>,
       nc_network = \<lparr>net_interfaces = []\<rparr>,
       nc_supported_runtimes = [CUDA, CPU]\<rparr>,
     pn_resources = \<lparr>nr_cpu_usage_percent = Fin 10, nr_memory_used_bytes = 0,
       nr_memory_committed_bytes = 0, nr_gpu_usage = [], nr_network_tx_mbps = Fin 0,
       nr_network_rx_mbps = Fin 0, nr_temperature_celsius = None\<rparr>,
     pn_permissions = \<lparr>np_max_cpu_percent = 80, np_max_cpu_threads = None,
       np_max_ram_bytes = 0, np_gpu_enabled = True, np_max_vram_bytes = 0,
       np_max_storage_bytes = 0, np_allow_when_on_battery = False,
       np_pause_when_user_active = False, np_allowed_schedule = None\<rparr>,
     pn_status = status, pn_last_heartbeat = 0, pn_certificate_fingerprint = None\<rparr>"

definition sample_cluster :: "(node_id, physical_node) hash_map \<Rightarrow> link_measurement list \<Rightarrow> logical_cluster" where
  "sample_cluster nodes links = \<lparr>lc_id = 1, lc_name = ''lab'',
     lc_logical_resources = \<lparr>lr_cpu_compute_units = Fin 32, lr_host_memory_bytes = 68719476736,
       lr_device_memory_bytes = 25769803776, lr_storage_bytes = 0,
       lr_preferred_parallelism = PipelineHybrid\<rparr>,
     lc_nodes = nodes, lc_topology = \<lparr>ct_nodes = [], ct_links = links\<rparr>\<rparr>"

lemma sample_node_simps [simp]:
  "healthy (sample_node n status gpus) = (status = Healthy)"
  "has_gpu (sample_node n status gpus) = (gpus \<noteq> [])"
  "nc_gpus (pn_capabilities (sample_node n status gpus)) = gpus"
  "pn_status (sample_node n status gpus) = status"
  by (simp_all add: sample_node_def healthy_def has_gpu_def)

lemma sample_cluster_simps [simp]:
  "lc_nodes (sample_cluster nodes links) = nodes"
  "ct_links (lc_topology (sample_cluster nodes links)) = links"
  "lr_device_memory_bytes (lc_logical_resources (sample_cluster nodes links)) = 25769803776"
  by (simp_all add: sample_cluster_def)

end
