(* ===== verification/Planner.thy ===== *)
theory Planner
  imports Samples "HOL-Library.Sublist"
begin

text \<open>
  The execution planner, \<open>services/planner/src/lib.rs\<close>: strategy selection from
  the measured links, the partition of the model's layers into stages over the
  healthy nodes, the KV-cache reservation and the performance estimate.

  The partition sizes its stages with \<open>(layer_count as f32 / node_count as
  f32).ceil() as u32\<close>.  The central facts: up to \<open>2 ^ 24\<close> layers and nodes the
  stages cover every layer exactly once, in order; just above, the conversion
  to \<open>f32\<close> loses a layer.
\<close>

section \<open>Requests and errors\<close>

record model_metadata =
  mm_parameter_count :: u64
  mm_layer_count :: u32
  mm_architecture :: string
  mm_quantization :: string
  mm_estimated_weight_bytes :: u64

record planning_request =
  pr_model_id :: model_id
  pr_model_metadata :: model_metadata
  pr_context_length :: u32
  pr_batch_size :: u32
  pr_preferred_strategy :: "parallelism_strategy option"

datatype planning_error =
    NoAvailableNodes
  | ModelTooLarge
  | InvalidPlan string
  | PlannerInternal string

section \<open>Strategy selection\<close>

text \<open>\<open>a / b\<close> on \<open>u32\<close>.\<close>

definition div_u32 :: "u32 \<Rightarrow> u32 \<Rightarrow> (planning_error, u32) outcome" where
  "div_u32 a b = (if b = 0 then Panic Divide_By_Zero else Ok (a div b))"

definition calculate_average_bandwidth :: "cluster_topology \<Rightarrow> (planning_error, u32) outcome" where
  "calculate_average_bandwidth topology =
     (if ct_links topology = [] then Ok 1000
      else div_u32 (sum_list (map lm_bandwidth_mbps (ct_links topology)))
             (word_of_nat (length (ct_links topology))))"

definition calculate_average_latency :: "cluster_topology \<Rightarrow> (planning_error, u32) outcome" where
  "calculate_average_latency topology =
     (if ct_links topology = [] then Ok 1000
      else div_u32 (sum_list (map lm_latency_us (ct_links topology)))
             (word_of_nat (length (ct_links topology))))"

definition strategy_for_links :: "u32 \<Rightarrow> u32 \<Rightarrow> parallelism_strategy" where
  "strategy_for_links avg_bandwidth avg_latency =
     (if 10000 \<le> avg_bandwidth \<and> avg_latency < 100 then PipelineHybrid
      else if 2500 \<le> avg_bandwidth \<and> avg_latency < 500 then Pipeline
      else if 1000 \<le> avg_bandwidth then PipelineHybrid
      else Pipeline)"

definition select_strategy ::
  "planning_request \<Rightarrow> logical_cluster \<Rightarrow> (planning_error, parallelism_strategy) outcome" where
  "select_strategy request cluster =
     (case pr_preferred_strategy request of
        Some strategy \<Rightarrow> Ok strategy
      | None \<Rightarrow>
          bind_outcome (calculate_average_bandwidth (lc_topology cluster)) (\<lambda>avg_bandwidth.
          bind_outcome (calculate_average_latency (lc_topology cluster)) (\<lambda>avg_latency.
            Ok (strategy_for_links avg_bandwidth avg_latency))))"

section \<open>Partition into stages\<close>

definition select_device :: "physical_node \<Rightarrow> string" where
  "select_device node =
     (case nc_gpus (pn_capabilities node) of
        gpu # _ \<Rightarrow> ''cuda:'' @ gpu_id gpu
      | [] \<Rightarrow> ''cpu:0'')"

definition estimate_stage_weight :: "u32 list \<Rightarrow> u64 \<Rightarrow> u32 \<Rightarrow> u64" where
  "estimate_stage_weight layers total_weight_bytes total_layers =
     (let layer_fraction = fl_div binary32 (fl_of_nat binary32 (length layers)) (f32_of total_layers)
      in fl_to_word (fl_mul binary32 (f32_of total_weight_bytes) layer_fraction))"

text \<open>The range \<open>a..b\<close>.\<close>

definition u32_range :: "u32 \<Rightarrow> u32 \<Rightarrow> u32 list" where
  "u32_range a b = map word_of_nat [unat a..<unat b]"

text \<open>\<open>(layer_count as f32 / node_count as f32).ceil() as u32\<close>.\<close>

definition layers_per_node :: "u32 \<Rightarrow> nat \<Rightarrow> u32" where
  "layers_per_node layer_count node_count =
     fl_to_word (fl_ceil (fl_div binary32 (f32_of layer_count) (fl_of_nat binary32 node_count)))"

text \<open>
  The loop over the nodes: \<open>i\<close> is the enumeration index, \<open>current\<close> the next
  layer to place.  Returns the stages and the final \<open>current_layer\<close>.
\<close>

fun stage_loop ::
  "model_metadata \<Rightarrow> u32 \<Rightarrow> nat \<Rightarrow> u32 \<Rightarrow> (node_id \<times> physical_node) list \<Rightarrow> stage_plan list \<times> u32" where
  "stage_loop md per_node i current [] = ([], current)"
| "stage_loop md per_node i current ((node_id, node) # rest) =
     (let end_layer = min (current + per_node) (mm_layer_count md);
          layers = u32_range current end_layer
      in if layers = [] then stage_loop md per_node (Suc i) current rest
         else
           let (stages, final) = stage_loop md per_node (Suc i) end_layer rest
           in (\<lparr>sp_id = word_of_nat i, sp_node_id = node_id, sp_device = select_device node,
                sp_layers = layers,
                sp_weight_bytes =
                  estimate_stage_weight layers (mm_estimated_weight_bytes md) (mm_layer_count md)\<rparr>
               # stages, final))"

definition available_nodes :: "logical_cluster \<Rightarrow> (node_id \<times> physical_node) list" where
  "available_nodes cluster = filter (\<lambda>(_, node). healthy node) (lc_nodes cluster)"

definition pipeline_stages :: "model_metadata \<Rightarrow> (node_id \<times> physical_node) list \<Rightarrow> stage_plan list" where
  "pipeline_stages md nodes =
     fst (stage_loop md (layers_per_node (mm_layer_count md) (length nodes)) 0 0 nodes)"

text \<open>The stage of the remaining layers on the first node without a GPU, if there is one.\<close>

definition cpu_offload_stage ::
  "model_metadata \<Rightarrow> (node_id \<times> physical_node) list \<Rightarrow> stage_plan list \<Rightarrow> u32 \<Rightarrow> stage_plan list" where
  "cpu_offload_stage md nodes stages current =
     (if current < mm_layer_count md then
        (case filter (\<lambda>(_, node). \<not> has_gpu node) nodes of
           [] \<Rightarrow> stages
         | (node_id, _) # _ \<Rightarrow>
             (let layers = u32_range current (mm_layer_count md)
              in stages @ [\<lparr>sp_id = word_of_nat (length stages), sp_node_id = node_id,
                   sp_device = ''cpu:0'', sp_layers = layers,
                   sp_weight_bytes = estimate_stage_weight layers
                     (mm_estimated_weight_bytes md) (mm_layer_count md)\<rparr>]))
      else stages)"

definition hybrid_stages :: "model_metadata \<Rightarrow> (node_id \<times> physical_node) list \<Rightarrow> stage_plan list" where
  "hybrid_stages md nodes =
     (let gpu_nodes = filter (\<lambda>(_, node). has_gpu node) nodes
      in if gpu_nodes = [] then pipeline_stages md nodes
         else
           let (stages, current) =
             stage_loop md (layers_per_node (mm_layer_count md) (length gpu_nodes)) 0 0 gpu_nodes
           in cpu_offload_stage md nodes stages current)"

definition partition_model ::
  "planning_request \<Rightarrow> logical_cluster \<Rightarrow> parallelism_strategy \<Rightarrow>
   (planning_error, stage_plan list) outcome" where
  "partition_model request cluster strategy =
     (let nodes = available_nodes cluster; md = pr_model_metadata request
      in if nodes = [] then Err NoAvailableNodes
         else Ok (case strategy of
                    Pipeline \<Rightarrow> pipeline_stages md nodes
                  | PipelineHybrid \<Rightarrow> hybrid_stages md nodes
                  | _ \<Rightarrow> pipeline_stages md nodes))"

section \<open>KV cache and performance\<close>

definition plan_kv_cache :: "planning_request \<Rightarrow> logical_cluster \<Rightarrow> kv_cache_plan" where
  "plan_kv_cache request cluster =
     (let kv_bytes_per_token_per_layer = (2 * 4096 * 2 :: u64);
          total_kv_bytes = kv_bytes_per_token_per_layer * ucast (pr_context_length request)
            * ucast (mm_layer_count (pr_model_metadata request));
          total_vram = lr_device_memory_bytes (lc_logical_resources cluster)
      in \<lparr>kv_policy = (if total_vram < total_kv_bytes then StageLocalWithHostSpill else StageLocal),
          kv_reserved_bytes = total_kv_bytes\<rparr>)"

definition stage_score :: "logical_cluster \<Rightarrow> stage_plan \<Rightarrow> f32 option" where
  "stage_score cluster stage =
     (case hm_get (lc_nodes cluster) (sp_node_id stage) of
        None \<Rightarrow> None
      | Some node \<Rightarrow>
          Some (if prefix ''cuda'' (sp_device stage) \<or> prefix ''gpu'' (sp_device stage) then
                  (case nc_gpus (pn_capabilities node) of
                     gpu # _ \<Rightarrow> fl_mul binary32
                       (fl_div binary32 (f32_of (gpu_vram_bytes gpu)) (Fin (1024 * 1024 * 1024))) (Fin 10)
                   | [] \<Rightarrow> Fin 5)
                else fl_mul binary32 (f32_of (cpu_cores (nc_cpu (pn_capabilities node)))) (Fin (1 / 2))))"

definition estimate_performance ::
  "planning_request \<Rightarrow> logical_cluster \<Rightarrow> stage_plan list \<Rightarrow> kv_cache_plan \<Rightarrow> performance_estimate" where
  "estimate_performance request cluster stages kv =
     (let load_seconds = fl_add binary32
            (fl_div binary32 (f32_of (mm_estimated_weight_bytes (pr_model_metadata request)))
               (Fin (100 * 1024 * 1024))) (Fin 5);
          stage_scores = List.map_filter (stage_score cluster) stages;
          min_score = foldl fl_min Pos_Inf stage_scores;
          decode = (if fl_is_finite min_score then min_score else Fin 1);
          prompt = fl_mul binary32 decode (Fin 3)
      in \<lparr>pe_load_seconds = load_seconds,
          pe_prompt_tokens_per_second = prompt,
          pe_decode_tokens_per_second =
            (case kv_policy kv of
               StageLocalWithHostSpill \<Rightarrow> fl_mul binary32 decode (fl_round binary32 (7 / 10))
             | _ \<Rightarrow> decode)\<rparr>)"

definition create_plan ::
  "planning_request \<Rightarrow> logical_cluster \<Rightarrow> (planning_error, execution_plan) outcome" where
  "create_plan request cluster =
     bind_outcome (select_strategy request cluster) (\<lambda>strategy.
     bind_outcome (partition_model request cluster strategy) (\<lambda>stages.
       let kv_cache = plan_kv_cache request cluster;
           estimated = estimate_performance request cluster stages kv_cache
       in Ok \<lparr>ep_model_id = pr_model_id request, ep_strategy = strategy, ep_estimated = estimated,
              ep_stages = stages, ep_kv_cache = kv_cache\<rparr>))"

section \<open>The layer loop\<close>

lemma u32_range_empty [simp]: "u32_range a b = [] \<longleftrightarrow> b \<le> a"
  by (auto simp: u32_range_def word_le_nat_alt)

lemma u32_range_length [simp]: "length (u32_range a b) = unat b - unat a"
  by (simp add: u32_range_def)

lemma u32_range_append: "a \<le> b \<Longrightarrow> b \<le> c \<Longrightarrow> u32_range a b @ u32_range b c = u32_range a c"
  unfolding u32_range_def word_le_nat_alt
  by (metis map_append upt_add_eq_append le_Suc_ex)

lemma u32_range_set: "set (u32_range a b) = {a..<b}"
proof -
  have "w \<in> word_of_nat ` {unat a..<unat b} \<longleftrightarrow> a \<le> w \<and> w < b" for w :: u32
  proof
    assume "w \<in> word_of_nat ` {unat a..<unat b}"
    then obtain n where n: "w = word_of_nat n" "unat a \<le> n" "n < unat b" by auto
    then have "n < 2 ^ 32" using unat_bound [of b] by simp
    with n show "a \<le> w \<and> w < b"
      by (simp add: word_le_nat_alt word_less_nat_alt unat_of_nat_exact)
  next
    assume "a \<le> w \<and> w < b"
    then show "w \<in> word_of_nat ` {unat a..<unat b}"
      by (intro image_eqI [where x = "unat w"]) (auto simp: word_le_nat_alt word_less_nat_alt)
  qed
  then show ?thesis by (simp add: u32_range_def set_eq_iff)
qed

lemma u32_range_distinct: "distinct (u32_range a b)"
proof -
  have "inj_on (word_of_nat :: nat \<Rightarrow> u32) {unat a..<unat b}"
  proof (rule inj_onI)
    fix m n
    assume m: "m \<in> {unat a..<unat b}" and n: "n \<in> {unat a..<unat b}"
      and eq: "(word_of_nat m :: u32) = word_of_nat n"
    from m n have "m < 2 ^ 32" "n < 2 ^ 32"
      using unat_bound [of b] by auto
    then have "unat (word_of_nat m :: u32) = m" "unat (word_of_nat n :: u32) = n"
      using unat_of_nat_exact [where 'a = 32] by simp_all
    then show "m = n" using eq by (metis (no_types))
  qed
  then show ?thesis
    by (simp add: u32_range_def distinct_map)
qed

lemma unat_min: "unat (min a b :: 'a::len word) = min (unat a) (unat b)"
  by (simp add: min_def word_le_nat_alt)

text \<open>One step of the loop, as a case distinction.\<close>

lemma stage_loop_Cons:
  assumes "stage_loop md per_node i current ((node_id, node) # rest) = (stages, final)"
    and "e = min (current + per_node) (mm_layer_count md)"
  obtains (skip) "e \<le> current" "stage_loop md per_node (Suc i) current rest = (stages, final)"
  | (stage) stage stages' where "current < e" "stages = stage # stages'"
      "stage_loop md per_node (Suc i) e rest = (stages', final)"
      "sp_id stage = word_of_nat i" "sp_node_id stage = node_id"
      "sp_device stage = select_device node" "sp_layers stage = u32_range current e"
      "sp_weight_bytes stage = estimate_stage_weight (sp_layers stage)
         (mm_estimated_weight_bytes md) (mm_layer_count md)"
proof (cases "e \<le> current")
  case True
  with assms skip show ?thesis by (simp add: Let_def)
next
  case False
  obtain stages' f where rec: "stage_loop md per_node (Suc i) e rest = (stages', f)" by force
  with assms False have "f = final" by (auto simp: Let_def)
  with rec have rec: "stage_loop md per_node (Suc i) e rest = (stages', final)" by simp
  show ?thesis
    by (rule stage [OF _ _ rec]) (use assms False rec in \<open>auto simp: Let_def simp flip: not_le\<close>)
qed

text \<open>
  The loop as arithmetic: after \<open>n\<close> nodes, \<open>min layer_count (current + n *
  per_node)\<close> layers are placed, and the stages' layers are that range in order.
\<close>

lemma stage_loop_cover:
  assumes "stage_loop md per_node i current nodes = (stages, final)"
    and "unat (mm_layer_count md) + unat per_node < 2 ^ 32"
    and "current \<le> mm_layer_count md"
  shows "unat final = min (unat (mm_layer_count md)) (unat current + length nodes * unat per_node)
    \<and> concat (map sp_layers stages) = u32_range current final \<and> current \<le> final
    \<and> (\<forall>s \<in> set stages. length (sp_layers s) \<le> unat per_node)"
  using assms(1,3)
proof (induction nodes arbitrary: i current stages)
  case Nil
  then show ?case by (auto simp: word_le_nat_alt u32_range_def)
next
  case (Cons nd rest)
  obtain node_id node where nd: "nd = (node_id, node)" by force
  define e where "e = min (current + per_node) (mm_layer_count md)"
  have cur: "unat current \<le> unat (mm_layer_count md)"
    using Cons.prems(2) by (simp add: word_le_nat_alt)
  then have u: "unat e = min (unat current + unat per_node) (unat (mm_layer_count md))"
    using assms(2) by (simp add: unat_min unat_plus_exact e_def)
  from Cons.prems(1) [unfolded nd] e_def show ?case
  proof (cases rule: stage_loop_Cons)
    case skip
    note IH = Cons.IH [OF skip(2) Cons.prems(2)]
    from skip u have "unat per_node = 0 \<or> unat current = unat (mm_layer_count md)"
      using cur by (auto simp: word_le_nat_alt min_def split: if_splits)
    with IH cur show ?thesis by auto
  next
    case (stage s stages')
    have "e \<le> mm_layer_count md" by (simp add: e_def)
    note IH = Cons.IH [OF stage(3) this]
    have "current \<le> e" using stage(1) by (rule order.strict_implies_order)
    with IH stage(2,7) have "concat (map sp_layers stages) = u32_range current final \<and> current \<le> final"
      by (auto simp: u32_range_append)
    moreover have "unat final = min (unat (mm_layer_count md)) (unat current + length (nd # rest) * unat per_node)"
      using IH u by (auto simp: min_def)
    moreover have "length (sp_layers s) \<le> unat per_node"
      using stage(7) u by simp
    ultimately show ?thesis using IH stage(2) by simp
  qed
qed

text \<open>What every stage looks like.\<close>

definition stage_on :: "model_metadata \<Rightarrow> (node_id \<times> physical_node) list \<Rightarrow> stage_plan \<Rightarrow> bool" where
  "stage_on md nodes s \<longleftrightarrow>
     sp_layers s \<noteq> [] \<and>
     (\<exists>(n, node) \<in> set nodes. sp_node_id s = n \<and> sp_device s = select_device node) \<and>
     sp_weight_bytes s =
       estimate_stage_weight (sp_layers s) (mm_estimated_weight_bytes md) (mm_layer_count md)"

lemma stage_on_mono: "stage_on md nodes s \<Longrightarrow> set nodes \<subseteq> set nodes' \<Longrightarrow> stage_on md nodes' s"
  unfolding stage_on_def by blast

lemma stage_loop_stages:
  assumes "stage_loop md per_node i current nodes = (stages, final)"
  shows "\<forall>s \<in> set stages. stage_on md nodes s"
    and "set (map sp_node_id stages) \<subseteq> fst ` set nodes"
    and "distinct (map fst nodes) \<Longrightarrow> distinct (map sp_node_id stages)"
    and "length stages \<le> length nodes"
proof -
  have "(\<forall>s \<in> set stages. stage_on md nodes s) \<and> set (map sp_node_id stages) \<subseteq> fst ` set nodes
      \<and> (distinct (map fst nodes) \<longrightarrow> distinct (map sp_node_id stages)) \<and> length stages \<le> length nodes"
    using assms
  proof (induction nodes arbitrary: i current stages)
    case Nil
    then show ?case by simp
  next
    case (Cons nd rest)
    obtain node_id node where nd: "nd = (node_id, node)" by force
    from Cons.prems [unfolded nd] refl show ?case
    proof (cases rule: stage_loop_Cons)
      case skip
      from Cons.IH [OF skip(2)] show ?thesis
        by (auto intro: stage_on_mono)
    next
      case (stage s stages')
      have "sp_layers s \<noteq> []"
        using stage(1,7) by (simp only: u32_range_empty not_le)
      then have "stage_on md (nd # rest) s"
        using stage(5,6,8) by (auto simp: stage_on_def nd)
      with Cons.IH [OF stage(3)] stage(2,5) show ?thesis
        by (auto intro: stage_on_mono simp: nd)
    qed
  qed
  then show "\<forall>s \<in> set stages. stage_on md nodes s"
    and "set (map sp_node_id stages) \<subseteq> fst ` set nodes"
    and "distinct (map fst nodes) \<Longrightarrow> distinct (map sp_node_id stages)"
    and "length stages \<le> length nodes" by blast+
qed

section \<open>The stage size\<close>

text \<open>Up to \<open>2 ^ 24\<close> layers and nodes the floating-point computation is the exact ceiling.\<close>

lemma quotient_le_numerator: "1 \<le> n \<Longrightarrow> of_nat a / of_nat n \<le> (of_nat a :: rat)"
  by (metis div_by_1 divide_left_mono mult.right_neutral of_nat_0_le_iff of_nat_1 of_nat_le_iff
      order_less_le_trans zero_less_one)

lemma layers_per_node_exact:
  assumes "1 \<le> n" and "n \<le> 2 ^ 24" and "unat layer_count \<le> 2 ^ 24"
  shows "int (unat (layers_per_node layer_count n)) = \<lceil>of_nat (unat layer_count) / of_nat n :: rat\<rceil>"
proof (cases "unat layer_count = 0")
  case True
  with assms show ?thesis
    by (simp add: layers_per_node_def f32_of_def fl_of_nat_exact32 fl_round_def round_rat_def)
next
  case False
  define a where "a = unat layer_count"
  let ?c = "\<lceil>of_nat a / of_nat n :: rat\<rceil>"
  have c: "?c \<le> int a"
    using quotient_le_numerator [OF assms(1), of a] by (simp add: ceiling_le_iff)
  have "0 < a" using False by (simp add: a_def)
  then have pos: "0 < ?c" using assms(1) by simp
  have "layers_per_node layer_count n = fl_to_word (Fin (of_int ?c))"
    unfolding layers_per_node_def f32_of_def a_def
    using False assms by (subst fl_ceil_quotient32) auto
  also have "\<dots> = word_of_int ?c"
  proof -
    have "a \<le> 2 ^ 24" using assms(3) by (simp add: a_def)
    then have "int a < 2 ^ 32" by simp
    with c have "?c < 2 ^ 32" by (rule le_less_trans)
    with pos show ?thesis by (simp flip: not_le)
  qed
  finally have eq: "layers_per_node layer_count n = word_of_int ?c" .
  have "nat ?c \<le> a" using c by linarith
  moreover have "a \<le> 2 ^ 24" using assms(3) by (simp add: a_def)
  ultimately have "nat ?c < 2 ^ LENGTH(32)" by simp
  then have "unat (word_of_nat (nat ?c) :: u32) = nat ?c"
    by (rule unat_of_nat_exact)
  moreover have "word_of_nat (nat ?c) = (word_of_int ?c :: u32)"
    by (rule of_nat_nat [OF order_less_imp_le [OF pos]])
  ultimately have "unat (layers_per_node layer_count n) = nat ?c"
    by (simp only: eq)
  then have "int (unat (layers_per_node layer_count n)) = ?c"
    by (simp only: nat_0_le [OF order_less_imp_le [OF pos]])
  then show ?thesis by (simp only: a_def)
qed

lemma layers_per_node_enough:
  assumes "1 \<le> n" and "n \<le> 2 ^ 24" and "unat layer_count \<le> 2 ^ 24"
  shows "unat layer_count \<le> n * unat (layers_per_node layer_count n)"
    and "unat (layers_per_node layer_count n) \<le> unat layer_count"
proof -
  define a where "a = unat layer_count"
  define p where "p = unat (layers_per_node layer_count n)"
  have p: "int p = \<lceil>of_nat a / of_nat n :: rat\<rceil>"
    unfolding p_def a_def by (rule layers_per_node_exact [OF assms])
  then have "of_nat a / of_nat n \<le> (of_nat p :: rat)"
    by (metis le_of_int_ceiling of_int_of_nat_eq)
  then have "of_nat a \<le> (of_nat (n * p) :: rat)"
    using assms(1) by (simp add: divide_le_eq mult.commute)
  then have "a \<le> n * p" by (simp only: of_nat_le_iff)
  then show "unat layer_count \<le> n * unat (layers_per_node layer_count n)"
    by (simp add: a_def p_def)
  have "\<lceil>of_nat a / of_nat n :: rat\<rceil> \<le> int a"
    using quotient_le_numerator [OF assms(1), of a] by (simp add: ceiling_le_iff)
  with p have "int p \<le> int a" by (simp only:)
  then show "unat (layers_per_node layer_count n) \<le> unat layer_count"
    unfolding a_def p_def by (simp only: of_nat_le_iff)
qed

section \<open>The stages of a plan\<close>

text \<open>What a list of stages must satisfy to run the model on the given nodes.\<close>

definition complete_stages ::
  "model_metadata \<Rightarrow> (node_id \<times> physical_node) list \<Rightarrow> stage_plan list \<Rightarrow> bool" where
  "complete_stages md nodes stages \<longleftrightarrow>
     concat (map sp_layers stages) = u32_range 0 (mm_layer_count md) \<and>
     (\<forall>s \<in> set stages. stage_on md nodes s) \<and>
     length stages \<le> length nodes \<and>
     (distinct (map fst nodes) \<longrightarrow> distinct (map sp_node_id stages))"

lemma stage_loop_complete:
  assumes "nodes \<noteq> []" and "length nodes \<le> 2 ^ 24" and "unat (mm_layer_count md) \<le> 2 ^ 24"
    and "stage_loop md (layers_per_node (mm_layer_count md) (length nodes)) 0 0 nodes = (stages, final)"
  shows "complete_stages md nodes stages" and "final = mm_layer_count md"
proof -
  let ?n = "length nodes" and ?p = "unat (layers_per_node (mm_layer_count md) (length nodes))"
  have n: "1 \<le> ?n" using assms(1) by (cases nodes) auto
  note enough = layers_per_node_enough [OF n assms(2,3)]
  have "unat (mm_layer_count md) + ?p < 2 ^ 32"
    using enough(2) assms(3) by simp
  note cover = stage_loop_cover [OF assms(4) this]
  have "unat final = unat (mm_layer_count md)"
    using cover enough(1) by simp
  then show final: "final = mm_layer_count md"
    by (simp only: word_unat_eq_iff)
  with cover stage_loop_stages [OF assms(4)] show "complete_stages md nodes stages"
    by (simp add: complete_stages_def)
qed

lemma pipeline_stages_complete:
  assumes "nodes \<noteq> []" and "length nodes \<le> 2 ^ 24" and "unat (mm_layer_count md) \<le> 2 ^ 24"
  shows "complete_stages md nodes (pipeline_stages md nodes)"
  unfolding pipeline_stages_def
  by (metis stage_loop_complete(1) [OF assms] prod.collapse)

text \<open>With GPU nodes present the hybrid plan is the pipeline over them: nothing is left for a CPU.\<close>

lemma hybrid_stages_gpu:
  assumes "filter (\<lambda>(_, node). has_gpu node) nodes \<noteq> []" and "length nodes \<le> 2 ^ 24"
    and "unat (mm_layer_count md) \<le> 2 ^ 24"
  shows "hybrid_stages md nodes = pipeline_stages md (filter (\<lambda>(_, node). has_gpu node) nodes)"
proof -
  let ?gpu = "filter (\<lambda>(_, node). has_gpu node) nodes"
  obtain stages final where loop:
    "stage_loop md (layers_per_node (mm_layer_count md) (length ?gpu)) 0 0 ?gpu = (stages, final)" by force
  have "length ?gpu \<le> 2 ^ 24"
    using assms(2) length_filter_le order_trans by blast
  then have "final = mm_layer_count md"
    using stage_loop_complete(2) [OF assms(1) _ assms(3) loop] by blast
  with loop assms(1) show ?thesis
    by (simp add: hybrid_stages_def pipeline_stages_def cpu_offload_stage_def Let_def)
qed

lemma complete_stages_mono:
  assumes "complete_stages md (filter P nodes) stages"
  shows "complete_stages md nodes stages"
  using assms unfolding complete_stages_def
  by (auto intro: stage_on_mono dest: distinct_map_filter order_trans [OF _ length_filter_le])

lemma hybrid_stages_complete:
  assumes "nodes \<noteq> []" and "length nodes \<le> 2 ^ 24" and "unat (mm_layer_count md) \<le> 2 ^ 24"
  shows "complete_stages md nodes (hybrid_stages md nodes)"
proof (cases "filter (\<lambda>(_, node). has_gpu node) nodes = []")
  case True
  with pipeline_stages_complete [OF assms] show ?thesis
    by (simp add: hybrid_stages_def)
next
  case False
  have "length (filter (\<lambda>(_, node). has_gpu node) nodes) \<le> 2 ^ 24"
    using assms(2) length_filter_le order_trans by blast
  note complete_stages_mono [OF pipeline_stages_complete [OF False this assms(3)]]
  then show ?thesis
    by (simp only: hybrid_stages_gpu [OF False assms(2,3)])
qed

lemma partition_model_complete:
  assumes "length (lc_nodes cluster) \<le> 2 ^ 24"
    and "unat (mm_layer_count (pr_model_metadata request)) \<le> 2 ^ 24"
    and "partition_model request cluster strategy = Ok stages"
  shows "complete_stages (pr_model_metadata request) (available_nodes cluster) stages"
proof -
  have len: "length (available_nodes cluster) \<le> 2 ^ 24"
    using assms(1) length_filter_le order_trans unfolding available_nodes_def by blast
  from assms(3) have ne: "available_nodes cluster \<noteq> []"
    by (auto simp: partition_model_def Let_def split: if_splits)
  show ?thesis
    using assms(3) ne pipeline_stages_complete [OF ne len assms(2)] hybrid_stages_complete [OF ne len assms(2)]
    by (cases strategy) (simp_all add: partition_model_def)
qed

lemma create_plan_Ok:
  assumes "create_plan request cluster = Ok plan"
  shows "partition_model request cluster (ep_strategy plan) = Ok (ep_stages plan)"
    and "select_strategy request cluster = Ok (ep_strategy plan)"
    and "ep_kv_cache plan = plan_kv_cache request cluster"
    and "ep_model_id plan = pr_model_id request"
  using assms by (auto simp: create_plan_def Let_def)

lemma div_u32_total: "b \<noteq> 0 \<Longrightarrow> div_u32 a b = Ok (a div b)"
  by (simp add: div_u32_def)

lemma averages_total:
  assumes "length (ct_links topology) < 2 ^ 32"
  shows "\<exists>b. calculate_average_bandwidth topology = Ok b" and "\<exists>l. calculate_average_latency topology = Ok l"
proof -
  have "ct_links topology \<noteq> [] \<Longrightarrow> (word_of_nat (length (ct_links topology)) :: u32) \<noteq> 0"
    using assms unat_of_nat_exact [where 'a = 32, of "length (ct_links topology)"]
    by (auto simp: unat_eq_0 [symmetric])
  then show "\<exists>b. calculate_average_bandwidth topology = Ok b" "\<exists>l. calculate_average_latency topology = Ok l"
    by (auto simp: calculate_average_bandwidth_def calculate_average_latency_def div_u32_total)
qed

lemma select_strategy_total:
  assumes "length (ct_links (lc_topology cluster)) < 2 ^ 32"
  shows "\<exists>strategy. select_strategy request cluster = Ok strategy"
  using averages_total [OF assms]
  by (cases "pr_preferred_strategy request") (auto simp: select_strategy_def)

text \<open>Every stage of a plan is placed, whatever the number of layers.\<close>

lemma available_nodes_iff: "(n, node) \<in> set (available_nodes cluster) \<longleftrightarrow> (n, node) \<in> set (lc_nodes cluster) \<and> healthy node"
  by (simp add: available_nodes_def)

lemma available_nodes_distinct: "hm_ok (lc_nodes cluster) \<Longrightarrow> distinct (map fst (available_nodes cluster))"
  by (simp add: available_nodes_def hm_ok_def distinct_map_filter)

definition placed_stages ::
  "model_metadata \<Rightarrow> (node_id \<times> physical_node) list \<Rightarrow> stage_plan list \<Rightarrow> bool" where
  "placed_stages md nodes stages \<longleftrightarrow>
     (\<forall>s \<in> set stages. stage_on md nodes s) \<and> distinct (map sp_node_id stages)"

lemma pipeline_stages_placed: "distinct (map fst nodes) \<Longrightarrow> placed_stages md nodes (pipeline_stages md nodes)"
  unfolding pipeline_stages_def placed_stages_def
  by (metis stage_loop_stages(1,3) prod.collapse)

lemma cpu_offload_stage_placed:
  assumes "distinct (map fst nodes)" and "gpu = filter (\<lambda>(_, node). has_gpu node) nodes"
    and "placed_stages md gpu stages" and "set (map sp_node_id stages) \<subseteq> fst ` set gpu"
  shows "placed_stages md nodes (cpu_offload_stage md nodes stages current)"
proof -
  have old: "\<forall>s \<in> set stages. stage_on md nodes s" "distinct (map sp_node_id stages)"
    using assms(2,3) by (auto simp: placed_stages_def intro: stage_on_mono)
  show ?thesis
  proof (cases "filter (\<lambda>(_, node). \<not> has_gpu node) nodes")
    case Nil
    with old show ?thesis by (simp add: cpu_offload_stage_def placed_stages_def)
  next
    case (Cons nd rest)
    obtain n node where nd: "nd = (n, node)" by force
    have "nd \<in> set (filter (\<lambda>(_, node). \<not> has_gpu node) nodes)" by (simp add: Cons)
    then have mem: "(n, node) \<in> set nodes" and cpu: "\<not> has_gpu node" by (auto simp: nd)
    have "n \<notin> fst ` set gpu"
      using assms(1,2) mem cpu eq_key_imp_eq_value [OF assms(1)] by fastforce
    then have "n \<notin> set (map sp_node_id stages)" using assms(4) by blast
    moreover have "select_device node = ''cpu:0''"
      using cpu by (simp add: select_device_def has_gpu_def)
    ultimately show ?thesis
      using old mem by (auto simp: cpu_offload_stage_def placed_stages_def Cons nd Let_def
          stage_on_def not_le intro!: bexI [of _ "(n, node)"])
  qed
qed

lemma hybrid_stages_placed:
  assumes "distinct (map fst nodes)"
  shows "placed_stages md nodes (hybrid_stages md nodes)"
proof (cases "filter (\<lambda>(_, node). has_gpu node) nodes = []")
  case True
  with pipeline_stages_placed [OF assms] show ?thesis by (simp add: hybrid_stages_def)
next
  case False
  define gpu where "gpu = filter (\<lambda>(_, node). has_gpu node) nodes"
  obtain stages final where loop:
    "stage_loop md (layers_per_node (mm_layer_count md) (length gpu)) 0 0 gpu = (stages, final)" by force
  have "distinct (map fst gpu)"
    using assms by (simp add: gpu_def distinct_map_filter)
  then have "placed_stages md gpu stages"
    using stage_loop_stages(1,3) [OF loop] by (simp add: placed_stages_def)
  from cpu_offload_stage_placed [OF assms gpu_def this stage_loop_stages(2) [OF loop], of final]
  show ?thesis
    using False loop by (simp add: hybrid_stages_def gpu_def [symmetric] Let_def)
qed

lemma partition_model_placed:
  assumes "hm_ok (lc_nodes cluster)" and "partition_model request cluster strategy = Ok stages"
  shows "placed_stages (pr_model_metadata request) (available_nodes cluster) stages"
  using assms(2) pipeline_stages_placed [OF available_nodes_distinct [OF assms(1)]]
    hybrid_stages_placed [OF available_nodes_distinct [OF assms(1)]]
  by (cases strategy) (auto simp: partition_model_def Let_def split: if_splits)

lemma create_plan_total:
  assumes "length (ct_links (lc_topology cluster)) < 2 ^ 32"
  shows "create_plan request cluster = Err NoAvailableNodes \<and> available_nodes cluster = []
    \<or> (\<exists>plan. create_plan request cluster = Ok plan) \<and> available_nodes cluster \<noteq> []"
  using select_strategy_total [OF assms, of request]
  by (auto simp: create_plan_def partition_model_def Let_def)

lemma layers_per_node_2_24:
  "layers_per_node 16777217 (Suc 0) = 16777216"
proof -
  have "fl_round binary32 16777217 = Fin 16777216" "fl_round binary32 1 = Fin 1"
    "fl_round binary32 16777216 = Fin 16777216"
    by code_simp+
  then show ?thesis
    by (simp add: layers_per_node_def f32_of_def fl_of_nat_def)
qed

section \<open>Properties of the planner\<close>

definition sample_request :: "u32 \<Rightarrow> u32 \<Rightarrow> planning_request" where
  "sample_request layers context_length = \<lparr>pr_model_id = ''llama-70b'',
     pr_model_metadata = \<lparr>mm_parameter_count = 70000000000, mm_layer_count = layers,
       mm_architecture = ''llama'', mm_quantization = ''q4'',
       mm_estimated_weight_bytes = 42949672960\<rparr>,
     pr_context_length = context_length, pr_batch_size = 1, pr_preferred_strategy = None\<rparr>"

definition sample_planning_cluster :: logical_cluster where
  "sample_planning_cluster = sample_cluster
     [(1, sample_node 1 Healthy [sample_gpu ''0'' 25769803776]),
      (2, sample_node 2 Suspect []),
      (3, sample_node 3 Healthy [])] []"

lemma sample_planning_cluster_simps [simp]:
  "available_nodes sample_planning_cluster =
     [(1, sample_node 1 Healthy [sample_gpu ''0'' 25769803776]), (3, sample_node 3 Healthy [])]"
  "length (lc_nodes sample_planning_cluster) = 3"
  "hm_ok (lc_nodes sample_planning_cluster)"
  "ct_links (lc_topology sample_planning_cluster) = []"
  "lr_device_memory_bytes (lc_logical_resources sample_planning_cluster) = 25769803776"
  by (simp_all add: sample_planning_cluster_def available_nodes_def hm_ok_def)

lemma sample_request_simps [simp]:
  "mm_layer_count (pr_model_metadata (sample_request layers context_length)) = layers"
  "pr_context_length (sample_request layers context_length) = context_length"
  "pr_preferred_strategy (sample_request layers context_length) = None"
  by (simp_all add: sample_request_def)

lemma sample_plan: "\<exists>plan. create_plan (sample_request layers context_length) sample_planning_cluster = Ok plan"
  using create_plan_total [of sample_planning_cluster "sample_request layers context_length"] by simp

text \<open>
  C1.  A plan covers the whole model: for up to \<open>2 ^ 24\<close> layers and nodes,
  whatever the strategy, the layer lists of the stages, concatenated in stage
  order, are exactly the layers \<open>0\<close> to \<open>layer_count - 1\<close> in order, so every
  layer is on exactly one stage; and there are at most as many stages as
  healthy nodes.
\<close>

theorem plan_covers_every_layer:
  assumes "length (lc_nodes cluster) \<le> 2 ^ 24"
    and "unat (mm_layer_count (pr_model_metadata request)) \<le> 2 ^ 24"
    and "create_plan request cluster = Ok plan"
  shows "concat (map sp_layers (ep_stages plan)) = u32_range 0 (mm_layer_count (pr_model_metadata request))
    \<and> distinct (concat (map sp_layers (ep_stages plan)))
    \<and> set (concat (map sp_layers (ep_stages plan))) = {0..<mm_layer_count (pr_model_metadata request)}
    \<and> length (ep_stages plan) \<le> length (available_nodes cluster)"
  using partition_model_complete [OF assms(1,2) create_plan_Ok(1) [OF assms(3)]]
  by (simp_all add: complete_stages_def u32_range_distinct u32_range_set)

theorem plan_covers_every_layer_witness:
  "\<exists>plan. create_plan (sample_request 80 4096) sample_planning_cluster = Ok plan \<and>
     concat (map sp_layers (ep_stages plan)) = u32_range 0 80 \<and> length (ep_stages plan) \<le> 2"
proof -
  obtain plan where plan: "create_plan (sample_request 80 4096) sample_planning_cluster = Ok plan"
    using sample_plan by blast
  note plan_covers_every_layer [OF _ _ plan]
  with plan show ?thesis by simp
qed

text \<open>
  C33.  Every stage of a plan is runnable where it is placed, whatever the
  number of layers: its node is a healthy node of the cluster, its device is
  the one the planner selects on that node (the first GPU, or the CPU), it has
  at least one layer and its weight is the estimate for its layers; and no
  node gets two stages.
\<close>

theorem plan_stages_placed:
  assumes "hm_ok (lc_nodes cluster)" and "create_plan request cluster = Ok plan"
  shows "distinct (map sp_node_id (ep_stages plan)) \<and>
    (\<forall>s \<in> set (ep_stages plan).
      sp_layers s \<noteq> [] \<and>
      sp_weight_bytes s = estimate_stage_weight (sp_layers s)
        (mm_estimated_weight_bytes (pr_model_metadata request)) (mm_layer_count (pr_model_metadata request)) \<and>
      (\<exists>node. hm_get (lc_nodes cluster) (sp_node_id s) = Some node \<and> pn_status node = Healthy \<and>
        sp_device s = select_device node))"
  using partition_model_placed [OF assms(1) create_plan_Ok(1) [OF assms(2)]]
  by (auto simp: placed_stages_def stage_on_def available_nodes_iff healthy_def hm_get_mem [OF assms(1)]
      dest!: bspec)

theorem plan_stages_placed_witness:
  "\<exists>plan. create_plan (sample_request 80 4096) sample_planning_cluster = Ok plan \<and>
     (\<forall>s \<in> set (ep_stages plan). sp_layers s \<noteq> [])"
proof -
  obtain plan where plan: "create_plan (sample_request 80 4096) sample_planning_cluster = Ok plan"
    using sample_plan by blast
  with plan_stages_placed [OF _ plan] show ?thesis by auto
qed

text \<open>
  Above \<open>2 ^ 24\<close> layers the computation of the stage size in \<open>f32\<close> is
  wrong: on one healthy node, a model of \<open>2 ^ 24 + 1\<close> layers gets a plan whose
  stages end at layer \<open>2 ^ 24 - 1\<close>; the last layer is on no stage.
\<close>

theorem plan_loses_last_layer:
  assumes "available_nodes cluster = [(n, node)]"
    and "mm_layer_count (pr_model_metadata request) = 16777217"
    and "create_plan request cluster = Ok plan" and "ep_strategy plan = Pipeline"
  shows "concat (map sp_layers (ep_stages plan)) = u32_range 0 16777216
    \<and> 16777216 \<notin> set (concat (map sp_layers (ep_stages plan)))"
proof -
  let ?md = "pr_model_metadata request"
  have "ep_stages plan = pipeline_stages ?md [(n, node)]"
    using create_plan_Ok(1) [OF assms(3)] assms(1,4) by (simp add: partition_model_def)
  also have "\<dots> = fst (stage_loop ?md 16777216 0 0 [(n, node)])"
    by (simp add: pipeline_stages_def assms(2) layers_per_node_2_24)
  finally have "ep_stages plan = fst (stage_loop ?md 16777216 0 0 [(n, node)])" .
  then have all: "concat (map sp_layers (ep_stages plan)) = u32_range 0 16777216"
    using assms(2) by (simp add: Let_def min_def)
  have "(16777216 :: u32) \<notin> {0..<16777216}" by simp
  then show ?thesis
    unfolding all u32_range_set by simp
qed

theorem plan_loses_last_layer_witness:
  "\<exists>plan. create_plan ((sample_request 16777217 4096)\<lparr>pr_preferred_strategy := Some Pipeline\<rparr>)
       (sample_cluster [(3, sample_node 3 Healthy [])] []) = Ok plan \<and>
     16777216 \<notin> set (concat (map sp_layers (ep_stages plan)))"
proof -
  let ?request = "(sample_request 16777217 4096)\<lparr>pr_preferred_strategy := Some Pipeline\<rparr>"
  let ?cluster = "sample_cluster [(3, sample_node 3 Healthy [])] []"
  have nodes: "available_nodes ?cluster = [(3, sample_node 3 Healthy [])]"
    by (simp add: available_nodes_def)
  then obtain plan where plan: "create_plan ?request ?cluster = Ok plan"
    using create_plan_total [of ?cluster ?request] by auto
  have "ep_strategy plan = Pipeline"
    using create_plan_Ok(2) [OF plan] by (simp add: select_strategy_def)
  moreover have "mm_layer_count (pr_model_metadata ?request) = 16777217"
    by (simp add: sample_request_def)
  ultimately show ?thesis
    using plan_loses_last_layer [OF nodes _ plan] plan by blast
qed

text \<open>
  When planning fails: with fewer than \<open>2 ^ 32\<close> measured links it never
  panics and its only error is \<open>NoAvailableNodes\<close>, returned exactly when the
  cluster has no healthy node.
\<close>

theorem plan_fails_iff_no_healthy_node:
  assumes "length (ct_links (lc_topology cluster)) < 2 ^ 32"
  shows "\<not> is_panic (create_plan request cluster) \<and>
    (create_plan request cluster = Err e \<longleftrightarrow>
      e = NoAvailableNodes \<and> (\<nexists>n node. (n, node) \<in> set (lc_nodes cluster) \<and> pn_status node = Healthy))"
proof -
  have "available_nodes cluster = [] \<longleftrightarrow> (\<nexists>n node. (n, node) \<in> set (lc_nodes cluster) \<and> pn_status node = Healthy)"
    by (auto simp: available_nodes_def healthy_def filter_empty_conv)
  with create_plan_total [OF assms, of request]
  show ?thesis by auto
qed

theorem plan_fails_iff_no_healthy_node_witness:
  "create_plan (sample_request 80 4096) (sample_cluster [(2, sample_node 2 Draining [])] []) = Err NoAvailableNodes"
  using plan_fails_iff_no_healthy_node [of "sample_cluster [(2, sample_node 2 Draining [])] []"
      "sample_request 80 4096" NoAvailableNodes] by simp

text \<open>
  The KV-cache reservation of a plan is exact while it fits: 16384 bytes
  per token and layer whenever tokens times layers is below \<open>2 ^ 50\<close>, without
  wrap-around; and the policy spills to host memory exactly when the cluster's
  device memory is smaller than the reservation.
\<close>

theorem kv_cache_reservation:
  assumes "create_plan request cluster = Ok plan"
    and "unat (pr_context_length request) * unat (mm_layer_count (pr_model_metadata request)) < 2 ^ 50"
  shows "unat (kv_reserved_bytes (ep_kv_cache plan)) =
      16384 * unat (pr_context_length request) * unat (mm_layer_count (pr_model_metadata request)) \<and>
    kv_policy (ep_kv_cache plan) =
      (if unat (lr_device_memory_bytes (lc_logical_resources cluster)) <
          16384 * unat (pr_context_length request) * unat (mm_layer_count (pr_model_metadata request))
       then StageLocalWithHostSpill else StageLocal)"
proof -
  let ?c = "unat (pr_context_length request)" and ?l = "unat (mm_layer_count (pr_model_metadata request))"
  have c: "?c < 2 ^ 32" using unat_bound [of "pr_context_length request"] by simp
  have u: "unat (ucast (pr_context_length request) :: u64) = ?c"
    "unat (ucast (mm_layer_count (pr_model_metadata request)) :: u64) = ?l"
    by (simp_all add: unat_ucast_up)
  have first: "unat (16384 * ucast (pr_context_length request) :: u64) = 16384 * ?c"
    using c by (subst unat_times_exact) (simp_all add: u)
  have exact: "unat (16384 * ucast (pr_context_length request)
      * ucast (mm_layer_count (pr_model_metadata request)) :: u64) = 16384 * ?c * ?l"
    using assms(2) by (subst unat_times_exact) (simp_all only: u first, simp add: mult.assoc)
  note kv = create_plan_Ok(3) [OF assms(1)]
  have "unat (kv_reserved_bytes (ep_kv_cache plan)) = 16384 * ?c * ?l"
    using exact by (simp add: kv Let_def plan_kv_cache_def)
  moreover have "kv_policy (ep_kv_cache plan) =
      (if unat (lr_device_memory_bytes (lc_logical_resources cluster)) < 16384 * ?c * ?l
       then StageLocalWithHostSpill else StageLocal)"
    using exact by (simp add: kv Let_def plan_kv_cache_def word_less_nat_alt)
  ultimately show ?thesis by blast
qed

theorem kv_cache_reservation_witness:
  "\<exists>plan. create_plan (sample_request 80 32768) sample_planning_cluster = Ok plan \<and>
     unat (kv_reserved_bytes (ep_kv_cache plan)) = 42949672960 \<and>
     kv_policy (ep_kv_cache plan) = StageLocalWithHostSpill"
proof -
  obtain plan where plan: "create_plan (sample_request 80 32768) sample_planning_cluster = Ok plan"
    using sample_plan by blast
  from kv_cache_reservation [OF plan] plan show ?thesis by simp
qed

text \<open>
  The strategy of a plan: the request's preference when it has one;
  otherwise decided from the average bandwidth and latency of the measured
  links, which are the exact integer averages whenever the two sums and the
  number of links fit in 32 bits.
\<close>

theorem strategy_selection:
  assumes "ct_links (lc_topology cluster) = links" and "links \<noteq> []"
    and "length links < 2 ^ 32" and "pr_preferred_strategy request = preferred"
    and "(\<Sum>link\<leftarrow>links. unat (lm_bandwidth_mbps link)) < 2 ^ 32"
    and "(\<Sum>link\<leftarrow>links. unat (lm_latency_us link)) < 2 ^ 32"
  shows "\<exists>avg_bandwidth avg_latency.
      unat avg_bandwidth = (\<Sum>link\<leftarrow>links. unat (lm_bandwidth_mbps link)) div length links \<and>
      unat avg_latency = (\<Sum>link\<leftarrow>links. unat (lm_latency_us link)) div length links \<and>
      select_strategy request cluster =
        Ok (case preferred of Some strategy \<Rightarrow> strategy
            | None \<Rightarrow> strategy_for_links avg_bandwidth avg_latency)"
proof -
  have len: "unat (word_of_nat (length links) :: u32) = length links"
    using assms(3) by (intro unat_of_nat_exact) simp
  then have ne: "(word_of_nat (length links) :: u32) \<noteq> 0"
    using assms(2) by (metis length_0_conv unat_0)
  note avg = unat_sum_list_exact [where 'a = 32]
  let ?b = "sum_list (map lm_bandwidth_mbps links) div word_of_nat (length links)"
    and ?l = "sum_list (map lm_latency_us links) div word_of_nat (length links)"
  have "unat ?b = (\<Sum>link\<leftarrow>links. unat (lm_bandwidth_mbps link)) div length links"
    "unat ?l = (\<Sum>link\<leftarrow>links. unat (lm_latency_us link)) div length links"
    using assms(5,6) by (simp_all add: unat_div_distrib len avg)
  moreover have "select_strategy request cluster =
      Ok (case preferred of Some strategy \<Rightarrow> strategy | None \<Rightarrow> strategy_for_links ?b ?l)"
    using assms(1,2,4) ne by (auto simp: select_strategy_def calculate_average_bandwidth_def
        calculate_average_latency_def div_u32_total split: option.split)
  ultimately show ?thesis by blast
qed

definition sample_link :: "u32 \<Rightarrow> u32 \<Rightarrow> link_measurement" where
  "sample_link bandwidth latency = \<lparr>lm_from = 1, lm_to = 3, lm_transport = ''quic'',
     lm_latency_us = latency, lm_bandwidth_mbps = bandwidth, lm_jitter_us = 0,
     lm_packet_loss_percent = Fin 0\<rparr>"

lemma sample_link_simps [simp]:
  "lm_bandwidth_mbps (sample_link b l) = b" "lm_latency_us (sample_link b l) = l"
  by (simp_all add: sample_link_def)

theorem strategy_selection_witness:
  "\<exists>avg_bandwidth avg_latency. unat avg_bandwidth = 5000 \<and> unat avg_latency = 250 \<and>
     select_strategy (sample_request 80 4096)
       (sample_cluster [] [sample_link 4000 200, sample_link 6000 300]) =
     Ok (strategy_for_links avg_bandwidth avg_latency)"
  using strategy_selection [of "sample_cluster [] [sample_link 4000 200, sample_link 6000 300]"
      "[sample_link 4000 200, sample_link 6000 300]" "sample_request 80 4096" None]
  by (simp flip: numeral_2_eq_2)

end
