(* ===== verification/Scheduler.thy ===== *)
theory Scheduler
  imports Samples "HOL-Library.Multiset"
begin

text \<open>
  The scheduler, \<open>services/scheduler/src/lib.rs\<close>: admission, node selection by
  score, reservation of a fixed share of each selected node, release and
  statistics.  Each operation maps the scheduler's state to an outcome and the
  state it leaves, on errors too: \<open>reserve_resources\<close> stops at the first node
  without room and keeps what it reserved before.

  The cluster of a scheduler never changes, so every session is placed on the
  same nodes.  From this follows the invariant \<open>scheduler_inv\<close>: all selected
  nodes carry the same load \<open>k \<le> 3\<close>, which is at least the number of stored
  sessions.  It makes a rejected request leave no trace, keeps every release
  from underflowing, and shows what is lost when a session id is scheduled
  twice.
\<close>

section \<open>Requests, sessions and state\<close>

datatype request_priority = Low | Normal | High | Interactive

fun priority_value :: "request_priority \<Rightarrow> nat" where
  "priority_value Low = 0"
| "priority_value Normal = 1"
| "priority_value High = 2"
| "priority_value Interactive = 3"

instantiation request_priority :: linorder
begin

definition less_eq_request_priority :: "request_priority \<Rightarrow> request_priority \<Rightarrow> bool" where
  "less_eq_request_priority a b \<longleftrightarrow> priority_value a \<le> priority_value b"

definition less_request_priority :: "request_priority \<Rightarrow> request_priority \<Rightarrow> bool" where
  "less_request_priority a b \<longleftrightarrow> priority_value a < priority_value b"

instance
proof
  fix a b :: request_priority
  assume "a \<le> b" "b \<le> a"
  then show "a = b"
    by (cases a; cases b) (simp_all add: less_eq_request_priority_def)
qed (auto simp: less_eq_request_priority_def less_request_priority_def)

end

record schedule_request =
  rq_session_id :: session_id
  rq_model_id :: model_id
  rq_context_length :: u32
  rq_batch_size :: u32
  rq_priority :: request_priority

record resource_allocation =
  ra_node_id :: node_id
  ra_cpu_percent :: f32
  ra_ram_bytes :: u64
  ra_vram_bytes :: u64

record scheduled_session =
  ss_session_id :: session_id
  ss_model_id :: model_id
  ss_assigned_nodes :: "node_id list"
  ss_allocated_resources :: "(node_id, resource_allocation) hash_map"
  ss_priority :: request_priority
  ss_scheduled_at :: datetime
  ss_estimated_tokens_per_second :: f32

record node_allocation =
  na_cpu_percent :: f32
  na_ram_bytes :: u64
  na_vram_bytes :: u64
  na_active_sessions :: "session_id list"

record scheduler_state =
  sc_cluster :: logical_cluster
  sc_sessions :: "(session_id, scheduled_session) hash_map"
  sc_node_allocations :: "(node_id, node_allocation) hash_map"

record scheduler_stats =
  st_active_sessions :: nat
  st_total_allocated_cpu :: f32
  st_total_allocated_ram :: u64
  st_total_allocated_vram :: u64

datatype schedule_error =
    AdmissionRejected
  | NoSchedulableNodes
  | InsufficientResources node_id
  | SessionNotFound
  | SchedulerInternal string

definition scheduler_new :: "logical_cluster \<Rightarrow> scheduler_state" where
  "scheduler_new cluster =
     \<lparr>sc_cluster = cluster, sc_sessions = hm_new, sc_node_allocations = hm_new\<rparr>"

section \<open>Admission and selection\<close>

definition check_admission :: "schedule_request \<Rightarrow> logical_cluster \<Rightarrow> bool" where
  "check_admission request cluster =
     (let total_ram = lr_host_memory_bytes (lc_logical_resources cluster);
          total_vram = lr_device_memory_bytes (lc_logical_resources cluster);
          required_ram = ucast (rq_context_length request) * 1024;
          required_vram = ucast (rq_context_length request) * 512
      in required_ram < total_ram \<and> required_vram < total_vram)"

definition gib :: f32 where
  "gib = Fin (1024 * 1024 * 1024)"

definition calculate_node_score :: "physical_node \<Rightarrow> f32" where
  "calculate_node_score node =
     (let score = fl_add binary32 (Fin 0)
            (fl_mul binary32 (f32_of (cpu_cores (nc_cpu (pn_capabilities node)))) (Fin 10));
          available_ram = f32_of (mem_available_bytes (nc_memory (pn_capabilities node)));
          score = fl_add binary32 score (fl_mul binary32 (fl_div binary32 available_ram gib) (Fin 5));
          score = foldl (\<lambda>score gpu. fl_add binary32 score
              (fl_mul binary32 (fl_div binary32 (f32_of (gpu_vram_bytes gpu)) gib) (Fin 20)))
            score (nc_gpus (pn_capabilities node))
      in if fl_less (Fin 80) (nr_cpu_usage_percent (pn_resources node))
         then fl_mul binary32 score (Fin (1 / 2)) else score)"

text \<open>
  The stable sort by descending score.  \<open>partial_cmp\<close> has no answer on \<open>NaN\<close>
  and is unwrapped: sorting at least two scores with a \<open>NaN\<close> among them panics.
\<close>

fun insert_score :: "node_id \<times> f32 \<Rightarrow> (node_id \<times> f32) list \<Rightarrow> (node_id \<times> f32) list" where
  "insert_score x [] = [x]"
| "insert_score x (y # ys) =
     (if fl_less (snd y) (snd x) then x # y # ys else y # insert_score x ys)"

definition sort_scores :: "(node_id \<times> f32) list \<Rightarrow> ('e, (node_id \<times> f32) list) outcome" where
  "sort_scores scores =
     (if 2 \<le> length scores \<and> list_ex (\<lambda>s. snd s = NaN) scores then Panic Unwrap_On_None
      else Ok (foldl (\<lambda>sorted s. insert_score s sorted) [] scores))"

definition node_scores :: "logical_cluster \<Rightarrow> (node_id \<times> f32) list" where
  "node_scores cluster =
     map (\<lambda>(n, node). (n, calculate_node_score node))
       (filter (\<lambda>(_, node). healthy node) (lc_nodes cluster))"

definition select_nodes :: "logical_cluster \<Rightarrow> (schedule_error, node_id list) outcome" where
  "select_nodes cluster =
     bind_outcome (sort_scores (node_scores cluster)) (\<lambda>sorted. Ok (map fst (take 3 sorted)))"

section \<open>Reservation and release\<close>

definition standard_allocation :: "node_id \<Rightarrow> resource_allocation" where
  "standard_allocation n = \<lparr>ra_node_id = n, ra_cpu_percent = Fin 30,
     ra_ram_bytes = 4 * 1024 * 1024 * 1024, ra_vram_bytes = 2 * 1024 * 1024 * 1024\<rparr>"

definition calculate_allocations :: "node_id list \<Rightarrow> (node_id, resource_allocation) hash_map" where
  "calculate_allocations nodes = foldl (\<lambda>m n. hm_insert n (standard_allocation n) m) hm_new nodes"

definition empty_allocation :: node_allocation where
  "empty_allocation = \<lparr>na_cpu_percent = Fin 0, na_ram_bytes = 0, na_vram_bytes = 0,
     na_active_sessions = []\<rparr>"

definition add_allocation :: "session_id \<Rightarrow> resource_allocation \<Rightarrow> node_allocation \<Rightarrow> node_allocation" where
  "add_allocation sid allocation a = \<lparr>
     na_cpu_percent = fl_add binary32 (na_cpu_percent a) (ra_cpu_percent allocation),
     na_ram_bytes = na_ram_bytes a + ra_ram_bytes allocation,
     na_vram_bytes = na_vram_bytes a + ra_vram_bytes allocation,
     na_active_sessions = na_active_sessions a @ [sid]\<rparr>"

text \<open>
  The loop of \<open>reserve_resources\<close>, over the allocations in iteration order.
  The entry is created before the limit is checked.
\<close>

fun reserve_resources ::
  "session_id \<Rightarrow> (node_id, resource_allocation) hash_map \<Rightarrow> (node_id, node_allocation) hash_map \<Rightarrow>
   (schedule_error, unit) outcome \<times> (node_id, node_allocation) hash_map" where
  "reserve_resources sid [] allocs = (Ok (), allocs)"
| "reserve_resources sid ((n, allocation) # rest) allocs =
     (let allocs = hm_or_insert n empty_allocation allocs;
          cpu = (case hm_get allocs n of Some a \<Rightarrow> na_cpu_percent a | None \<Rightarrow> Fin 0)
      in if fl_less (Fin 100) (fl_add binary32 cpu (ra_cpu_percent allocation))
         then (Err (InsufficientResources n), allocs)
         else reserve_resources sid rest (hm_modify n (add_allocation sid allocation) allocs))"

definition estimate_throughput :: "node_id list \<Rightarrow> logical_cluster \<Rightarrow> f32" where
  "estimate_throughput nodes cluster =
     (let total_score = foldl (\<lambda>total n.
            case hm_get (lc_nodes cluster) n of
              None \<Rightarrow> total
            | Some node \<Rightarrow>
                foldl (\<lambda>total gpu. fl_add binary32 total
                    (fl_mul binary32 (fl_div binary32 (f32_of (gpu_vram_bytes gpu)) gib) (Fin 2)))
                  (fl_add binary32 total (f32_of (cpu_cores (nc_cpu (pn_capabilities node)))))
                  (nc_gpus (pn_capabilities node))) (Fin 0) nodes
      in fl_min (fl_mul binary32 total_score (Fin (1 / 2))) (Fin 50))"

text \<open>
  \<open>schedule\<close>.  \<open>rehash\<close> gives the iteration order of the freshly built map of
  allocations, which depends on the table's random state; \<open>now\<close> is the clock.
\<close>

definition schedule ::
  "((node_id, resource_allocation) hash_map \<Rightarrow> (node_id, resource_allocation) hash_map) \<Rightarrow> datetime \<Rightarrow>
   schedule_request \<Rightarrow> scheduler_state \<Rightarrow>
   (schedule_error, scheduled_session) outcome \<times> scheduler_state" where
  "schedule rehash now request st =
     (let cluster = sc_cluster st
      in if \<not> check_admission request cluster then (Err AdmissionRejected, st)
         else case select_nodes cluster of
           Panic p \<Rightarrow> (Panic p, st)
         | Err e \<Rightarrow> (Err e, st)
         | Ok selected \<Rightarrow>
             if selected = [] then (Err NoSchedulableNodes, st)
             else
               let allocations = rehash (calculate_allocations selected);
                   (reserved, allocs) =
                     reserve_resources (rq_session_id request) allocations (sc_node_allocations st);
                   st = st\<lparr>sc_node_allocations := allocs\<rparr>
               in case reserved of
                    Panic p \<Rightarrow> (Panic p, st)
                  | Err e \<Rightarrow> (Err e, st)
                  | Ok _ \<Rightarrow>
                      let session = \<lparr>ss_session_id = rq_session_id request,
                            ss_model_id = rq_model_id request,
                            ss_assigned_nodes = selected,
                            ss_allocated_resources = allocations,
                            ss_priority = rq_priority request,
                            ss_scheduled_at = now,
                            ss_estimated_tokens_per_second = estimate_throughput selected cluster\<rparr>
                      in (Ok session, st\<lparr>sc_sessions :=
                            hm_insert (rq_session_id request) session (sc_sessions st)\<rparr>))"

definition sub_allocation :: "session_id \<Rightarrow> resource_allocation \<Rightarrow> node_allocation \<Rightarrow> node_allocation" where
  "sub_allocation sid allocation a = \<lparr>
     na_cpu_percent = fl_sub binary32 (na_cpu_percent a) (ra_cpu_percent allocation),
     na_ram_bytes = na_ram_bytes a - ra_ram_bytes allocation,
     na_vram_bytes = na_vram_bytes a - ra_vram_bytes allocation,
     na_active_sessions = filter (\<lambda>s. s \<noteq> sid) (na_active_sessions a)\<rparr>"

definition release_allocations ::
  "session_id \<Rightarrow> (node_id, resource_allocation) hash_map \<Rightarrow> (node_id, node_allocation) hash_map \<Rightarrow>
   (node_id, node_allocation) hash_map" where
  "release_allocations sid allocations allocs =
     foldl (\<lambda>allocs (n, allocation). hm_modify n (sub_allocation sid allocation) allocs) allocs allocations"

definition release_session ::
  "session_id \<Rightarrow> scheduler_state \<Rightarrow> (schedule_error, unit) outcome \<times> scheduler_state" where
  "release_session sid st =
     (case hm_get (sc_sessions st) sid of
        None \<Rightarrow> (Err SessionNotFound, st)
      | Some session \<Rightarrow>
          (Ok (), st\<lparr>sc_sessions := hm_remove sid (sc_sessions st),
             sc_node_allocations :=
               release_allocations sid (ss_allocated_resources session) (sc_node_allocations st)\<rparr>))"

definition get_stats :: "scheduler_state \<Rightarrow> scheduler_stats" where
  "get_stats st = \<lparr>
     st_active_sessions = hm_len (sc_sessions st),
     st_total_allocated_cpu =
       foldl (fl_add binary32) (Fin 0) (map na_cpu_percent (hm_values (sc_node_allocations st))),
     st_total_allocated_ram = sum_list (map na_ram_bytes (hm_values (sc_node_allocations st))),
     st_total_allocated_vram = sum_list (map na_vram_bytes (hm_values (sc_node_allocations st)))\<rparr>"

section \<open>Scores are never NaN\<close>

definition fl_nonneg :: "fl \<Rightarrow> bool" where
  "fl_nonneg x \<longleftrightarrow> (case x of Fin r \<Rightarrow> 0 \<le> r | Pos_Inf \<Rightarrow> True | _ \<Rightarrow> False)"

lemma fl_nonneg_simps [simp]:
  "fl_nonneg (Fin r) = (0 \<le> r)" "fl_nonneg Pos_Inf" "\<not> fl_nonneg NaN" "\<not> fl_nonneg Neg_Inf"
  by (simp_all add: fl_nonneg_def)

lemma fl_nonneg_round: "0 \<le> r \<Longrightarrow> fl_nonneg (fl_round fmt r)"
  using round_rat_nonneg [of r "prec fmt" "qmin fmt"]
  by (auto simp: fl_round_def Let_def)

lemma fl_nonneg_f32_of [simp]: "fl_nonneg (f32_of w)"
  unfolding f32_of_def fl_of_nat_def by (rule fl_nonneg_round) (rule of_nat_0_le_iff)

lemma fl_nonneg_add [simp]: "fl_nonneg x \<Longrightarrow> fl_nonneg y \<Longrightarrow> fl_nonneg (fl_add fmt x y)"
  by (cases x; cases y) (simp_all add: fl_nonneg_round)

lemma fl_nonneg_mul [simp]: "fl_nonneg x \<Longrightarrow> 0 < r \<Longrightarrow> fl_nonneg (fl_mul fmt x (Fin r))"
  by (cases x) (simp_all add: fl_nonneg_round signed_inf_def)

lemma fl_nonneg_div [simp]: "fl_nonneg x \<Longrightarrow> 0 < r \<Longrightarrow> fl_nonneg (fl_div fmt x (Fin r))"
  by (cases x) (simp_all add: fl_nonneg_round signed_inf_def)

lemma fl_nonneg_foldl:
  "fl_nonneg x \<Longrightarrow> (\<And>x g. fl_nonneg x \<Longrightarrow> fl_nonneg (f x g)) \<Longrightarrow> fl_nonneg (foldl f x gs)"
  by (induction gs arbitrary: x) auto

lemma score_nonneg: "fl_nonneg (calculate_node_score node)"
  by (simp add: calculate_node_score_def gib_def Let_def fl_nonneg_foldl)

lemma throughput_nonneg: "fl_nonneg (estimate_throughput nodes cluster)"
  by (simp add: estimate_throughput_def gib_def Let_def fl_min_def fl_nonneg_foldl split: option.split)

section \<open>Selection\<close>

lemma fl_not_less_trans:
  "fl_nonneg a \<Longrightarrow> fl_nonneg b \<Longrightarrow> fl_nonneg c \<Longrightarrow> \<not> fl_less a b \<Longrightarrow> \<not> fl_less b c \<Longrightarrow> \<not> fl_less a c"
  by (cases a; cases b; cases c) auto

lemma fl_less_asym: "fl_less a b \<Longrightarrow> \<not> fl_less b a"
  by (cases a; cases b) auto

definition descending :: "(node_id \<times> f32) list \<Rightarrow> bool" where
  "descending = sorted_wrt (\<lambda>x y. \<not> fl_less (snd x) (snd y))"

definition nonneg_scores :: "(node_id \<times> f32) list \<Rightarrow> bool" where
  "nonneg_scores xs \<longleftrightarrow> (\<forall>x \<in> set xs. fl_nonneg (snd x))"

lemma insert_score_mset [simp]: "mset (insert_score x ys) = add_mset x (mset ys)"
  by (induction ys) auto

lemma insert_score_set [simp]: "set (insert_score x ys) = insert x (set ys)"
  by (induction ys) auto

lemma insert_score_descending:
  "nonneg_scores (x # ys) \<Longrightarrow> descending ys \<Longrightarrow> descending (insert_score x ys)"
proof (induction ys)
  case Nil
  then show ?case by (simp add: descending_def)
next
  case (Cons y ys)
  have desc: "descending ys" "\<forall>z \<in> set ys. \<not> fl_less (snd y) (snd z)"
    using Cons.prems(2) by (simp_all add: descending_def)
  have pos: "fl_nonneg (snd x)" "fl_nonneg (snd y)" "\<forall>z \<in> set ys. fl_nonneg (snd z)"
    using Cons.prems(1) by (simp_all add: nonneg_scores_def)
  show ?case
  proof (cases "fl_less (snd y) (snd x)")
    case True
    then have "\<not> fl_less (snd x) (snd y)" by (rule fl_less_asym)
    with desc pos have "\<forall>z \<in> set ys. \<not> fl_less (snd x) (snd z)"
      by (metis fl_not_less_trans)
    with True \<open>\<not> fl_less (snd x) (snd y)\<close> Cons.prems(2) show ?thesis
      by (simp add: descending_def)
  next
    case False
    moreover have "descending (insert_score x ys)"
      using Cons.IH desc pos by (simp add: nonneg_scores_def)
    ultimately show ?thesis
      using desc(2) by (simp add: descending_def)
  qed
qed

lemma sort_scores_foldl:
  assumes "nonneg_scores (acc @ xs)" and "descending acc"
  shows "descending (foldl (\<lambda>sorted s. insert_score s sorted) acc xs)
    \<and> mset (foldl (\<lambda>sorted s. insert_score s sorted) acc xs) = mset acc + mset xs"
  using assms
proof (induction xs arbitrary: acc)
  case (Cons x xs)
  have "nonneg_scores (insert_score x acc @ xs)" "descending (insert_score x acc)"
    using Cons.prems insert_score_descending [of x acc] by (auto simp: nonneg_scores_def)
  from Cons.IH [OF this] show ?case by simp
qed simp

lemma sort_scores_sorts:
  assumes "nonneg_scores xs"
  obtains ys where "sort_scores xs = Ok ys" "mset ys = mset xs" "descending ys"
proof -
  have "\<not> list_ex (\<lambda>s. snd s = NaN) xs"
    using assms by (auto simp: list_ex_iff nonneg_scores_def)
  moreover have "descending []" by (simp add: descending_def)
  ultimately show ?thesis
    using that sort_scores_foldl [of "[]" xs] assms by (simp add: sort_scores_def)
qed

lemma node_scores_nonneg: "nonneg_scores (node_scores cluster)"
  by (auto simp: node_scores_def nonneg_scores_def score_nonneg)

text \<open>The nodes every session of this cluster goes to.\<close>

definition selected :: "logical_cluster \<Rightarrow> node_id list" where
  "selected cluster = (case select_nodes cluster of Ok s \<Rightarrow> s | _ \<Rightarrow> [])"

lemma select_nodes_total: "select_nodes cluster = Ok (selected cluster)"
proof -
  obtain ys where "sort_scores (node_scores cluster) = (Ok ys :: (schedule_error, _) outcome)"
    by (rule sort_scores_sorts [OF node_scores_nonneg])
  then show ?thesis by (simp add: selected_def select_nodes_def)
qed

lemma selected_sorted:
  obtains ys where "selected cluster = map fst (take 3 ys)" "mset ys = mset (node_scores cluster)" "descending ys"
proof -
  obtain ys where ys: "sort_scores (node_scores cluster) = (Ok ys :: (schedule_error, _) outcome)"
    "mset ys = mset (node_scores cluster)" "descending ys"
    by (rule sort_scores_sorts [OF node_scores_nonneg])
  then have "selected cluster = map fst (take 3 ys)"
    by (simp add: selected_def select_nodes_def)
  with ys that show ?thesis by blast
qed

lemma distinct_node_scores: "hm_ok (lc_nodes cluster) \<Longrightarrow> distinct (map fst (node_scores cluster))"
  by (simp add: node_scores_def hm_ok_def distinct_map_filter comp_def case_prod_beta)

lemma mem_node_scores:
  "hm_ok (lc_nodes cluster) \<Longrightarrow> (n, x) \<in> set (node_scores cluster) \<longleftrightarrow>
    (\<exists>node. hm_get (lc_nodes cluster) n = Some node \<and> pn_status node = Healthy \<and> x = calculate_node_score node)"
  by (auto simp: node_scores_def healthy_def hm_get_mem image_iff)

lemma selected_facts:
  assumes "hm_ok (lc_nodes cluster)"
  shows "distinct (selected cluster)" and "length (selected cluster) \<le> 3"
    and "length (selected cluster) = min 3 (length (node_scores cluster))"
    and "n \<in> set (selected cluster) \<Longrightarrow> \<exists>node. hm_get (lc_nodes cluster) n = Some node \<and> pn_status node = Healthy"
    and "n \<in> set (selected cluster) \<Longrightarrow> hm_get (lc_nodes cluster) n = Some a \<Longrightarrow>
      hm_get (lc_nodes cluster) m = Some b \<Longrightarrow> pn_status b = Healthy \<Longrightarrow> m \<notin> set (selected cluster) \<Longrightarrow>
      \<not> fl_less (calculate_node_score a) (calculate_node_score b)"
proof -
  obtain ys where ys: "selected cluster = map fst (take 3 ys)" "mset ys = mset (node_scores cluster)" "descending ys"
    by (rule selected_sorted)
  have set_ys: "set ys = set (node_scores cluster)" and len: "length ys = length (node_scores cluster)"
    using ys(2) by (metis mset_eq_setD) (metis ys(2) mset_eq_length)
  have "distinct (map fst ys)"
    using distinct_node_scores [OF assms] ys(2) by (metis mset_map mset_eq_imp_distinct_iff)
  then show "distinct (selected cluster)"
    by (simp add: ys(1) take_map [symmetric])
  show "length (selected cluster) \<le> 3" "length (selected cluster) = min 3 (length (node_scores cluster))"
    by (simp_all add: ys(1) len)
  show "n \<in> set (selected cluster) \<Longrightarrow> \<exists>node. hm_get (lc_nodes cluster) n = Some node \<and> pn_status node = Healthy"
    using set_ys mem_node_scores [OF assms] by (fastforce simp: ys(1) dest: in_set_takeD)
  assume n: "n \<in> set (selected cluster)" "hm_get (lc_nodes cluster) n = Some a"
    and m: "hm_get (lc_nodes cluster) m = Some b" "pn_status b = Healthy" "m \<notin> set (selected cluster)"
  from n(1) obtain x where x: "(n, x) \<in> set (take 3 ys)" by (auto simp: ys(1))
  then have "x = calculate_node_score a"
    using set_ys mem_node_scores [OF assms] n(2) by (auto dest: in_set_takeD)
  moreover have "(m, calculate_node_score b) \<in> set ys"
    using set_ys mem_node_scores [OF assms] m by auto
  moreover from this m(3) have "(m, calculate_node_score b) \<in> set (drop 3 ys)"
    by (metis ys(1) append_take_drop_id Un_iff set_append fst_conv image_eqI set_map)
  moreover have "descending (take 3 ys @ drop 3 ys)" using ys(3) by simp
  ultimately show "\<not> fl_less (calculate_node_score a) (calculate_node_score b)"
    using x unfolding descending_def sorted_wrt_append by force
qed

section \<open>Loads\<close>

text \<open>The \<open>f32\<close> sums the scheduler makes are of small integers, hence exact.\<close>

text \<open>A node that carries \<open>k\<close> sessions' shares.\<close>

definition carries :: "nat \<Rightarrow> node_allocation \<Rightarrow> bool" where
  "carries k a \<longleftrightarrow> na_cpu_percent a = Fin (of_nat (30 * k)) \<and>
     na_ram_bytes a = of_nat (4294967296 * k) \<and> na_vram_bytes a = of_nat (2147483648 * k)"

definition node_load :: "(node_id, node_allocation) hash_map \<Rightarrow> node_id \<Rightarrow> nat \<Rightarrow> bool" where
  "node_load allocs n k \<longleftrightarrow> (case hm_get allocs n of None \<Rightarrow> k = 0 | Some a \<Rightarrow> carries k a)"

definition the_allocation :: "(node_id, node_allocation) hash_map \<Rightarrow> node_id \<Rightarrow> node_allocation" where
  "the_allocation allocs n = (case hm_get allocs n of None \<Rightarrow> empty_allocation | Some a \<Rightarrow> a)"

lemma carries_empty [simp]: "carries 0 empty_allocation"
  by (simp add: carries_def empty_allocation_def)

lemma node_load_carries: "node_load allocs n k \<Longrightarrow> carries k (the_allocation allocs n)"
  by (auto simp: node_load_def the_allocation_def split: option.splits)

lemma carries_add:
  assumes "carries k a" and "k \<le> 3"
  shows "carries (Suc k) (add_allocation sid (standard_allocation n) a)"
proof -
  have "fl_add binary32 (Fin (of_nat (30 * k))) (Fin (of_nat 30)) = Fin (of_nat (30 * k + 30))"
    using assms(2) by (intro fl_add_nat) simp
  with assms(1) show ?thesis
    by (simp add: carries_def add_allocation_def standard_allocation_def algebra_simps)
qed

lemma carries_sub:
  assumes "carries (Suc k) a" and "k \<le> 3"
  shows "carries k (sub_allocation sid (standard_allocation n) a)"
proof -
  have "fl_sub binary32 (Fin (of_nat (30 * k + 30))) (Fin (of_nat 30)) = Fin (of_nat (30 * k))"
    using assms(2) fl_sub_nat [of 30 "30 * k + 30"] by simp
  with assms(1) show ?thesis
    by (simp add: carries_def sub_allocation_def standard_allocation_def algebra_simps)
qed

lemma over_limit_iff:
  assumes "carries k a" and "k \<le> 3"
  shows "fl_less (Fin 100) (fl_add binary32 (na_cpu_percent a) (Fin 30)) \<longleftrightarrow> k = 3"
proof -
  have "fl_add binary32 (Fin (of_nat (30 * k))) (Fin (of_nat 30)) = Fin (of_nat (30 * k + 30))"
    using assms(2) by (intro fl_add_nat) simp
  moreover have "k \<in> {0, 1, 2, 3}" using assms(2) by auto
  ultimately show ?thesis using assms(1) by (auto simp: carries_def)
qed

text \<open>What a map of allocations holds: the standard share of distinct nodes.\<close>

definition standard_shares :: "(node_id, resource_allocation) hash_map \<Rightarrow> node_id set \<Rightarrow> bool" where
  "standard_shares m nodes \<longleftrightarrow>
     hm_ok m \<and> set (hm_keys m) = nodes \<and> (\<forall>(n, a) \<in> set m. a = standard_allocation n)"

lemma standard_shares_Nil [simp]: "standard_shares [] nodes \<longleftrightarrow> nodes = {}"
  by (auto simp: standard_shares_def hm_ok_def hm_keys_def)

lemma standard_shares_Cons:
  "standard_shares ((n, a) # m) nodes \<Longrightarrow>
   a = standard_allocation n \<and> n \<in> nodes \<and> standard_shares m (nodes - {n})"
  by (auto simp: standard_shares_def hm_ok_def hm_keys_def)

lemma standard_shares_get:
  "standard_shares m nodes \<longleftrightarrow>
   hm_ok m \<and> (\<forall>n. hm_get m n = (if n \<in> nodes then Some (standard_allocation n) else None))"
proof -
  have "(\<forall>(n, a) \<in> set m. a = standard_allocation n) \<longleftrightarrow> (\<forall>n a. hm_get m n = Some a \<longrightarrow> a = standard_allocation n)"
    if "hm_ok m" using hm_get_mem [OF that] by auto
  moreover have "set (hm_keys m) = {n. hm_get m n \<noteq> None}"
    using hm_get_keys [of m] by auto
  ultimately have eq: "standard_shares m nodes \<longleftrightarrow>
      hm_ok m \<and> {n. hm_get m n \<noteq> None} = nodes \<and> (\<forall>n a. hm_get m n = Some a \<longrightarrow> a = standard_allocation n)"
    by (auto simp: standard_shares_def)
  show ?thesis
  proof
    assume "standard_shares m nodes"
    with eq have ok: "hm_ok m" and dom: "\<And>n. n \<in> nodes \<longleftrightarrow> hm_get m n \<noteq> None"
      and val: "\<And>n a. hm_get m n = Some a \<Longrightarrow> a = standard_allocation n" by blast+
    have "hm_get m n = (if n \<in> nodes then Some (standard_allocation n) else None)" for n
      using dom [of n] val [of n] by (cases "hm_get m n") simp_all
    with ok show "hm_ok m \<and> (\<forall>n. hm_get m n = (if n \<in> nodes then Some (standard_allocation n) else None))"
      by blast
  next
    assume get: "hm_ok m \<and> (\<forall>n. hm_get m n = (if n \<in> nodes then Some (standard_allocation n) else None))"
    then have "{n. hm_get m n \<noteq> None} = nodes" by auto
    moreover have "hm_get m n = Some a \<longrightarrow> a = standard_allocation n" for n a
      using get by (auto split: if_splits)
    ultimately show "standard_shares m nodes" using get eq by blast
  qed
qed

lemma calculate_allocations_shares: "standard_shares (calculate_allocations nodes) (set nodes)"
proof -
  have "standard_shares m ns \<Longrightarrow>
    standard_shares (foldl (\<lambda>m n. hm_insert n (standard_allocation n) m) m nodes) (ns \<union> set nodes)" for m ns
  proof (induction nodes arbitrary: m ns)
    case (Cons n nodes)
    have "standard_shares (hm_insert n (standard_allocation n) m) (insert n ns)"
      using Cons.prems by (simp add: standard_shares_get)
    from Cons.IH [OF this] show ?case by simp
  qed simp
  from this [of "[]" "{}"] show ?thesis
    by (simp add: calculate_allocations_def hm_new_def)
qed

lemma standard_shares_perm:
  assumes "standard_shares m nodes" and "mset m' = mset m"
  shows "standard_shares m' nodes"
proof -
  have "mset (map fst m') = mset (map fst m)" using assms(2) by (metis mset_map)
  then have "distinct (map fst m') = distinct (map fst m)" "set (map fst m') = set (map fst m)"
    by (metis mset_eq_imp_distinct_iff) (metis \<open>mset (map fst m') = _\<close> mset_eq_setD)
  moreover have "set m' = set m" using assms(2) by (metis mset_eq_setD)
  ultimately show ?thesis using assms(1) by (simp add: standard_shares_def hm_ok_def hm_keys_def)
qed

section \<open>Reservation and release, by load\<close>

lemma reserve_succeeds:
  assumes "standard_shares m nodes" and "\<forall>n \<in> nodes. node_load allocs n k" and "k < 3"
  shows "\<exists>allocs'. reserve_resources sid m allocs = (Ok (), allocs') \<and> (hm_ok allocs \<longrightarrow> hm_ok allocs') \<and>
    (\<forall>n. hm_get allocs' n = (if n \<in> nodes
        then Some (add_allocation sid (standard_allocation n) (the_allocation allocs n)) else hm_get allocs n))"
  using assms(1,2)
proof (induction m arbitrary: nodes allocs)
  case (Cons e m)
  obtain n a where e: "e = (n, a)" by force
  note share = standard_shares_Cons [OF Cons.prems(1) [unfolded e]]
  have load: "carries k (the_allocation allocs n)"
    using share Cons.prems(2) node_load_carries by blast
  define allocs1 where
    "allocs1 = hm_modify n (add_allocation sid a) (hm_or_insert n empty_allocation allocs)"
  have get1: "hm_get allocs1 j = (if j = n then Some (add_allocation sid a (the_allocation allocs n))
      else hm_get allocs j)" for j
    by (simp add: allocs1_def the_allocation_def)
  have step: "reserve_resources sid (e # m) allocs = reserve_resources sid m allocs1"
    using over_limit_iff [OF load] assms(3) share
    by (simp add: e Let_def allocs1_def the_allocation_def standard_allocation_def)
  have "\<forall>j \<in> nodes - {n}. node_load allocs1 j k"
    using Cons.prems(2) by (simp add: node_load_def get1)
  from Cons.IH [OF _ this] share obtain allocs' where
    rest: "reserve_resources sid m allocs1 = (Ok (), allocs')" "hm_ok allocs1 \<longrightarrow> hm_ok allocs'"
      "\<forall>j. hm_get allocs' j = (if j \<in> nodes - {n}
        then Some (add_allocation sid (standard_allocation j) (the_allocation allocs1 j)) else hm_get allocs1 j)"
    by blast
  have "hm_ok allocs \<longrightarrow> hm_ok allocs1" by (simp add: allocs1_def)
  moreover have "hm_get allocs' j = (if j \<in> nodes
      then Some (add_allocation sid (standard_allocation j) (the_allocation allocs j)) else hm_get allocs j)" for j
    using share rest(3) by (simp add: get1 the_allocation_def)
  ultimately show ?case using step rest by auto
qed auto

lemma reserve_fails:
  assumes "standard_shares m nodes" and "nodes \<noteq> {}" and "\<forall>n \<in> nodes. node_load allocs n 3"
  shows "\<exists>n \<in> nodes. reserve_resources sid m allocs = (Err (InsufficientResources n), allocs)"
proof (cases m)
  case Nil
  with assms show ?thesis by simp
next
  case (Cons e rest)
  obtain n a where e: "e = (n, a)" by force
  note share = standard_shares_Cons [OF assms(1) [unfolded Cons e]]
  with assms(3) have load: "node_load allocs n 3" by blast
  then obtain b where b: "hm_get allocs n = Some b" "carries 3 b"
    by (auto simp: node_load_def split: option.splits)
  then show ?thesis
    using over_limit_iff [OF b(2)] share
    by (auto simp: Cons e Let_def hm_or_insert_present standard_allocation_def intro!: bexI [of _ n])
qed

lemma release_allocations_get:
  assumes "standard_shares m nodes"
  shows "hm_get (release_allocations sid m allocs) n =
    (if n \<in> nodes then map_option (sub_allocation sid (standard_allocation n)) (hm_get allocs n)
     else hm_get allocs n)"
  using assms
proof (induction m arbitrary: nodes allocs)
  case (Cons e m)
  obtain j a where e: "e = (j, a)" by force
  note share = standard_shares_Cons [OF Cons.prems [unfolded e]]
  then show ?case
    using Cons.IH [of "nodes - {j}" "hm_modify j (sub_allocation sid a) allocs"]
    by (auto simp: release_allocations_def e)
qed (simp add: release_allocations_def)

lemma release_allocations_ok: "hm_ok allocs \<Longrightarrow> hm_ok (release_allocations sid m allocs)"
  unfolding release_allocations_def by (induction m arbitrary: allocs) auto

section \<open>The invariant\<close>

text \<open>
  The states a scheduler goes through.  With \<open>fresh\<close>, no session id is
  scheduled while it is stored, as a caller that draws random ids ensures.
\<close>

inductive scheduler_reachable :: "bool \<Rightarrow> logical_cluster \<Rightarrow> scheduler_state \<Rightarrow> bool"
  for fresh :: bool and cluster :: logical_cluster where
  initial: "scheduler_reachable fresh cluster (scheduler_new cluster)"
| scheduled: "scheduler_reachable fresh cluster st \<Longrightarrow> iteration_order rehash \<Longrightarrow>
    fresh \<longrightarrow> hm_get (sc_sessions st) (rq_session_id request) = None \<Longrightarrow>
    scheduler_reachable fresh cluster (snd (schedule rehash now request st))"
| released: "scheduler_reachable fresh cluster st \<Longrightarrow>
    scheduler_reachable fresh cluster (snd (release_session sid st))"

definition uniform_load :: "logical_cluster \<Rightarrow> nat \<Rightarrow> (node_id, node_allocation) hash_map \<Rightarrow> bool" where
  "uniform_load cluster k allocs \<longleftrightarrow>
     (\<forall>n. if n \<in> set (selected cluster) then node_load allocs n k else hm_get allocs n = None)"

definition placed_sessions :: "logical_cluster \<Rightarrow> (session_id, scheduled_session) hash_map \<Rightarrow> bool" where
  "placed_sessions cluster sessions \<longleftrightarrow>
     (\<forall>sid s. hm_get sessions sid = Some s \<longrightarrow> ss_assigned_nodes s = selected cluster \<and>
        standard_shares (ss_allocated_resources s) (set (selected cluster)))"

definition scheduler_inv :: "bool \<Rightarrow> logical_cluster \<Rightarrow> nat \<Rightarrow> scheduler_state \<Rightarrow> bool" where
  "scheduler_inv fresh cluster k st \<longleftrightarrow>
     sc_cluster st = cluster \<and> hm_ok (sc_sessions st) \<and> hm_ok (sc_node_allocations st) \<and>
     k \<le> 3 \<and> hm_len (sc_sessions st) \<le> k \<and> (fresh \<longrightarrow> hm_len (sc_sessions st) = k) \<and>
     uniform_load cluster k (sc_node_allocations st) \<and> placed_sessions cluster (sc_sessions st)"

lemma uniform_loadD:
  assumes "uniform_load cluster k allocs"
  shows "n \<in> set (selected cluster) \<Longrightarrow> node_load allocs n k"
    and "n \<notin> set (selected cluster) \<Longrightarrow> hm_get allocs n = None"
    and "hm_get allocs n = Some a \<Longrightarrow> carries k a"
proof -
  show load: "n \<in> set (selected cluster) \<Longrightarrow> node_load allocs n k"
    and none: "n \<notin> set (selected cluster) \<Longrightarrow> hm_get allocs n = None"
    using assms by (simp_all add: uniform_load_def)
  show "hm_get allocs n = Some a \<Longrightarrow> carries k a"
    using load none by (cases "n \<in> set (selected cluster)") (auto simp: node_load_def)
qed

lemma uniform_load_add:
  assumes "uniform_load cluster k allocs" and "k \<le> 3"
    and "\<forall>n. hm_get allocs' n = (if n \<in> set (selected cluster)
      then Some (add_allocation sid (standard_allocation n) (the_allocation allocs n)) else hm_get allocs n)"
  shows "uniform_load cluster (Suc k) allocs'"
  using assms uniform_loadD [OF assms(1)]
  by (simp add: uniform_load_def [of _ "Suc k"] node_load_def [of allocs'] carries_add node_load_carries)

lemma uniform_load_sub:
  assumes "uniform_load cluster (Suc k) allocs" and "k \<le> 3"
    and "\<forall>n. hm_get allocs' n = (if n \<in> set (selected cluster)
      then map_option (sub_allocation sid (standard_allocation n)) (hm_get allocs n) else hm_get allocs n)"
  shows "uniform_load cluster k allocs'"
proof -
  have "node_load allocs' n k" if n: "n \<in> set (selected cluster)" for n
  proof -
    obtain a where "hm_get allocs n = Some a" "carries (Suc k) a"
      using uniform_loadD(1) [OF assms(1) n] by (auto simp: node_load_def split: option.splits)
    then show ?thesis using n assms(2,3) by (simp add: node_load_def carries_sub)
  qed
  then show ?thesis
    using assms(3) uniform_loadD(2) [OF assms(1)] by (simp add: uniform_load_def)
qed

lemma schedule_cases:
  assumes "iteration_order rehash" and "scheduler_inv fresh cluster k st"
  obtains (admission) "\<not> check_admission request cluster"
      "schedule rehash now request st = (Err AdmissionRejected, st)"
  | (no_nodes) "check_admission request cluster" "selected cluster = []"
      "schedule rehash now request st = (Err NoSchedulableNodes, st)"
  | (full) n where "check_admission request cluster" "n \<in> set (selected cluster)" "k = 3"
      "schedule rehash now request st = (Err (InsufficientResources n), st)"
  | (ok) session allocs where "check_admission request cluster" "selected cluster \<noteq> []" "k < 3"
      "schedule rehash now request st = (Ok session, st\<lparr>sc_node_allocations := allocs,
         sc_sessions := hm_insert (rq_session_id request) session (sc_sessions st)\<rparr>)"
      "hm_ok allocs" "ss_assigned_nodes session = selected cluster"
      "standard_shares (ss_allocated_resources session) (set (selected cluster))"
      "\<forall>n. hm_get allocs n = (if n \<in> set (selected cluster)
         then Some (add_allocation (rq_session_id request) (standard_allocation n)
           (the_allocation (sc_node_allocations st) n)) else hm_get (sc_node_allocations st) n)"
      "ss_session_id session = rq_session_id request" "ss_model_id session = rq_model_id request"
      "ss_scheduled_at session = now"
proof -
  let ?shares = "rehash (calculate_allocations (selected cluster))"
  have inv: "sc_cluster st = cluster" "hm_ok (sc_node_allocations st)" "k \<le> 3"
    "\<forall>n \<in> set (selected cluster). node_load (sc_node_allocations st) n k"
    using assms(2) uniform_loadD(1) by (auto simp: scheduler_inv_def)
  have shares: "standard_shares ?shares (set (selected cluster))"
    using standard_shares_perm [OF calculate_allocations_shares] assms(1)
    by (simp add: iteration_order_def)
  show ?thesis
  proof (cases "check_admission request cluster")
    case False
    then show ?thesis using admission inv by (simp add: schedule_def)
  next
    case adm: True
    show ?thesis
    proof (cases "selected cluster = []")
      case True
      then show ?thesis using no_nodes adm inv by (simp add: schedule_def select_nodes_total)
    next
      case ne: False
      show ?thesis
      proof (cases "k = 3")
        case True
        with reserve_fails [OF shares, of "sc_node_allocations st" "rq_session_id request"] ne inv
        obtain n where "n \<in> set (selected cluster)"
          "reserve_resources (rq_session_id request) ?shares (sc_node_allocations st)
            = (Err (InsufficientResources n), sc_node_allocations st)" by auto
        then show ?thesis using full True adm ne inv by (simp add: schedule_def select_nodes_total)
      next
        case False
        with inv have k: "k < 3" by simp
        obtain allocs where allocs:
          "reserve_resources (rq_session_id request) ?shares (sc_node_allocations st) = (Ok (), allocs)"
          "hm_ok allocs"
          "\<forall>n. hm_get allocs n = (if n \<in> set (selected cluster)
            then Some (add_allocation (rq_session_id request) (standard_allocation n)
              (the_allocation (sc_node_allocations st) n)) else hm_get (sc_node_allocations st) n)"
          using reserve_succeeds [OF shares inv(4) k] inv(2) by blast
        show ?thesis
          by (rule ok [OF adm ne k _ allocs(2) _ _ allocs(3)])
            (use adm ne inv(1) allocs(1) shares in \<open>auto simp: schedule_def select_nodes_total Let_def\<close>)
      qed
    qed
  qed
qed

lemma scheduler_inv_new: "scheduler_inv fresh cluster 0 (scheduler_new cluster)"
  by (simp add: scheduler_inv_def scheduler_new_def uniform_load_def node_load_def placed_sessions_def)

lemma scheduler_inv_schedule:
  assumes "iteration_order rehash" and "scheduler_inv fresh cluster k st"
    and "fresh \<longrightarrow> hm_get (sc_sessions st) (rq_session_id request) = None"
    and "schedule rehash now request st = (r, st')"
  shows "scheduler_inv fresh cluster (if is_ok r then Suc k else k) st'"
  using assms(1,2)
proof (cases rule: schedule_cases [of rehash fresh cluster k st request now])
  case (ok session allocs)
  let ?sid = "rq_session_id request"
  have ses: "hm_ok (sc_sessions st)" using assms(2) by (simp add: scheduler_inv_def)
  have "uniform_load cluster (Suc k) allocs"
    using uniform_load_add [OF _ _ ok(8)] assms(2) ok(3) by (simp add: scheduler_inv_def)
  moreover have "placed_sessions cluster (hm_insert ?sid session (sc_sessions st))"
    using assms(2) ok(6,7) by (simp add: scheduler_inv_def placed_sessions_def)
  moreover have "hm_len (hm_insert ?sid session (sc_sessions st)) \<le> Suc k"
    using hm_len_insert_le [OF ses, of ?sid session] assms(2) by (simp add: scheduler_inv_def)
  moreover have "fresh \<longrightarrow> hm_len (hm_insert ?sid session (sc_sessions st)) = Suc k"
    using hm_len_insert [OF ses, of ?sid session] assms(2,3) by (auto simp: scheduler_inv_def)
  ultimately show ?thesis
    using assms(2,4) ok(3,4,5) ses by (auto simp: scheduler_inv_def)
qed (use assms(2,4) in auto)

lemma release_cases:
  assumes "scheduler_inv fresh cluster k st"
  obtains (absent) "hm_get (sc_sessions st) sid = None"
      "release_session sid st = (Err SessionNotFound, st)"
  | (ok) session allocs where "hm_get (sc_sessions st) sid = Some session" "0 < k" "hm_ok allocs"
      "release_session sid st = (Ok (), st\<lparr>sc_sessions := hm_remove sid (sc_sessions st),
         sc_node_allocations := allocs\<rparr>)"
      "\<forall>n. hm_get allocs n = (if n \<in> set (selected cluster)
         then map_option (sub_allocation sid (standard_allocation n)) (hm_get (sc_node_allocations st) n)
         else hm_get (sc_node_allocations st) n)"
proof (cases "hm_get (sc_sessions st) sid")
  case None
  then show ?thesis using absent by (simp add: release_session_def)
next
  case (Some session)
  have inv: "hm_ok (sc_sessions st)" "hm_ok (sc_node_allocations st)" "hm_len (sc_sessions st) \<le> k"
    "standard_shares (ss_allocated_resources session) (set (selected cluster))"
    using assms Some by (simp_all add: scheduler_inv_def placed_sessions_def)
  have "0 < k" using hm_len_remove [OF inv(1) Some] inv(3) by simp
  moreover have "\<forall>n. hm_get (release_allocations sid (ss_allocated_resources session) (sc_node_allocations st)) n =
      (if n \<in> set (selected cluster)
       then map_option (sub_allocation sid (standard_allocation n)) (hm_get (sc_node_allocations st) n)
       else hm_get (sc_node_allocations st) n)"
    using release_allocations_get [OF inv(4)] by blast
  moreover have "release_session sid st = (Ok (), st\<lparr>sc_sessions := hm_remove sid (sc_sessions st),
      sc_node_allocations := release_allocations sid (ss_allocated_resources session) (sc_node_allocations st)\<rparr>)"
    by (simp add: release_session_def Some)
  ultimately show ?thesis
    using ok Some release_allocations_ok [OF inv(2)] by blast
qed

lemma scheduler_inv_release:
  assumes "scheduler_inv fresh cluster k st" and "release_session sid st = (r, st')"
  shows "scheduler_inv fresh cluster (if is_ok r then k - 1 else k) st'"
  using assms(1)
proof (cases rule: release_cases [of fresh cluster k st sid])
  case (ok session allocs)
  obtain j where j: "k = Suc j" using ok(2) by (cases k) auto
  have "uniform_load cluster j allocs"
    using uniform_load_sub [OF _ _ ok(5)] assms(1) j by (simp add: scheduler_inv_def)
  moreover have "placed_sessions cluster (hm_remove sid (sc_sessions st))"
    using assms(1) by (simp add: scheduler_inv_def placed_sessions_def)
  moreover have "Suc (hm_len (hm_remove sid (sc_sessions st))) = hm_len (sc_sessions st)"
    using assms(1) ok(1) hm_len_remove by (metis scheduler_inv_def)
  ultimately show ?thesis
    using assms ok(1-4) j by (auto simp: scheduler_inv_def)
qed (use assms in auto)

lemma reachable_inv: "scheduler_reachable fresh cluster st \<Longrightarrow> \<exists>k. scheduler_inv fresh cluster k st"
proof (induction rule: scheduler_reachable.induct)
  case initial
  show ?case using scheduler_inv_new by blast
next
  case (scheduled st rehash request now)
  then show ?case
    using scheduler_inv_schedule [OF scheduled.hyps(2) _ scheduled.hyps(3)] by (metis surjective_pairing)
next
  case (released st sid)
  then show ?case using scheduler_inv_release by (metis surjective_pairing)
qed

text \<open>The totals of a uniform load are exact: they stay below \<open>2 ^ 24\<close> percent.\<close>

lemma foldl_cpu_exact:
  assumes "\<forall>a \<in> set as. carries k a" and "n + 30 * k * length as \<le> 2 ^ 24"
  shows "foldl (fl_add binary32) (Fin (of_nat n)) (map na_cpu_percent as) = Fin (of_nat (n + 30 * k * length as))"
  using assms
proof (induction as arbitrary: n)
  case (Cons a as)
  have "fl_add binary32 (Fin (of_nat n)) (Fin (of_nat (30 * k))) = Fin (of_nat (n + 30 * k))"
    using Cons.prems(2) by (intro fl_add_nat) simp
  moreover have "foldl (fl_add binary32) (Fin (of_nat (n + 30 * k))) (map na_cpu_percent as) =
      Fin (of_nat ((n + 30 * k) + 30 * k * length as))"
    using Cons.prems by (intro Cons.IH) (simp_all add: algebra_simps)
  ultimately show ?case
    using Cons.prems(1) by (simp add: carries_def algebra_simps)
qed simp

lemma sum_ram_exact:
  "\<forall>a \<in> set as. carries k a \<Longrightarrow>
   sum_list (map na_ram_bytes as) = of_nat (4294967296 * k * length as) \<and>
   sum_list (map na_vram_bytes as) = of_nat (2147483648 * k * length as)"
  by (induction as) (auto simp: carries_def algebra_simps)

section \<open>Properties of the scheduler\<close>

definition sample_schedule_request :: "session_id \<Rightarrow> schedule_request" where
  "sample_schedule_request sid = \<lparr>rq_session_id = sid, rq_model_id = ''llama-70b'',
     rq_context_length = 4096, rq_batch_size = 1, rq_priority = Interactive\<rparr>"

definition sample_scheduling_cluster :: logical_cluster where
  "sample_scheduling_cluster = sample_cluster
     [(1, sample_node 1 Healthy []), (2, sample_node 2 Draining [])] []"

lemma sample_scheduling_simps [simp]:
  "check_admission (sample_schedule_request sid) sample_scheduling_cluster"
  "rq_session_id (sample_schedule_request sid) = sid"
  "hm_ok (lc_nodes sample_scheduling_cluster)"
  by (simp_all add: sample_schedule_request_def sample_scheduling_cluster_def check_admission_def
      sample_cluster_def hm_ok_def)

lemma sample_selected [simp]: "selected sample_scheduling_cluster = [1]"
  by (simp add: selected_def select_nodes_def sort_scores_def node_scores_def sample_scheduling_cluster_def)

abbreviation sample_schedule where
  "sample_schedule sid st \<equiv> schedule (\<lambda>m. m) 0 (sample_schedule_request sid) st"

lemma sample_schedule_ok:
  assumes "scheduler_inv fresh sample_scheduling_cluster k st" and "k < 3"
  shows "\<exists>session st'. sample_schedule sid st = (Ok session, st') \<and> ss_assigned_nodes session = [1]"
  using iteration_order_id assms(1)
  by (cases rule: schedule_cases [of "\<lambda>m. m" fresh sample_scheduling_cluster k st "sample_schedule_request sid" 0])
    (use assms(2) in auto)

lemmas sample_scheduled = sample_schedule_ok [OF scheduler_inv_new, simplified]

lemma sample_schedule_reachable:
  "scheduler_reachable False cluster st \<Longrightarrow> scheduler_reachable False cluster (snd (sample_schedule sid st))"
  by (rule scheduler_reachable.scheduled) (simp_all add: iteration_order_id)

text \<open>
  In every state a scheduler reaches, whatever the requests, releases and
  hash orders, no node is overcommitted: a node's reservation is \<open>k\<close> times 30
  percent of CPU, 4 GiB of RAM and 2 GiB of VRAM for one \<open>k\<close> of at most 3 that
  is the same for all nodes that hold one, and there are at most \<open>k\<close> stored
  sessions.
\<close>

theorem no_node_overcommitted:
  assumes "scheduler_reachable fresh cluster st"
  shows "\<exists>k \<le> 3. hm_len (sc_sessions st) \<le> k \<and>
    (\<forall>n a. hm_get (sc_node_allocations st) n = Some a \<longrightarrow>
      na_cpu_percent a = Fin (of_nat (30 * k)) \<and>
      unat (na_ram_bytes a) = 4 * 1024 ^ 3 * k \<and> unat (na_vram_bytes a) = 2 * 1024 ^ 3 * k)"
proof -
  obtain k where inv: "scheduler_inv fresh cluster k st"
    using reachable_inv [OF assms] by blast
  have le: "k \<le> 3" using inv by (simp add: scheduler_inv_def)
  have "carries k a" if "hm_get (sc_node_allocations st) n = Some a" for n a
    using inv that uniform_loadD(3) by (auto simp: scheduler_inv_def)
  moreover have "unat (of_nat (4294967296 * k) :: u64) = 4294967296 * k"
    "unat (of_nat (2147483648 * k) :: u64) = 2147483648 * k"
    using le by (intro unat_of_nat_exact; simp)+
  ultimately show ?thesis
    using inv by (auto simp: scheduler_inv_def carries_def intro!: exI [of _ k])
qed

theorem no_node_overcommitted_witness:
  "\<exists>k \<le> 3. hm_len (sc_sessions (snd (sample_schedule 7 (scheduler_new sample_scheduling_cluster)))) \<le> k \<and>
    (\<forall>n a. hm_get (sc_node_allocations (snd (sample_schedule 7 (scheduler_new sample_scheduling_cluster)))) n = Some a \<longrightarrow>
      na_cpu_percent a = Fin (of_nat (30 * k)) \<and>
      unat (na_ram_bytes a) = 4 * 1024 ^ 3 * k \<and> unat (na_vram_bytes a) = 2 * 1024 ^ 3 * k)"
  by (rule no_node_overcommitted [OF sample_schedule_reachable [OF scheduler_reachable.initial]])

text \<open>
  C18.  A rejected or failed request leaves no trace: in every reachable state,
  \<open>schedule\<close> never panics, and when it returns an error the scheduler's state
  is the one before the call, although \<open>reserve_resources\<close> itself does not
  undo the reservations it made before failing.
\<close>

theorem rejected_request_leaves_no_trace:
  assumes "scheduler_reachable fresh cluster st" and "iteration_order rehash"
    and "schedule rehash now request st = (r, st')"
  shows "\<not> is_panic r \<and> (\<not> is_ok r \<longrightarrow> st' = st)"
proof -
  obtain k where "scheduler_inv fresh cluster k st"
    using reachable_inv [OF assms(1)] by blast
  with assms(2) show ?thesis
    by (rule schedule_cases [of rehash fresh cluster k st request now]) (use assms(3) in auto)
qed

theorem rejected_request_leaves_no_trace_witness:
  "\<not> is_panic (fst (sample_schedule 7 (scheduler_new (sample_cluster [] [])))) \<and>
   snd (sample_schedule 7 (scheduler_new (sample_cluster [] []))) = scheduler_new (sample_cluster [] [])"
proof -
  have "selected (sample_cluster [] []) = []"
    by (simp add: selected_def select_nodes_def sort_scores_def node_scores_def)
  then have "\<not> is_ok (fst (sample_schedule 7 (scheduler_new (sample_cluster [] []))))"
    by (simp add: schedule_def scheduler_new_def select_nodes_total Let_def)
  with rejected_request_leaves_no_trace [OF scheduler_reachable.initial [of False "sample_cluster [] []"]
      iteration_order_id surjective_pairing, of 0 "sample_schedule_request 7"]
  show ?thesis by blast
qed

text \<open>
  C40.  When a request is accepted: with fresh session ids, \<open>schedule\<close> succeeds
  exactly when the admission check passes, the cluster has a healthy node and
  fewer than three sessions are active.
\<close>

theorem schedule_succeeds_iff:
  assumes "scheduler_reachable True cluster st" and "iteration_order rehash"
  shows "is_ok (fst (schedule rehash now request st)) \<longleftrightarrow>
    check_admission request cluster \<and> (\<exists>(n, node) \<in> set (lc_nodes cluster). pn_status node = Healthy) \<and>
    hm_len (sc_sessions st) < 3"
proof -
  obtain k where inv: "scheduler_inv True cluster k st"
    using reachable_inv [OF assms(1)] by blast
  have sel: "selected cluster \<noteq> [] \<longleftrightarrow> (\<exists>(n, node) \<in> set (lc_nodes cluster). pn_status node = Healthy)"
  proof -
    obtain ys where "selected cluster = map fst (take 3 ys)" "mset ys = mset (node_scores cluster)"
      by (rule selected_sorted)
    then have "selected cluster = [] \<longleftrightarrow> node_scores cluster = []" by auto
    then show ?thesis by (auto simp: node_scores_def healthy_def filter_empty_conv)
  qed
  have len: "hm_len (sc_sessions st) = k" using inv by (simp add: scheduler_inv_def)
  show ?thesis
    unfolding len sel [symmetric] using assms(2) inv
    by (cases rule: schedule_cases [of rehash True cluster k st request now]) auto
qed

theorem schedule_succeeds_iff_witness:
  "is_ok (fst (schedule rev 0 (sample_schedule_request 7) (scheduler_new sample_scheduling_cluster)))"
  using schedule_succeeds_iff [OF scheduler_reachable.initial [of True sample_scheduling_cluster]
      iteration_order_rev, of 0 "sample_schedule_request 7"]
  by (simp add: scheduler_new_def) (simp add: sample_scheduling_cluster_def)

text \<open>
  Node selection: every scheduled session is assigned the (up to three)
  healthy nodes with the highest scores; no healthy node left out has a higher
  score than a node chosen.
\<close>

theorem schedule_selects_best_nodes:
  assumes "scheduler_reachable fresh cluster st" and "iteration_order rehash"
    and "hm_ok (lc_nodes cluster)" and "schedule rehash now request st = (Ok session, st')"
  shows "distinct (ss_assigned_nodes session) \<and>
    length (ss_assigned_nodes session) = min 3 (length (filter (healthy \<circ> snd) (lc_nodes cluster))) \<and>
    (\<forall>n \<in> set (ss_assigned_nodes session).
      \<exists>a. hm_get (lc_nodes cluster) n = Some a \<and> healthy a \<and>
        (\<forall>m b. hm_get (lc_nodes cluster) m = Some b \<longrightarrow> healthy b \<longrightarrow> m \<notin> set (ss_assigned_nodes session) \<longrightarrow>
          \<not> fl_less (calculate_node_score a) (calculate_node_score b)))"
proof -
  obtain k where inv: "scheduler_inv fresh cluster k st"
    using reachable_inv [OF assms(1)] by blast
  have "ss_assigned_nodes session = selected cluster"
    using assms(2) inv by (cases rule: schedule_cases [of rehash fresh cluster k st request now])
      (use assms(4) in auto)
  moreover have "length (node_scores cluster) = length (filter (healthy \<circ> snd) (lc_nodes cluster))"
    by (simp add: node_scores_def comp_def case_prod_unfold)
  moreover have "\<exists>a. hm_get (lc_nodes cluster) n = Some a \<and> healthy a \<and>
      (\<forall>m b. hm_get (lc_nodes cluster) m = Some b \<longrightarrow> healthy b \<longrightarrow> m \<notin> set (selected cluster) \<longrightarrow>
        \<not> fl_less (calculate_node_score a) (calculate_node_score b))"
    if n: "n \<in> set (selected cluster)" for n
  proof -
    obtain a where a: "hm_get (lc_nodes cluster) n = Some a" "healthy a"
      using selected_facts(4) [OF assms(3) n] by (auto simp: healthy_def)
    with selected_facts(5) [OF assms(3) n a(1)] show ?thesis by (auto simp: healthy_def)
  qed
  ultimately show ?thesis
    using selected_facts(1,3) [OF assms(3)] by simp
qed

theorem schedule_selects_best_nodes_witness:
  "\<exists>session st'. sample_schedule 7 (scheduler_new sample_scheduling_cluster) = (Ok session, st') \<and>
     length (ss_assigned_nodes session) = 1"
proof -
  obtain session st' where ok: "sample_schedule 7 (scheduler_new sample_scheduling_cluster) = (Ok session, st')"
    using sample_scheduled by blast
  from schedule_selects_best_nodes [OF scheduler_reachable.initial iteration_order_id _ ok]
  have "length (ss_assigned_nodes session) = 1"
    by (simp add: sample_scheduling_cluster_def hm_ok_def)
  with ok show ?thesis by blast
qed

text \<open>
  C37.  Releasing what was scheduled restores the scheduler: scheduling a session
  under an id that is not stored and then releasing it gives back every
  session and every node's CPU, RAM and VRAM reservation.
\<close>

theorem schedule_release_roundtrip:
  assumes "scheduler_reachable fresh cluster st" and "iteration_order rehash"
    and "hm_get (sc_sessions st) (rq_session_id request) = None"
    and "schedule rehash now request st = (Ok session, st')"
    and "release_session (rq_session_id request) st' = (r, st'')"
  shows "r = Ok () \<and> hm_get (sc_sessions st'') = hm_get (sc_sessions st) \<and>
    (\<forall>n. na_cpu_percent (the_allocation (sc_node_allocations st'') n) =
           na_cpu_percent (the_allocation (sc_node_allocations st) n) \<and>
         na_ram_bytes (the_allocation (sc_node_allocations st'') n) =
           na_ram_bytes (the_allocation (sc_node_allocations st) n) \<and>
         na_vram_bytes (the_allocation (sc_node_allocations st'') n) =
           na_vram_bytes (the_allocation (sc_node_allocations st) n))"
proof -
  obtain k where inv: "scheduler_inv fresh cluster k st"
    using reachable_inv [OF assms(1)] by blast
  have inv': "scheduler_inv fresh cluster (Suc k) st'"
    using scheduler_inv_schedule [OF assms(2) inv _ assms(4)] assms(3) by simp
  have stored: "hm_get (sc_sessions st') = (hm_get (sc_sessions st))(rq_session_id request \<mapsto> session)"
    using assms(2) inv by (cases rule: schedule_cases [of rehash fresh cluster k st request now])
      (use assms(4) in \<open>auto simp: fun_eq_iff\<close>)
  have r: "r = Ok ()" and sessions: "hm_get (sc_sessions st'') = (hm_get (sc_sessions st'))(rq_session_id request := None)"
    using inv' by (cases rule: release_cases [of fresh cluster "Suc k" st' "rq_session_id request"];
        use assms(5) stored in \<open>auto simp: fun_eq_iff\<close>)+
  have inv'': "scheduler_inv fresh cluster k st''"
    using scheduler_inv_release [OF inv' assms(5)] r by simp
  have "the_allocation (sc_node_allocations s) n = empty_allocation \<and> n \<notin> set (selected cluster) \<or>
      carries k (the_allocation (sc_node_allocations s) n) \<and> n \<in> set (selected cluster)"
    if "scheduler_inv fresh cluster k s" for s n
  proof (cases "n \<in> set (selected cluster)")
    case True
    with that have "node_load (sc_node_allocations s) n k"
      by (auto simp: scheduler_inv_def dest: uniform_loadD(1))
    with True show ?thesis by (simp add: node_load_carries)
  next
    case False
    with that have "hm_get (sc_node_allocations s) n = None"
      by (auto simp: scheduler_inv_def dest: uniform_loadD(2))
    with False show ?thesis by (simp add: the_allocation_def)
  qed
  from this [OF inv] this [OF inv''] show ?thesis
    using r assms(3) unfolding carries_def by (auto simp: sessions stored fun_eq_iff) metis+
qed

theorem schedule_release_roundtrip_witness:
  "\<exists>session st'. sample_schedule 7 (scheduler_new sample_scheduling_cluster) = (Ok session, st') \<and>
     fst (release_session 7 st') = Ok ()"
proof -
  obtain session st' where ok: "sample_schedule 7 (scheduler_new sample_scheduling_cluster) = (Ok session, st')"
    using sample_scheduled by blast
  from schedule_release_roundtrip [OF scheduler_reachable.initial iteration_order_id _ ok surjective_pairing]
  have "fst (release_session 7 st') = Ok ()"
    by (simp add: scheduler_new_def)
  with ok show ?thesis by blast
qed

text \<open>
  Statistics: in every reachable state, with at most three nodes holding
  reservations, the totals are exact: the same \<open>k \<le> 3\<close> shares on each of the
  \<open>h \<le> 3\<close> nodes that hold one sum to \<open>30 * k * h\<close> percent of CPU, \<open>4 * k * h\<close> GiB
  of RAM and \<open>2 * k * h\<close> GiB of VRAM, with no rounding and no wrap-around.
\<close>

theorem stats_exact:
  assumes "scheduler_reachable fresh cluster st"
  shows "\<exists>k \<le> 3. let h = hm_len (sc_node_allocations st) in
    h \<le> 3 \<and> st_active_sessions (get_stats st) \<le> k \<and>
    st_total_allocated_cpu (get_stats st) = Fin (of_nat (30 * k * h)) \<and>
    unat (st_total_allocated_ram (get_stats st)) = 4 * 1024 ^ 3 * k * h \<and>
    unat (st_total_allocated_vram (get_stats st)) = 2 * 1024 ^ 3 * k * h"
proof -
  obtain k where inv: "scheduler_inv fresh cluster k st"
    using reachable_inv [OF assms] by blast
  let ?as = "hm_values (sc_node_allocations st)" and ?h = "hm_len (sc_node_allocations st)"
  have k: "k \<le> 3" and ok: "hm_ok (sc_node_allocations st)"
    and load: "uniform_load cluster k (sc_node_allocations st)" using inv by (simp_all add: scheduler_inv_def)
  have "set (hm_keys (sc_node_allocations st)) \<subseteq> set (selected cluster)"
    using uniform_loadD(2) [OF load] by (auto simp: hm_get_keys)
  then have "card (set (hm_keys (sc_node_allocations st))) \<le> length (selected cluster)"
    by (metis card_mono card_length order_trans List.finite_set)
  moreover have "card (set (hm_keys (sc_node_allocations st))) = ?h"
    using ok by (metis hm_ok_def hm_keys_def hm_len_def distinct_card length_map)
  moreover have "length (selected cluster) \<le> 3"
    by (rule selected_sorted [of cluster]) simp
  ultimately have h: "?h \<le> 3" by simp
  have all: "\<forall>a \<in> set ?as. carries k a"
    using uniform_loadD(3) [OF load] by (auto simp: hm_values_def simp flip: hm_get_mem [OF ok])
  have len: "length ?as = ?h" by (simp add: hm_values_def hm_len_def)
  have kh: "k * ?h \<le> 9" using mult_mono [OF k h] by simp
  have "st_total_allocated_cpu (get_stats st) = Fin (of_nat (30 * k * ?h))"
    using foldl_cpu_exact [OF all, of 0] kh by (simp add: get_stats_def len)
  moreover have "unat (of_nat (4294967296 * k * ?h) :: u64) = 4294967296 * k * ?h"
    "unat (of_nat (2147483648 * k * ?h) :: u64) = 2147483648 * k * ?h"
    using kh by (intro unat_of_nat_exact; simp)+
  ultimately show ?thesis
    using k h inv sum_ram_exact [OF all]
    by (intro exI [of _ k]) (simp add: Let_def len get_stats_def scheduler_inv_def)
qed

theorem stats_exact_witness:
  "\<exists>k \<le> 3. let h = hm_len (sc_node_allocations (snd (sample_schedule 7 (scheduler_new sample_scheduling_cluster)))) in
    h \<le> 3 \<and> st_active_sessions (get_stats (snd (sample_schedule 7 (scheduler_new sample_scheduling_cluster)))) \<le> k \<and>
    st_total_allocated_cpu (get_stats (snd (sample_schedule 7 (scheduler_new sample_scheduling_cluster)))) = Fin (of_nat (30 * k * h)) \<and>
    unat (st_total_allocated_ram (get_stats (snd (sample_schedule 7 (scheduler_new sample_scheduling_cluster))))) = 4 * 1024 ^ 3 * k * h \<and>
    unat (st_total_allocated_vram (get_stats (snd (sample_schedule 7 (scheduler_new sample_scheduling_cluster))))) = 2 * 1024 ^ 3 * k * h"
  by (rule stats_exact [OF sample_schedule_reachable [OF scheduler_reachable.initial]])

text \<open>
  Scheduling an id twice loses a share for good: after scheduling the same
  session id twice and releasing it, no session is stored under the id, a
  further release of it fails, and every selected node still carries the share
  that was reserved first.
\<close>

theorem duplicate_id_leaks_share:
  assumes "scheduler_reachable False cluster st" and "iteration_order rehash"
    and "schedule rehash now request st = (Ok session, st1)"
    and "schedule rehash now request st1 = (Ok session2, st2)"
    and "release_session (rq_session_id request) st2 = (r, st3)"
    and "n \<in> set (ss_assigned_nodes session)"
  shows "hm_get (sc_sessions st3) (rq_session_id request) = None \<and>
    fst (release_session (rq_session_id request) st3) = Err SessionNotFound \<and>
    (\<exists>k. na_cpu_percent (the_allocation (sc_node_allocations st) n) = Fin (of_nat (30 * k)) \<and>
         na_cpu_percent (the_allocation (sc_node_allocations st3) n) = Fin (of_nat (30 * (k + 1))))"
proof -
  obtain k where inv: "scheduler_inv False cluster k st"
    using reachable_inv [OF assms(1)] by blast
  have n: "n \<in> set (selected cluster)"
    using assms(2) inv by (cases rule: schedule_cases [of rehash False cluster k st request now])
      (use assms(3,6) in auto)
  have inv1: "scheduler_inv False cluster (Suc k) st1"
    using scheduler_inv_schedule [OF assms(2) inv _ assms(3)] by simp
  have inv2: "scheduler_inv False cluster (Suc (Suc k)) st2"
    using scheduler_inv_schedule [OF assms(2) inv1 _ assms(4)] by simp
  have stored: "hm_get (sc_sessions st2) (rq_session_id request) = Some session2"
    using assms(2) inv1 by (cases rule: schedule_cases [of rehash False cluster "Suc k" st1 request now])
      (use assms(4) in auto)
  have r: "r = Ok ()" and gone: "hm_get (sc_sessions st3) (rq_session_id request) = None"
    using assms(5) stored by (auto simp: release_session_def)
  have inv3: "scheduler_inv False cluster (Suc k) st3"
    using scheduler_inv_release [OF inv2 assms(5)] r by simp
  have "carries j (the_allocation (sc_node_allocations s) n)" if "scheduler_inv False cluster j s" for j s
    using that n by (auto simp: scheduler_inv_def intro!: node_load_carries dest: uniform_loadD(1))
  from this [OF inv] this [OF inv3] gone show ?thesis
    by (auto simp: carries_def release_session_def intro!: exI [of _ k])
qed

theorem duplicate_id_leaks_share_witness:
  "\<exists>session st1 session2 st2.
     sample_schedule 7 (scheduler_new sample_scheduling_cluster) = (Ok session, st1) \<and>
     sample_schedule 7 st1 = (Ok session2, st2) \<and>
     hm_get (sc_sessions (snd (release_session 7 st2))) 7 = None \<and>
     na_cpu_percent (the_allocation (sc_node_allocations (snd (release_session 7 st2))) 1) = Fin 30"
proof -
  obtain session st1 where one: "sample_schedule 7 (scheduler_new sample_scheduling_cluster) = (Ok session, st1)"
    and node: "ss_assigned_nodes session = [1]"
    using sample_scheduled by blast
  have "scheduler_inv False sample_scheduling_cluster 1 st1"
    using scheduler_inv_schedule [OF iteration_order_id scheduler_inv_new _ one] by simp
  then obtain session2 st2 where two: "sample_schedule 7 st1 = (Ok session2, st2)"
    using sample_schedule_ok by fastforce
  from duplicate_id_leaks_share [OF scheduler_reachable.initial iteration_order_id one two surjective_pairing]
  have "hm_get (sc_sessions (snd (release_session 7 st2))) 7 = None \<and>
     na_cpu_percent (the_allocation (sc_node_allocations (snd (release_session 7 st2))) 1) = Fin 30"
    by (auto simp: node scheduler_new_def the_allocation_def empty_allocation_def)
  with one two show ?thesis by blast
qed

end
