(* ===== verification/Bytes.thy ===== *)
theory Bytes
  imports Prelude
begin

text \<open>
  Bytes as the wire and file formats use them: fixed-width little- and
  big-endian integers, and UTF-8 as \<open>String::from_utf8\<close> (which refuses) and
  \<open>String::from_utf8_lossy\<close> (which repairs) read it.  A Rust \<open>String\<close> is the
  list of its UTF-8 bytes.
\<close>

section \<open>Integers\<close>

fun le_nat :: "u8 list \<Rightarrow> nat" where
  "le_nat [] = 0"
| "le_nat (b # bs) = unat b + 256 * le_nat bs"

fun le_bytes :: "nat \<Rightarrow> nat \<Rightarrow> u8 list" where
  "le_bytes 0 x = []"
| "le_bytes (Suc n) x = word_of_nat (x mod 256) # le_bytes n (x div 256)"

definition be_nat :: "u8 list \<Rightarrow> nat" where
  "be_nat bs = le_nat (rev bs)"

definition be_bytes :: "nat \<Rightarrow> nat \<Rightarrow> u8 list" where
  "be_bytes n x = rev (le_bytes n x)"

lemma le_bytes_length [simp]: "length (le_bytes n x) = n"
  by (induction n arbitrary: x) auto

lemma be_bytes_length [simp]: "length (be_bytes n x) = n"
  by (simp add: be_bytes_def)

lemma unat_byte [simp]: "unat (word_of_nat (x mod 256) :: u8) = x mod 256"
  by (rule unat_of_nat_exact) simp

lemma le_nat_bytes: "x < 256 ^ n \<Longrightarrow> le_nat (le_bytes n x) = x"
proof (induction n arbitrary: x)
  case (Suc n)
  then have "x div 256 < 256 ^ n" by (simp add: less_mult_imp_div_less)
  with Suc.IH show ?case by simp
qed simp

lemma be_nat_bytes: "x < 256 ^ n \<Longrightarrow> be_nat (be_bytes n x) = x"
  by (simp add: be_nat_def be_bytes_def le_nat_bytes)

lemma le_nat_less: "le_nat bs < 256 ^ length bs"
proof (induction bs)
  case (Cons b bs)
  have "unat b < 256" using unat_bound [of b] by simp
  with Cons show ?case by simp
qed simp

lemma le_nat_append: "le_nat (as @ bs) = le_nat as + 256 ^ length as * le_nat bs"
  by (induction as) (auto simp: algebra_simps)

text \<open>The leading bytes of a big-endian number are its high digits.\<close>

lemma le_bytes_drop: "le_bytes (m + n) x = le_bytes m x @ le_bytes n (x div 256 ^ m)"
  by (induction m arbitrary: x) (simp_all add: div_mult2_eq)

lemma be_bytes_take: "take n (be_bytes (m + n) x) = be_bytes n (x div 256 ^ m)"
  by (simp add: be_bytes_def le_bytes_drop)

lemma be_nat_snoc: "be_nat (bs @ [b]) = 256 * be_nat bs + unat b"
  by (simp add: be_nat_def)

section \<open>UTF-8\<close>

definition byte_at :: "nat \<Rightarrow> u8 list \<Rightarrow> u8" where
  "byte_at i bs = (if i < length bs then bs ! i else 0)"

definition continuation :: "u8 \<Rightarrow> bool" where
  "continuation b \<longleftrightarrow> 0x80 \<le> b \<and> b \<le> 0xBF"

text \<open>
  The next chunk of a non-empty byte string: its length, and whether it is the
  encoding of a character or a maximal ill-formed prefix.
\<close>

definition utf8_chunk :: "u8 \<Rightarrow> u8 \<Rightarrow> u8 \<Rightarrow> u8 \<Rightarrow> nat \<times> bool" where
  "utf8_chunk a b c d =
     (if a < 0x80 then (1, True)
      else if 0xC2 \<le> a \<and> a \<le> 0xDF then (if continuation b then (2, True) else (1, False))
      else if 0xE0 \<le> a \<and> a \<le> 0xEF then
        (if \<not> (continuation b \<and> (a = 0xE0 \<longrightarrow> 0xA0 \<le> b) \<and> (a = 0xED \<longrightarrow> b \<le> 0x9F)) then (1, False)
         else if \<not> continuation c then (2, False) else (3, True))
      else if 0xF0 \<le> a \<and> a \<le> 0xF4 then
        (if \<not> (continuation b \<and> (a = 0xF0 \<longrightarrow> 0x90 \<le> b) \<and> (a = 0xF4 \<longrightarrow> b \<le> 0x8F)) then (1, False)
         else if \<not> continuation c then (2, False)
         else if \<not> continuation d then (3, False) else (4, True))
      else (1, False))"

definition utf8_step :: "u8 list \<Rightarrow> nat \<times> bool" where
  "utf8_step bs = utf8_chunk (byte_at 0 bs) (byte_at 1 bs) (byte_at 2 bs) (byte_at 3 bs)"

lemma utf8_step_pos [simp]: "0 < fst (utf8_step bs)"
  by (simp add: utf8_step_def utf8_chunk_def)

function utf8_valid :: "u8 list \<Rightarrow> bool" where
  "utf8_valid bs =
     (if bs = [] then True
      else if snd (utf8_step bs) then utf8_valid (drop (fst (utf8_step bs)) bs)
      else False)"
  by pat_completeness auto
termination
  by (relation "measure length") (simp_all add: diff_less)

function utf8_lossy :: "u8 list \<Rightarrow> u8 list" where
  "utf8_lossy bs =
     (if bs = [] then []
      else (if snd (utf8_step bs) then take (fst (utf8_step bs)) bs else [0xEF, 0xBF, 0xBD])
        @ utf8_lossy (drop (fst (utf8_step bs)) bs))"
  by pat_completeness auto
termination
  by (relation "measure length") (simp_all add: diff_less)

declare utf8_valid.simps [simp del] utf8_lossy.simps [simp del]

lemma utf8_valid_Nil [simp]: "utf8_valid []"
  by (subst utf8_valid.simps) simp

lemma utf8_lossy_Nil [simp]: "utf8_lossy [] = []"
  by (subst utf8_lossy.simps) simp

lemma utf8_lossy_valid: "utf8_valid bs \<Longrightarrow> utf8_lossy bs = bs"
proof (induction bs rule: utf8_valid.induct)
  case (1 bs)
  show ?case
  proof (cases "bs = []")
    case False
    with "1.prems" have "snd (utf8_step bs)" "utf8_valid (drop (fst (utf8_step bs)) bs)"
      by (simp_all add: utf8_valid.simps [of bs] split: if_splits)
    with False "1.IH" show ?thesis
      by (simp add: utf8_lossy.simps [of bs])
  qed simp
qed

text \<open>A well-formed character is recognised whatever follows it.\<close>

lemma utf8_chunk_prefix:
  assumes "utf8_chunk a b c d = (n, True)"
    and "1 < n \<longrightarrow> b' = b" and "2 < n \<longrightarrow> c' = c" and "3 < n \<longrightarrow> d' = d"
  shows "utf8_chunk a b' c' d' = (n, True)"
  using assms by (auto simp: utf8_chunk_def split: if_splits)

lemma utf8_step_prefix:
  assumes "utf8_step as = (n, True)" and "n \<le> length as"
  shows "utf8_step (as @ bs) = (n, True)"
proof -
  have same: "i < length as \<Longrightarrow> byte_at i (as @ bs) = byte_at i as" for i
    by (simp add: byte_at_def nth_append)
  have "0 < n" using utf8_step_pos [of as] assms(1) by simp
  with assms(2) have "0 < length as" "1 < n \<longrightarrow> 1 < length as" "2 < n \<longrightarrow> 2 < length as"
    "3 < n \<longrightarrow> 3 < length as" by linarith+
  then have eq: "byte_at 0 (as @ bs) = byte_at 0 as" "1 < n \<longrightarrow> byte_at 1 (as @ bs) = byte_at 1 as"
    "2 < n \<longrightarrow> byte_at 2 (as @ bs) = byte_at 2 as" "3 < n \<longrightarrow> byte_at 3 (as @ bs) = byte_at 3 as"
    using same [of 0] same [of 1] same [of 2] same [of 3] by (auto simp only:)
  show ?thesis
    using utf8_chunk_prefix [OF assms(1) [unfolded utf8_step_def] eq(2-4)]
    by (simp only: utf8_step_def eq(1))
qed

lemma utf8_chunk_inside:
  assumes "utf8_chunk a b c d = (n, True)"
  shows "n \<le> 4" and "1 < n \<longrightarrow> b \<noteq> 0" and "2 < n \<longrightarrow> c \<noteq> 0" and "3 < n \<longrightarrow> d \<noteq> 0"
  using assms by (auto simp: utf8_chunk_def continuation_def split: if_splits)

lemma utf8_step_inside:
  assumes "utf8_step bs = (n, True)" and "bs \<noteq> []"
  shows "n \<le> length bs"
proof (rule ccontr)
  assume "\<not> n \<le> length bs"
  moreover have "0 < length bs" using assms(2) by simp
  moreover note utf8_chunk_inside [OF assms(1) [unfolded utf8_step_def]]
  ultimately consider "length bs = 1" "1 < n" | "length bs = 2" "2 < n" | "length bs = 3" "3 < n" by linarith
  then show False
    using utf8_chunk_inside [OF assms(1) [unfolded utf8_step_def]] by cases (auto simp: byte_at_def)
qed

lemma utf8_valid_append: "utf8_valid as \<Longrightarrow> utf8_valid bs \<Longrightarrow> utf8_valid (as @ bs)"
proof (induction as rule: utf8_valid.induct)
  case (1 as)
  show ?case
  proof (cases "as = []")
    case False
    obtain n where step: "utf8_step as = (n, True)" and rest: "utf8_valid (drop n as)"
      using "1.prems"(1) False
      by (subst (asm) utf8_valid.simps) (cases "utf8_step as"; auto split: if_splits simp del: utf8_valid.simps)
    have n: "n \<le> length as" by (rule utf8_step_inside [OF step False])
    have "utf8_valid (drop n as @ bs)"
      using "1.IH" False step rest "1.prems"(2) by simp
    with n False utf8_step_prefix [OF step n] show ?thesis
      by (subst utf8_valid.simps) simp
  qed (use "1.prems" in simp)
qed

text \<open>An ASCII byte is a character of its own.\<close>

lemma utf8_step_ascii: "b < 0x80 \<Longrightarrow> utf8_step (b # bs) = (1, True)"
  by (simp add: utf8_step_def utf8_chunk_def byte_at_def)

lemma utf8_valid_ascii: "\<forall>b \<in> set bs. b < 0x80 \<Longrightarrow> utf8_valid bs"
proof (induction bs)
  case (Cons b bs)
  then show ?case
    by (subst utf8_valid.simps) (simp add: utf8_step_ascii)
qed simp

text \<open>The bytes of an ASCII literal.\<close>

definition ascii :: "string \<Rightarrow> u8 list" where
  "ascii s = map (\<lambda>c. word_of_nat (of_char c)) s"

text \<open>\<open>trim_end_matches('\0')\<close>.\<close>

definition trim_end_zeros :: "u8 list \<Rightarrow> u8 list" where
  "trim_end_zeros bs = rev (dropWhile (\<lambda>b. b = 0) (rev bs))"

lemma trim_end_zeros_padded: "bs = [] \<or> last bs \<noteq> 0 \<Longrightarrow> trim_end_zeros (bs @ replicate n 0) = bs"
proof -
  have "dropWhile (\<lambda>b. b = 0) (replicate n 0 @ rev bs) = dropWhile (\<lambda>b. b = 0) (rev bs)"
    by (induction n) auto
  moreover assume "bs = [] \<or> last bs \<noteq> 0"
  ultimately show ?thesis
    by (cases bs rule: rev_cases) (auto simp: trim_end_zeros_def)
qed

text \<open>The decimal rendering of an integer, as \<open>{}\<close> formats it.\<close>

fun digits :: "nat \<Rightarrow> string" where
  "digits n = (if n < 10 then [char_of (48 + n)] else digits (n div 10) @ [char_of (48 + n mod 10)])"

declare digits.simps [simp del]

definition show_int :: "int \<Rightarrow> string" where
  "show_int i = (if i < 0 then CHR ''-'' # digits (nat (- i)) else digits (nat i))"

lemma digits_not_Nil [simp]: "digits n \<noteq> []"
  by (subst digits.simps) simp

lemma digits_range: "c \<in> set (digits n) \<Longrightarrow> of_char c \<in> {48..57::nat}"
proof (induction n rule: digits.induct)
  case (1 n)
  then show ?case by (subst (asm) (2) digits.simps) (auto split: if_splits)
qed

definition digits_value :: "string \<Rightarrow> nat" where
  "digits_value = foldl (\<lambda>a c. 10 * a + (of_char c - 48)) 0"

lemma digits_value [simp]: "digits_value (digits n) = n"
proof (induction n rule: digits.induct)
  case (1 n)
  have "of_char (char_of (48 + d) :: char) = 48 + d" if "d < 10" for d :: nat
    using that by (simp add: of_char_of [where 'a = nat])
  with 1 show ?case
    by (subst digits.simps) (simp add: digits_value_def)
qed

lemma digits_inject: "digits m = digits n \<longleftrightarrow> m = n"
  by (metis digits_value)

lemma digits_no_char: "of_char c \<notin> {48..57::nat} \<Longrightarrow> c \<notin> set (digits n)"
  using digits_range by blast

lemma show_int_inject: "show_int i = show_int j \<longleftrightarrow> i = j"
proof
  have minus: "CHR ''-'' # ds \<noteq> digits n" for ds n
    using digits_no_char [of "CHR ''-''" n] by (auto dest: sym)
  assume "show_int i = show_int j"
  then show "i = j"
    by (auto simp: show_int_def digits_inject minus minus [symmetric] split: if_splits)
qed simp

lemma show_int_no_colon: "CHR '':'' \<notin> set (show_int i)"
  using digits_no_char [of "CHR '':''"] by (simp add: show_int_def)

lemma ascii_inject: "ascii s = ascii t \<longleftrightarrow> s = t"
proof -
  have "inj (\<lambda>c. word_of_nat (of_char c) :: u8)"
  proof (rule injI)
    fix c d :: char
    assume "(word_of_nat (of_char c) :: u8) = word_of_nat (of_char d)"
    then have "unat (word_of_nat (of_char c) :: u8) = unat (word_of_nat (of_char d) :: u8)" by simp
    then have "(of_char c :: nat) = of_char d"
      by (simp add: unat_of_nat_exact)
    then show "c = d" by simp
  qed
  then show ?thesis by (simp add: ascii_def)
qed

end
