(* ===== verification/Tcp_Transport.thy ===== *)
theory Tcp_Transport
  imports Bytes
begin

text \<open>
  The TCP data plane, \<open>transports/tcp/src/lib.rs\<close>: the 24-byte header, the
  receive loop, acknowledgements, the connection counter and the client.

  A connection is the bytes the peer will send before it closes or resets, how
  the network cuts them into reads, and the bytes written so far.  The chunking
  is arbitrary: every statement quantifies over it.
\<close>

section \<open>Streams\<close>

datatype tcp_error =
    BindFailed string
  | ConnectFailed string
  | ConnectionClosed
  | TransferFailed string
  | InvalidMessage u8
  | TcpIo
  | TcpInternal string

record tcp_stream =
  ts_rx :: "u8 list"
  ts_chunks :: "nat list"
  ts_reset :: bool
  ts_tx :: "u8 list"
  ts_broken :: bool

text \<open>
  \<open>stream.read(buf)\<close> for a buffer of \<open>n\<close> bytes: some of the bytes that have
  arrived, at least one; nothing at the end of the stream; an error after a
  reset.
\<close>

definition stream_read :: "nat \<Rightarrow> (tcp_stream, tcp_error, u8 list) action" where
  "stream_read n s =
     (if n = 0 then (Ok [], s)
      else if ts_rx s = [] then (if ts_reset s then (Err TcpIo, s) else (Ok [], s))
      else
        let chunk = (case ts_chunks s of [] \<Rightarrow> n | c # _ \<Rightarrow> max 1 c);
            k = min (min n chunk) (length (ts_rx s))
        in (Ok (take k (ts_rx s)), s\<lparr>ts_rx := drop k (ts_rx s), ts_chunks := tl (ts_chunks s)\<rparr>))"

text \<open>\<open>read_exact\<close> and \<open>write_all\<close>.\<close>

definition stream_read_exact :: "nat \<Rightarrow> (tcp_stream, tcp_error, u8 list) action" where
  "stream_read_exact n s =
     (if n \<le> length (ts_rx s) then (Ok (take n (ts_rx s)), s\<lparr>ts_rx := drop n (ts_rx s)\<rparr>)
      else (Err TcpIo, s\<lparr>ts_rx := []\<rparr>))"

definition stream_write_all :: "u8 list \<Rightarrow> (tcp_stream, tcp_error, unit) action" where
  "stream_write_all bs s = (if ts_broken s then (Err TcpIo, s) else (Ok (), s\<lparr>ts_tx := ts_tx s @ bs\<rparr>))"

section \<open>Headers\<close>

record tcp_config =
  tc_bind_address :: string
  tc_max_connections :: usize
  tc_buffer_size :: usize
  tc_timeout_secs :: u64

definition tcp_config_default :: tcp_config where
  "tcp_config_default = \<lparr>tc_bind_address = ''0.0.0.0:0'', tc_max_connections = 100,
     tc_buffer_size = 64 * 1024, tc_timeout_secs = 30\<rparr>"

datatype message_type = TensorTransfer | Ping | Ack

fun message_type_from_u8 :: "u8 \<Rightarrow> (tcp_error, message_type) outcome" where
  "message_type_from_u8 v =
     (if v = 0 then Ok TensorTransfer else if v = 1 then Ok Ping else if v = 2 then Ok Ack
      else Err (InvalidMessage v))"

fun message_type_as_u8 :: "message_type \<Rightarrow> u8" where
  "message_type_as_u8 TensorTransfer = 0"
| "message_type_as_u8 Ping = 1"
| "message_type_as_u8 Ack = 2"

record message_header =
  mh_message_type :: message_type
  mh_tensor_id :: "u8 list"
  mh_payload_length :: u64

text \<open>The length field is seven bytes; the low byte of the 64-bit length is zero.\<close>

definition parse_header :: "u8 list \<Rightarrow> (tcp_error, message_header) outcome" where
  "parse_header buf =
     bind_outcome (message_type_from_u8 (buf ! 0)) (\<lambda>message_type.
       Ok \<lparr>mh_message_type = message_type,
           mh_tensor_id = trim_end_zeros (utf8_lossy (take 16 (drop 1 buf))),
           mh_payload_length = word_of_nat (be_nat (take 7 (drop 17 buf) @ [0]))\<rparr>)"

definition read_header :: "(tcp_stream, tcp_error, message_header) action" where
  "read_header = bind_action (stream_read_exact 24) (\<lambda>buf. lift_outcome (parse_header buf))"

text \<open>
  The buffer \<open>write_header\<close> fills.  The range \<open>17..25\<close> is one byte longer than
  the buffer.
\<close>

definition header_bytes :: "message_header \<Rightarrow> (tcp_error, u8 list) outcome" where
  "header_bytes header =
     (let buf = (replicate 24 0)[0 := message_type_as_u8 (mh_message_type header)];
          n = min (length (mh_tensor_id header)) 16
      in bind_outcome (slice_to n (mh_tensor_id header)) (\<lambda>tensor_id.
         bind_outcome (copy_into 1 (1 + n) tensor_id buf) (\<lambda>buf.
         bind_outcome (slice_to 7 (be_bytes 8 (unat (mh_payload_length header)))) (\<lambda>length_bytes.
           copy_into 17 25 length_bytes buf))))"

definition write_header :: "message_header \<Rightarrow> (tcp_stream, tcp_error, unit) action" where
  "write_header header = bind_action (lift_outcome (header_bytes header)) stream_write_all"

section \<open>Receiving\<close>

lemma stream_read_shrinks:
  "stream_read n s = (Ok data, s') \<Longrightarrow> data \<noteq> [] \<Longrightarrow> length (ts_rx s') < length (ts_rx s)"
  by (auto simp: stream_read_def Let_def split: if_splits list.splits)

text \<open>
  The receive loop, with \<open>received\<close> bytes received so far: the lengths are kept
  in \<open>u64\<close>; the loop ends because every read takes a byte of the stream.
\<close>

function receive_loop :: "usize \<Rightarrow> u64 \<Rightarrow> u64 \<Rightarrow> (tcp_stream, tcp_error, u64) action" where
  "receive_loop buffer_len payload received s =
     (if received < payload then
        (case stream_read (min (unat buffer_len) (unat (payload - received))) s of
           (Err e, s') \<Rightarrow> (Err e, s')
         | (Panic p, s') \<Rightarrow> (Panic p, s')
         | (Ok data, s') \<Rightarrow>
             if data = [] then (Err ConnectionClosed, s')
             else receive_loop buffer_len payload (received + word_of_nat (length data)) s')
      else (Ok received, s))"
  by pat_completeness auto

termination
  by (relation "measure (\<lambda>(_, _, _, s). length (ts_rx s))") (auto dest: stream_read_shrinks [OF sym])

declare receive_loop.simps [simp del]

definition send_ack :: "bool \<Rightarrow> (tcp_stream, tcp_error, unit) action" where
  "send_ack success = stream_write_all [if success then 1 else 0]"

definition handle_tensor_transfer :: "tcp_config \<Rightarrow> message_header \<Rightarrow> (tcp_stream, tcp_error, unit) action" where
  "handle_tensor_transfer config header =
     (if 2 ^ 63 \<le> tc_buffer_size config then lift_outcome (Panic Capacity_Overflow)
      else bind_action (receive_loop (tc_buffer_size config) (mh_payload_length header) 0)
        (\<lambda>_. send_ack True))"

definition handle_ping :: "(tcp_stream, tcp_error, unit) action" where
  "handle_ping = write_header \<lparr>mh_message_type = Ack, mh_tensor_id = [], mh_payload_length = 0\<rparr>"

text \<open>
  A connection handler, on the shared counter of active connections and its
  stream.  An error or a panic skips the decrement at the end.
\<close>

definition handle_connection :: "tcp_config \<Rightarrow> usize \<Rightarrow> tcp_stream \<Rightarrow>
    (tcp_error, unit) outcome \<times> usize \<times> tcp_stream" where
  "handle_connection config active s =
     (let active = active + 1;
          (r, s') = bind_action read_header (\<lambda>header.
            case mh_message_type header of
              TensorTransfer \<Rightarrow> handle_tensor_transfer config header
            | Ping \<Rightarrow> handle_ping
            | Ack \<Rightarrow> return_action ()) s
      in (r, if is_ok r then saturating_sub active 1 else active, s'))"

text \<open>The server: every accepted connection is handled in a task of its own.\<close>

fun serve :: "tcp_config \<Rightarrow> usize \<Rightarrow> tcp_stream list \<Rightarrow> (tcp_error, unit) outcome list \<times> usize" where
  "serve config active [] = ([], active)"
| "serve config active (s # streams) =
     (let (r, active, _) = handle_connection config active s;
          (rs, active) = serve config active streams
      in (r # rs, active))"

record transport_stats =
  ts_active_connections :: usize
  ts_max_connections :: usize

definition tcp_get_stats :: "tcp_config \<Rightarrow> usize \<Rightarrow> transport_stats" where
  "tcp_get_stats config active =
     \<lparr>ts_active_connections = active, ts_max_connections = tc_max_connections config\<rparr>"

text \<open>
  The service: its configuration and the counter, which all clones share.  A
  handler's clone is the same service.
\<close>

record tcp_transport =
  tt_config :: tcp_config
  tt_active_connections :: usize

definition tcp_transport_new :: "tcp_config \<Rightarrow> tcp_transport" where
  "tcp_transport_new config = \<lparr>tt_config = config, tt_active_connections = 0\<rparr>"

definition clone_for_handler :: "tcp_transport \<Rightarrow> tcp_transport" where
  "clone_for_handler t = \<lparr>tt_config = tt_config t, tt_active_connections = tt_active_connections t\<rparr>"

text \<open>The streams of the connections the service accepts, one after the other.\<close>

definition transport_serve ::
  "tcp_stream list \<Rightarrow> tcp_transport \<Rightarrow> (tcp_error, unit) outcome list \<times> tcp_transport" where
  "transport_serve streams t =
     (case serve (tt_config (clone_for_handler t)) (tt_active_connections (clone_for_handler t)) streams of
        (rs, active) \<Rightarrow> (rs, t\<lparr>tt_active_connections := active\<rparr>))"

definition transport_stats_of :: "tcp_transport \<Rightarrow> transport_stats" where
  "transport_stats_of t = tcp_get_stats (tt_config t) (tt_active_connections t)"

section \<open>The client\<close>

text \<open>A connection attempt ends in an error or a stream: the argument \<open>dial\<close>.\<close>

record tcp_client =
  tk_stream :: tcp_stream
  tk_buffer_size :: usize

definition tcp_connect :: "(string \<Rightarrow> string + tcp_stream) \<Rightarrow> tcp_transport \<Rightarrow> string \<Rightarrow> (tcp_error, tcp_client) outcome" where
  "tcp_connect dial t addr =
     (case dial addr of
        Inl e \<Rightarrow> Err (ConnectFailed e)
      | Inr stream \<Rightarrow> Ok \<lparr>tk_stream = stream, tk_buffer_size = tc_buffer_size (tt_config t)\<rparr>)"

text \<open>The client's own copy of \<open>write_header\<close>, on the same buffer.\<close>

definition client_write_header :: "message_header \<Rightarrow> (tcp_stream, tcp_error, unit) action" where
  "client_write_header header = bind_action (lift_outcome (header_bytes header)) stream_write_all"

definition send_tensor :: "u8 list \<Rightarrow> u8 list \<Rightarrow> (tcp_stream, tcp_error, unit) action" where
  "send_tensor tensor_id data =
     bind_action (client_write_header \<lparr>mh_message_type = TensorTransfer, mh_tensor_id = tensor_id,
         mh_payload_length = word_of_nat (length data)\<rparr>) (\<lambda>_.
     bind_action (stream_write_all data) (\<lambda>_.
     bind_action (stream_read_exact 1) (\<lambda>ack.
       if ack ! 0 \<noteq> 1 then fail_action (TransferFailed ''Remote acknowledged failure'')
       else return_action ())))"

definition client_ping :: "(tcp_stream, tcp_error, unit) action" where
  "client_ping =
     bind_action (client_write_header \<lparr>mh_message_type = Ping, mh_tensor_id = [], mh_payload_length = 0\<rparr>) (\<lambda>_.
     bind_action (stream_read_exact 24) (\<lambda>_. return_action ()))"

section \<open>The receive loop\<close>

lemma stream_read_data:
  assumes "0 < n" and "ts_rx s \<noteq> []"
  obtains k chunks where "0 < k" "k \<le> n" "k \<le> length (ts_rx s)"
    "stream_read n s = (Ok (take k (ts_rx s)), s\<lparr>ts_rx := drop k (ts_rx s), ts_chunks := chunks\<rparr>)"
proof -
  let ?k = "min (min n (case ts_chunks s of [] \<Rightarrow> n | c # _ \<Rightarrow> max 1 c)) (length (ts_rx s))"
  have "0 < ?k" using assms by (auto split: list.split)
  then show ?thesis
    using assms by (intro that [of ?k "tl (ts_chunks s)"]) (simp_all add: stream_read_def Let_def)
qed

text \<open>Whatever the chunking, the loop takes exactly the missing bytes.\<close>

lemma receive_loop_receives:
  assumes "buffer_len \<noteq> 0" and "received \<le> payload"
    and "unat payload - unat received \<le> length (ts_rx s)"
  shows "\<exists>chunks. receive_loop buffer_len payload received s =
    (Ok payload, s\<lparr>ts_rx := drop (unat payload - unat received) (ts_rx s), ts_chunks := chunks\<rparr>)"
  using assms
proof (induction buffer_len payload received s rule: receive_loop.induct)
  case (1 buffer_len payload received s)
  show ?case
  proof (cases "received < payload")
    case False
    with "1.prems" have "received = payload" by simp
    then show ?thesis
      by (subst receive_loop.simps) (simp add: exI [of _ "ts_chunks s"])
  next
    case True
    let ?n = "min (unat buffer_len) (unat (payload - received))"
    have diff: "unat (payload - received) = unat payload - unat received"
      using True by (intro unat_minus_exact) (simp add: word_less_nat_alt)
    have gap: "unat received < unat payload" using True by (simp add: word_less_nat_alt)
    have "0 < ?n" using "1.prems"(1) gap diff by (simp add: unat_gt_0)
    moreover have "ts_rx s \<noteq> []" using "1.prems"(3) gap by auto
    ultimately obtain k chunks where k: "0 < k" "k \<le> ?n" "k \<le> length (ts_rx s)"
      and read: "stream_read ?n s = (Ok (take k (ts_rx s)), s\<lparr>ts_rx := drop k (ts_rx s), ts_chunks := chunks\<rparr>)"
      by (rule stream_read_data)
    let ?s' = "s\<lparr>ts_rx := drop k (ts_rx s), ts_chunks := chunks\<rparr>"
    let ?received = "received + word_of_nat (length (take k (ts_rx s)))"
    have len: "length (take k (ts_rx s)) = k" using k(3) by simp
    have kle: "unat received + k \<le> unat payload" using k(2) diff gap by (simp add: le_diff_conv2)
    have "k < 2 ^ 64" using k(2) unat_bound [of "payload - received"] by simp
    then have "unat (word_of_nat k :: u64) = k" by (intro unat_of_nat_exact) simp
    then have r: "unat ?received = unat received + k"
      unfolding len using kle gap unat_bound [of payload] by (subst unat_plus_exact) simp_all
    have data: "take k (ts_rx s) \<noteq> []" using k(1,3) by auto
    have "?received \<le> payload" using r kle unfolding word_le_nat_alt by linarith
    moreover have "unat payload - unat ?received \<le> length (ts_rx ?s')"
      using r "1.prems"(3) by simp
    ultimately obtain chunks' where "receive_loop buffer_len payload ?received ?s' =
        (Ok payload, ?s'\<lparr>ts_rx := drop (unat payload - unat ?received) (ts_rx ?s'), ts_chunks := chunks'\<rparr>)"
      using "1.IH" [OF True read [symmetric] refl data "1.prems"(1)] by blast
    moreover have "receive_loop buffer_len payload received s = receive_loop buffer_len payload ?received ?s'"
      using True data by (subst receive_loop.simps) (simp add: read)
    moreover have "unat payload - unat ?received + k = unat payload - unat received"
      using r kle by linarith
    then have "drop (unat payload - unat ?received) (ts_rx ?s') = drop (unat payload - unat received) (ts_rx s)"
      by simp
    ultimately show ?thesis by (intro exI [of _ chunks']) simp
  qed
qed

text \<open>When the peer closes early the loop reports it.\<close>

lemma receive_loop_closed:
  assumes "received \<le> payload" and "length (ts_rx s) < unat payload - unat received"
  shows "\<exists>e s'. receive_loop buffer_len payload received s = (Err e, s') \<and> ts_tx s' = ts_tx s \<and>
    e = (if ts_reset s \<and> buffer_len \<noteq> 0 then TcpIo else ConnectionClosed)"
  using assms
proof (induction buffer_len payload received s rule: receive_loop.induct)
  case (1 buffer_len payload received s)
  have gap: "unat received < unat payload" using "1.prems"(2) by simp
  then have True: "received < payload" by (simp add: word_less_nat_alt)
  let ?n = "min (unat buffer_len) (unat (payload - received))"
  have diff: "unat (payload - received) = unat payload - unat received"
    using gap by (intro unat_minus_exact) simp
  consider "buffer_len = 0" | "buffer_len \<noteq> 0" "ts_rx s = []" | "buffer_len \<noteq> 0" "ts_rx s \<noteq> []" by blast
  then show ?case
  proof cases
    case 1
    with True show ?thesis by (subst receive_loop.simps) (simp add: stream_read_def)
  next
    case 2
    then have "?n \<noteq> 0" using gap diff by (simp add: unat_gt_0)
    with 2 True show ?thesis by (subst receive_loop.simps) (simp add: stream_read_def)
  next
    case 3
    then have "0 < ?n" using gap diff by (simp add: unat_gt_0)
    from stream_read_data [OF this 3(2)] obtain k chunks where k: "0 < k" "k \<le> ?n" "k \<le> length (ts_rx s)"
      and read: "stream_read ?n s = (Ok (take k (ts_rx s)), s\<lparr>ts_rx := drop k (ts_rx s), ts_chunks := chunks\<rparr>)"
      by blast
    let ?s' = "s\<lparr>ts_rx := drop k (ts_rx s), ts_chunks := chunks\<rparr>"
    let ?received = "received + word_of_nat (length (take k (ts_rx s)))"
    have len: "length (take k (ts_rx s)) = k" using k(3) by simp
    have kle: "unat received + k \<le> unat payload" using k(2) diff gap by (simp add: le_diff_conv2)
    have "k < 2 ^ 64" using k(2) unat_bound [of "payload - received"] by simp
    then have "unat (word_of_nat k :: u64) = k" by (intro unat_of_nat_exact) simp
    then have r: "unat ?received = unat received + k"
      unfolding len using kle gap unat_bound [of payload] by (subst unat_plus_exact) simp_all
    have data: "take k (ts_rx s) \<noteq> []" using k(1,3) by auto
    have "?received \<le> payload" using r kle unfolding word_le_nat_alt by linarith
    moreover have "length (ts_rx ?s') < unat payload - unat ?received"
      using r k(3) "1.prems"(2) by simp
    ultimately have "\<exists>e s'. receive_loop buffer_len payload ?received ?s' = (Err e, s') \<and> ts_tx s' = ts_tx ?s' \<and>
        e = (if ts_reset ?s' \<and> buffer_len \<noteq> 0 then TcpIo else ConnectionClosed)"
      by (rule "1.IH" [OF True read [symmetric] refl data])
    moreover have "receive_loop buffer_len payload received s = receive_loop buffer_len payload ?received ?s'"
      using True data by (subst receive_loop.simps) (simp add: read)
    ultimately show ?thesis by simp
  qed
qed

section \<open>Headers on the wire\<close>

text \<open>The header a sender of this protocol means: type, padded id, top seven length bytes.\<close>

definition wire_header :: "message_type \<Rightarrow> u8 list \<Rightarrow> u64 \<Rightarrow> u8 list" where
  "wire_header t tensor_id payload_length =
     [message_type_as_u8 t] @ (take 16 tensor_id @ replicate (16 - length tensor_id) 0)
       @ take 7 (be_bytes 8 (unat payload_length))"

lemma wire_header_length [simp]: "length (wire_header t tensor_id n) = 24"
  by (simp add: wire_header_def)

lemma message_type_roundtrip: "message_type_from_u8 (message_type_as_u8 t) = Ok t"
  by (cases t) simp_all

lemma length_field:
  "(word_of_nat (be_nat (take 7 (be_bytes 8 (unat n)) @ [0])) :: u64) = n - n mod 256"
proof -
  have "unat n div 256 < 256 ^ 7" using unat_bound [of n] by (simp add: less_mult_imp_div_less)
  then have "be_nat (take 7 (be_bytes 8 (unat n)) @ [0]) = 256 * (unat n div 256)"
    using be_bytes_take [of 7 1 "unat n"] by (simp add: be_nat_snoc be_nat_bytes)
  also have "\<dots> = unat n - unat n mod 256" by (simp add: minus_mod_eq_mult_div)
  also have "\<dots> = unat (n - n mod 256)"
    by (subst unat_minus_exact) (simp_all add: unat_mod_distrib)
  finally show ?thesis by simp
qed

lemma parse_wire_header:
  assumes "utf8_valid tensor_id" and "length tensor_id \<le> 16"
    and "tensor_id = [] \<or> last tensor_id \<noteq> 0"
  shows "parse_header (wire_header t tensor_id n) = Ok \<lparr>mh_message_type = t, mh_tensor_id = tensor_id,
    mh_payload_length = n - n mod 256\<rparr>"
proof -
  let ?pad = "tensor_id @ replicate (16 - length tensor_id) 0"
  have "utf8_valid ?pad" using assms(1) by (rule utf8_valid_append) (simp add: utf8_valid_ascii)
  then have "trim_end_zeros (utf8_lossy ?pad) = tensor_id"
    using trim_end_zeros_padded [OF assms(3)] by (simp add: utf8_lossy_valid)
  moreover have "take 16 (drop 1 (wire_header t tensor_id n)) = ?pad"
    using assms(2) by (simp add: wire_header_def)
  moreover have "take 7 (drop 17 (wire_header t tensor_id n)) = take 7 (be_bytes 8 (unat n))"
    using assms(2) by (simp add: wire_header_def)
  moreover have "wire_header t tensor_id n ! 0 = message_type_as_u8 t"
    by (simp add: wire_header_def)
  ultimately show ?thesis
    by (simp add: parse_header_def message_type_roundtrip length_field del: message_type_from_u8.simps)
qed

lemma header_bytes_panics: "header_bytes header = Panic Slice_Out_Of_Range"
proof -
  let ?n = "min (length (mh_tensor_id header)) 16"
  let ?buf = "(replicate 24 0)[0 := message_type_as_u8 (mh_message_type header)]"
  define n where "n = ?n"
  have "1 + n \<le> length ?buf" "length (take n (mh_tensor_id header)) = 1 + n - 1"
    by (simp_all add: n_def)
  then have "(copy_into 1 (1 + n) (take n (mh_tensor_id header)) ?buf :: (tcp_error, _) outcome) =
      Ok (take 1 ?buf @ take n (mh_tensor_id header) @ drop (1 + n) ?buf)"
    by (intro copy_into_Ok) simp_all
  then obtain buf where buf: "(copy_into 1 (1 + n) (take n (mh_tensor_id header)) ?buf
      :: (tcp_error, _) outcome) = Ok buf" by blast
  then have "length buf = 24" by (auto dest: copy_into_length)
  then have "(copy_into 17 25 bs buf :: (tcp_error, _) outcome) = Panic Slice_Out_Of_Range" for bs
    by (simp add: panics)
  with buf show ?thesis
    by (simp add: header_bytes_def slice_to_Ok Let_def n_def del: One_nat_def)
qed

lemma write_header_panics:
  "write_header header s = (Panic Slice_Out_Of_Range, s)"
  "client_write_header header s = (Panic Slice_Out_Of_Range, s)"
  by (simp_all add: write_header_def client_write_header_def header_bytes_panics)

section \<open>Properties of the TCP transport\<close>

lemma read_wire_header:
  assumes "ts_rx s = wire_header t tensor_id n @ rest"
    and "utf8_valid tensor_id" and "length tensor_id \<le> 16" and "tensor_id = [] \<or> last tensor_id \<noteq> 0"
  shows "read_header s = (Ok \<lparr>mh_message_type = t, mh_tensor_id = tensor_id,
    mh_payload_length = n - n mod 256\<rparr>, s\<lparr>ts_rx := rest\<rparr>)"
  using assms by (simp add: read_header_def stream_read_exact_def bind_action_def parse_wire_header lift_outcome_def)

lemma handle_transfer_connection:
  assumes "ts_rx s = wire_header TensorTransfer tensor_id n @ rest"
    and "utf8_valid tensor_id" and "length tensor_id \<le> 16" and "tensor_id = [] \<or> last tensor_id \<noteq> 0"
    and "tc_buffer_size config < 2 ^ 63"
    and "bind_action (receive_loop (tc_buffer_size config) (n - n mod 256) 0) (\<lambda>_. send_ack True)
      (s\<lparr>ts_rx := rest\<rparr>) = (r, s')"
  shows "handle_connection config active s =
    (r, if is_ok r then saturating_sub (active + 1) 1 else active + 1, s')"
proof -
  have "bind_action read_header (\<lambda>header. case mh_message_type header of
      TensorTransfer \<Rightarrow> handle_tensor_transfer config header | Ping \<Rightarrow> handle_ping
    | Ack \<Rightarrow> return_action ()) s = (r, s')"
    using assms(5,6) read_wire_header [OF assms(1-4)] by (simp add: handle_tensor_transfer_def not_le [symmetric])
  then show ?thesis by (simp add: handle_connection_def Let_def)
qed

lemma saturating_sub_inc: "active \<noteq> - 1 \<Longrightarrow> saturating_sub (active + 1) 1 = (active :: usize)"
proof -
  assume "active \<noteq> - 1"
  then have "active + 1 \<noteq> 0" by (metis add.commute add_eq_0_iff2)
  then have "0 < unat (active + 1)" by (simp add: unat_gt_0)
  then have "\<not> active + 1 < 1" by (simp add: word_less_nat_alt)
  then show ?thesis by (simp add: saturating_sub_def)
qed

lemma unat_round_down: "unat ((n :: u64) - n mod 256) = unat n - unat n mod 256"
  by (subst unat_minus_exact) (simp_all add: unat_mod_distrib)

text \<open>
  C23.  A tensor transfer is received whatever the network's chunking: after the
  header, the handler takes exactly the announced number of bytes, rounded
  down to a multiple of 256 (the length field has no low byte), acknowledges
  with one byte 1, leaves everything after untouched and restores the
  connection counter.  The last \<open>n mod 256\<close> bytes of a tensor are therefore
  never read.
\<close>

theorem transfer_received:
  assumes "ts_rx s = wire_header TensorTransfer tensor_id n @ data" and "unat n \<le> length data"
    and "utf8_valid tensor_id" and "length tensor_id \<le> 16" and "tensor_id = [] \<or> last tensor_id \<noteq> 0"
    and "tc_buffer_size config \<noteq> 0" and "tc_buffer_size config < 2 ^ 63"
    and "\<not> ts_broken s" and "active \<noteq> - 1"
  shows "\<exists>s'. handle_connection config active s = (Ok (), active, s') \<and>
    ts_rx s' = drop (unat n - unat n mod 256) data \<and> ts_tx s' = ts_tx s @ [1]"
proof -
  let ?s = "s\<lparr>ts_rx := data\<rparr>"
  have "\<exists>chunks. receive_loop (tc_buffer_size config) (n - n mod 256) 0 ?s =
      (Ok (n - n mod 256), ?s\<lparr>ts_rx := drop (unat (n - n mod 256) - unat (0::u64)) (ts_rx ?s), ts_chunks := chunks\<rparr>)"
    by (rule receive_loop_receives) (use assms(2,6) unat_round_down [of n] in auto)
  then obtain chunks where loop: "receive_loop (tc_buffer_size config) (n - n mod 256) 0 ?s =
      (Ok (n - n mod 256), s\<lparr>ts_rx := drop (unat n - unat n mod 256) data, ts_chunks := chunks\<rparr>)"
    by (auto simp: unat_round_down)
  let ?s' = "s\<lparr>ts_rx := drop (unat n - unat n mod 256) data, ts_chunks := chunks, ts_tx := ts_tx s @ [1]\<rparr>"
  have "bind_action (receive_loop (tc_buffer_size config) (n - n mod 256) 0) (\<lambda>_. send_ack True) ?s = (Ok (), ?s')"
    using assms(8) by (simp add: loop send_ack_def stream_write_all_def)
  from handle_transfer_connection [OF assms(1,3,4,5,7) this] saturating_sub_inc [OF assms(9)]
  have "handle_connection config active s = (Ok (), active, ?s')" by simp
  then show ?thesis by (intro exI [of _ ?s']) simp
qed

definition sample_stream :: "u8 list \<Rightarrow> tcp_stream" where
  "sample_stream rx = \<lparr>ts_rx = rx, ts_chunks = [100, 0, 7], ts_reset = False, ts_tx = [], ts_broken = False\<rparr>"

theorem transfer_received_witness:
  "\<exists>s'. handle_connection tcp_config_default 0
      (sample_stream (wire_header TensorTransfer [116, 49] 300 @ replicate 300 7)) = (Ok (), 0, s') \<and>
    length (ts_rx s') = 44 \<and> ts_tx s' = [1]"
proof -
  let ?s = "sample_stream (wire_header TensorTransfer [116, 49] 300 @ replicate 300 7)"
  have "\<exists>s'. handle_connection tcp_config_default 0 ?s = (Ok (), 0, s') \<and>
      ts_rx s' = drop (unat (300 :: u64) - unat (300 :: u64) mod 256) (replicate 300 7) \<and> ts_tx s' = ts_tx ?s @ [1]"
    by (rule transfer_received [of _ "[116, 49]"])
      (simp_all add: sample_stream_def tcp_config_default_def utf8_valid_ascii)
  then show ?thesis by (auto simp: sample_stream_def)
qed

text \<open>
  A truncated transfer is never acknowledged: when the peer closes before
  the announced (rounded) length has arrived, the handler fails, whatever the
  chunking, with \<open>ConnectionClosed\<close> (or the I/O error of a reset), writes
  nothing, and the connection stays counted as active.
\<close>

theorem truncated_transfer_fails:
  assumes "ts_rx s = wire_header TensorTransfer tensor_id n @ data"
    and "length data < unat n - unat n mod 256"
    and "utf8_valid tensor_id" and "length tensor_id \<le> 16" and "tensor_id = [] \<or> last tensor_id \<noteq> 0"
    and "tc_buffer_size config \<noteq> 0" and "tc_buffer_size config < 2 ^ 63"
  shows "\<exists>s'. handle_connection config active s =
      (Err (if ts_reset s then TcpIo else ConnectionClosed), active + 1, s') \<and> ts_tx s' = ts_tx s"
proof -
  let ?s = "s\<lparr>ts_rx := data\<rparr>"
  have "\<exists>e s'. receive_loop (tc_buffer_size config) (n - n mod 256) 0 ?s = (Err e, s') \<and> ts_tx s' = ts_tx ?s \<and>
      e = (if ts_reset ?s \<and> tc_buffer_size config \<noteq> 0 then TcpIo else ConnectionClosed)"
    by (rule receive_loop_closed) (use assms(2) unat_round_down [of n] in auto)
  then obtain s' where loop: "receive_loop (tc_buffer_size config) (n - n mod 256) 0 ?s =
      (Err (if ts_reset s then TcpIo else ConnectionClosed), s')" and tx: "ts_tx s' = ts_tx s"
    using assms(6) by auto
  have "bind_action (receive_loop (tc_buffer_size config) (n - n mod 256) 0) (\<lambda>_. send_ack True) ?s =
      (Err (if ts_reset s then TcpIo else ConnectionClosed), s')"
    using loop by simp
  from handle_transfer_connection [OF assms(1,3,4,5,7) this] tx show ?thesis by simp
qed

theorem truncated_transfer_fails_witness:
  "\<exists>s'. handle_connection tcp_config_default 0
      (sample_stream (wire_header TensorTransfer [116, 49] 512 @ replicate 511 7)) = (Err ConnectionClosed, 1, s') \<and>
    ts_tx s' = []"
proof -
  let ?s = "sample_stream (wire_header TensorTransfer [116, 49] 512 @ replicate 511 7)"
  have "\<exists>s'. handle_connection tcp_config_default 0 ?s =
      (Err (if ts_reset ?s then TcpIo else ConnectionClosed), 0 + 1, s') \<and> ts_tx s' = ts_tx ?s"
    by (rule truncated_transfer_fails [of _ "[116, 49]" 512 "replicate 511 7"])
      (simp_all add: sample_stream_def tcp_config_default_def utf8_valid_ascii)
  then show ?thesis by (auto simp: sample_stream_def)
qed

text \<open>
  The counter of active connections leaks: after a server has handled any
  sequence of connections to their end, the counter exceeds its start by
  exactly the number of handlers that ended in an error or a panic, although
  no connection is active any more.
\<close>

theorem connection_counter_leaks:
  assumes "serve config active streams = (rs, active')"
    and "unat active + length streams < 2 ^ 64"
  shows "length rs = length streams \<and> unat active' = unat active + length (filter (\<lambda>r. \<not> is_ok r) rs)"
  using assms
proof (induction streams arbitrary: active rs)
  case (Cons s streams)
  obtain r active1 s' where one: "handle_connection config active s = (r, active1, s')"
    by (cases "handle_connection config active s") auto
  obtain rs1 where rest: "serve config active1 streams = (rs1, active')" and rs: "rs = r # rs1"
    using Cons.prems(1) one by (auto split: prod.splits)
  have "unat (- 1 :: usize) = 2 ^ 64 - 1"
    by (simp add: unsigned_minus_1_eq_mask mask_eq_exp_minus_1)
  with Cons.prems(2) have "active \<noteq> - 1" by auto
  then have "active1 = (if is_ok r then active else active + 1)"
    using one saturating_sub_inc by (auto simp: handle_connection_def Let_def split: prod.splits)
  moreover have "unat (active + 1) = unat active + 1"
    using Cons.prems(2) by (subst unat_plus_exact) simp_all
  ultimately have "unat active1 = unat active + (if is_ok r then 0 else 1)" by simp
  moreover from this Cons.prems(2) have "unat active1 + length streams < 2 ^ 64"
    by (simp split: if_splits)
  ultimately show ?case using Cons.IH [OF rest] rs by simp
qed simp

theorem connection_counter_leaks_witness:
  "unat (snd (serve tcp_config_default 5 [sample_stream [], sample_stream [9]])) = 7"
proof -
  have "serve tcp_config_default 5 [sample_stream [], sample_stream [9]] = ([Err TcpIo, Err TcpIo], 7)"
    by (simp add: handle_connection_def read_header_def stream_read_exact_def sample_stream_def bind_action_def Let_def)
  from connection_counter_leaks [OF this] this show ?thesis by simp
qed

text \<open>
  Nothing is ever sent: writing a header always panics, because the
  length is copied into bytes 17 to 24 of a buffer of 24 bytes; so the
  client's \<open>send_tensor\<close> and \<open>ping\<close> and the server's answer to a ping panic
  for every argument and stream, before a byte is written.
\<close>

theorem nothing_is_ever_sent:
  "send_tensor tensor_id data s = (Panic Slice_Out_Of_Range, s) \<and>
   client_ping s = (Panic Slice_Out_Of_Range, s) \<and> handle_ping s = (Panic Slice_Out_Of_Range, s)"
  by (simp add: send_tensor_def client_ping_def handle_ping_def write_header_panics)

end
