(* ===== verification/Pipeline_Executor.thy ===== *)
theory Pipeline_Executor
  imports Samples
begin

text \<open>
  The pipeline executor, \<open>services/pipeline-executor/src/lib.rs\<close>: sessions with
  their stages, prefill and decode, and the session life cycle.  \<open>execute\<close>
  holds the write lock of the session table until it returns, so every
  operation is one step.

  The life cycle a caller sees is the abstract machine \<open>lifecycle\<close>; the
  executor refines it.  Generation is characterised in closed form.
\<close>

section \<open>Sessions\<close>

datatype session_status = SInitializing | SRunning | SPaused | SCompleted | SFailed string

datatype stage_status = StIdle | StReady | StExecuting | StCompleted | StFailed string

record stage_state =
  sg_stage_id :: u32
  sg_node_id :: node_id
  sg_status :: stage_status
  sg_input_tensors :: "string list"
  sg_output_tensors :: "string list"
  sg_last_execution :: "datetime option"

record session_state =
  se_session_id :: session_id
  se_plan :: execution_plan
  se_stage_states :: "stage_state list"
  se_tensor_buffer :: "(string, u8 list) hash_map"
  se_status :: session_status
  se_created_at :: datetime

type_synonym pipeline_executor = "(session_id, session_state) hash_map"

record execution_request =
  xr_session_id :: session_id
  xr_input_tokens :: "u32 list"
  xr_max_tokens :: u32
  xr_temperature :: f32

record execution_result =
  er_session_id :: session_id
  er_tokens :: "u32 list"
  er_completion_time_ms :: u32
  er_tokens_per_second :: f32

text \<open>\<open>SessionNotReady\<close> carries a message made from the status.\<close>

datatype pipeline_error =
    PipelineSessionNotFound session_id
  | PipelineSessionNotReady session_status
  | StageExecutionFailed string
  | TensorTransferFailed string
  | InvalidExecutionPlan string
  | PipelineInternal string

definition initial_stage :: "stage_plan \<Rightarrow> stage_state" where
  "initial_stage stage = \<lparr>sg_stage_id = sp_id stage, sg_node_id = sp_node_id stage,
     sg_status = StIdle, sg_input_tensors = [], sg_output_tensors = [], sg_last_execution = None\<rparr>"

definition initialize_session ::
  "datetime \<Rightarrow> session_id \<Rightarrow> execution_plan \<Rightarrow> (pipeline_executor, pipeline_error, unit) action" where
  "initialize_session now sid plan sessions =
     (Ok (), hm_insert sid \<lparr>se_session_id = sid, se_plan = plan,
        se_stage_states = map initial_stage (ep_stages plan), se_tensor_buffer = hm_new,
        se_status = SInitializing, se_created_at = now\<rparr> sessions)"

section \<open>Execution\<close>

text \<open>
  One pass over the stages: each becomes \<open>Executing\<close> and, after the simulated
  work, gets the given status and the time.  \<open>clock i\<close> is the \<open>i\<close>-th reading of
  the clock.
\<close>

fun run_stages :: "stage_status \<Rightarrow> (nat \<Rightarrow> datetime) \<Rightarrow> nat \<Rightarrow> stage_state list \<Rightarrow> stage_state list \<times> nat" where
  "run_stages status clock i [] = ([], i)"
| "run_stages status clock i (stage # stages) =
     (let executing = stage\<lparr>sg_status := StExecuting\<rparr>;
          finished = executing\<lparr>sg_status := status, sg_last_execution := Some (clock i)\<rparr>;
          (rest, j) = run_stages status clock (Suc i) stages
      in (finished # rest, j))"

definition execute_prefill ::
  "(nat \<Rightarrow> datetime) \<Rightarrow> nat \<Rightarrow> session_state \<Rightarrow> u32 list \<Rightarrow> u32 list \<times> session_state \<times> nat" where
  "execute_prefill clock i session tokens =
     (let (stages, j) = run_stages StCompleted clock i (se_stage_states session)
      in (tokens, session\<lparr>se_stage_states := stages\<rparr>, j))"

text \<open>\<open>(ctx.last().unwrap_or(&0) + 1) % 1000\<close>.\<close>

definition next_token :: "u32 list \<Rightarrow> u32" where
  "next_token ctx = ((if ctx = [] then 0 else last ctx) + 1) mod 1000"

definition execute_decode ::
  "(nat \<Rightarrow> datetime) \<Rightarrow> nat \<Rightarrow> session_state \<Rightarrow> u32 list \<Rightarrow> u32 \<times> session_state \<times> nat" where
  "execute_decode clock i session ctx =
     (let (stages, j) = run_stages StReady clock i (se_stage_states session)
      in (next_token ctx, session\<lparr>se_stage_states := stages\<rparr>, j))"

text \<open>The decode loop: \<open>n\<close> iterations left; token 2 ends it.\<close>

fun decode_loop ::
  "(nat \<Rightarrow> datetime) \<Rightarrow> nat \<Rightarrow> nat \<Rightarrow> session_state \<Rightarrow> u32 list \<Rightarrow> u32 list \<Rightarrow> u32 list \<times> session_state" where
  "decode_loop clock i 0 session tokens generated = (generated, session)"
| "decode_loop clock i (Suc n) session tokens generated =
     (let (token, session, i) = execute_decode clock i session tokens
      in if token = 2 then (generated @ [token], session)
         else decode_loop clock i n session (tokens @ [token]) (generated @ [token]))"

text \<open>\<open>Duration::as_secs_f32\<close> of a number of nanoseconds.\<close>

definition as_secs_f32 :: "nat \<Rightarrow> f32" where
  "as_secs_f32 ns = fl_add binary32 (fl_of_nat binary32 (ns div 1000000000))
     (fl_div binary32 (fl_of_nat binary32 (ns mod 1000000000)) (Fin 1000000000))"

text \<open>\<open>execute\<close>; \<open>elapsed\<close> is the duration measured, in nanoseconds.\<close>

definition execute ::
  "(nat \<Rightarrow> datetime) \<Rightarrow> nat \<Rightarrow> execution_request \<Rightarrow>
   (pipeline_executor, pipeline_error, execution_result) action" where
  "execute clock elapsed request sessions =
     (case hm_get sessions (xr_session_id request) of
        None \<Rightarrow> (Err (PipelineSessionNotFound (xr_session_id request)), sessions)
      | Some session \<Rightarrow>
          if se_status session \<noteq> SInitializing \<and> se_status session \<noteq> SRunning
          then (Err (PipelineSessionNotReady (se_status session)), sessions)
          else
            let session = session\<lparr>se_status := SRunning\<rparr>;
                tokens = xr_input_tokens request;
                (prefill, session, i) = execute_prefill clock 0 session tokens;
                tokens = tokens @ prefill;
                (generated, session) =
                  decode_loop clock i (unat (xr_max_tokens request)) session tokens []
            in (Ok \<lparr>er_session_id = xr_session_id request, er_tokens = generated,
                    er_completion_time_ms = word_of_nat (elapsed div 1000000),
                    er_tokens_per_second =
                      fl_div binary32 (fl_of_nat binary32 (length generated)) (as_secs_f32 elapsed)\<rparr>,
                hm_modify (xr_session_id request) (\<lambda>_. session) sessions))"

section \<open>Life cycle operations\<close>

definition pause_session :: "session_id \<Rightarrow> (pipeline_executor, pipeline_error, unit) action" where
  "pause_session sid sessions =
     (case hm_get sessions sid of
        None \<Rightarrow> (Err (PipelineSessionNotFound sid), sessions)
      | Some _ \<Rightarrow> (Ok (), hm_modify sid (\<lambda>s. s\<lparr>se_status := SPaused\<rparr>) sessions))"

definition resume_session :: "session_id \<Rightarrow> (pipeline_executor, pipeline_error, unit) action" where
  "resume_session sid sessions =
     (case hm_get sessions sid of
        None \<Rightarrow> (Err (PipelineSessionNotFound sid), sessions)
      | Some session \<Rightarrow>
          if se_status session = SPaused
          then (Ok (), hm_modify sid (\<lambda>s. s\<lparr>se_status := SRunning\<rparr>) sessions)
          else (Err (PipelineSessionNotReady (se_status session)), sessions))"

definition cancel_session :: "session_id \<Rightarrow> (pipeline_executor, pipeline_error, unit) action" where
  "cancel_session sid sessions =
     (case hm_get sessions sid of
        None \<Rightarrow> (Err (PipelineSessionNotFound sid), sessions)
      | Some _ \<Rightarrow> (Ok (), hm_remove sid sessions))"

definition get_session_status ::
  "session_id \<Rightarrow> pipeline_executor \<Rightarrow> (pipeline_error, session_status) outcome" where
  "get_session_status sid sessions =
     ok_or (PipelineSessionNotFound sid) (map_option se_status (hm_get sessions sid))"

record executor_stats =
  es_total_sessions :: nat
  es_running_sessions :: nat
  es_paused_sessions :: nat

definition executor_get_stats :: "pipeline_executor \<Rightarrow> executor_stats" where
  "executor_get_stats sessions = \<lparr>
     es_total_sessions = hm_len sessions,
     es_running_sessions = length (filter (\<lambda>s. se_status s = SRunning) (hm_values sessions)),
     es_paused_sessions = length (filter (\<lambda>s. se_status s = SPaused) (hm_values sessions))\<rparr>"

section \<open>Generation\<close>

lemma run_stages_all:
  "fst (run_stages status clock i stages) =
   map (\<lambda>k. (stages ! k)\<lparr>sg_status := status, sg_last_execution := Some (clock (i + k))\<rparr>) [0..<length stages]"
proof (induction stages arbitrary: i)
  case (Cons stage stages)
  have "[0..<length (stage # stages)] = 0 # map Suc [0..<length stages]"
    by (simp add: upt_conv_Cons map_Suc_upt del: upt_Suc)
  then show ?case
    by (simp add: Let_def Cons.IH split_beta del: upt_Suc)
qed simp

text \<open>The tokens of the decode loop, without the stages.\<close>

fun generate :: "nat \<Rightarrow> u32 list \<Rightarrow> u32 list" where
  "generate 0 ctx = []"
| "generate (Suc n) ctx =
     (let token = next_token ctx
      in if token = 2 then [token] else token # generate n (ctx @ [token]))"

lemma decode_loop_tokens:
  "fst (decode_loop clock i n session tokens generated) = generated @ generate n tokens"
proof (induction n arbitrary: i session tokens generated)
  case (Suc n)
  then show ?case by (simp add: execute_decode_def Let_def split_beta)
qed simp

lemma next_token_after: "t < 1000 \<Longrightarrow> unat (next_token (ctx @ [t])) = (unat t + 1) mod 1000"
  by (simp add: next_token_def unat_mod_distrib unat_plus_exact word_less_nat_alt)

lemma next_token_less: "next_token ctx < 1000"
  by (simp add: next_token_def word_less_nat_alt unat_mod_distrib)

lemma generate_closed:
  "generate n ctx = map (\<lambda>i. word_of_nat ((unat (next_token ctx) + i) mod 1000))
     [0..<min n (Suc ((1002 - unat (next_token ctx)) mod 1000))]"
proof (induction n arbitrary: ctx)
  case (Suc n)
  define t where "t = next_token ctx"
  define a where "a = unat t"
  have less: "t < 1000" unfolding t_def by (rule next_token_less)
  then have a: "a < 1000" by (simp add: a_def word_less_nat_alt)
  have two: "t = 2 \<longleftrightarrow> a = 2" by (simp add: a_def word_unat_eq_iff)
  show ?case
  proof (cases "t = 2")
    case True
    then show ?thesis using two by (simp add: t_def [symmetric])
  next
    case False
    have next_a: "unat (next_token (ctx @ [t])) = (a + 1) mod 1000"
      unfolding a_def by (rule next_token_after [OF less])
    have "a \<noteq> 2" using False two by simp
    have count: "(1002 - a) mod 1000 = Suc ((1002 - (a + 1) mod 1000) mod 1000)"
    proof -
      consider "a = 0" | "a = 1" | "2 < a" "a < 999" | "a = 999" using a \<open>a \<noteq> 2\<close> by linarith
      then show ?thesis
      proof cases
        case 3
        then have "1002 - a < 1000" "(a + 1) mod 1000 = a + 1" "1002 - (a + 1) < 1000" by simp_all
        with 3 show ?thesis by simp
      qed simp_all
    qed
    have shift: "[0..<min (Suc n) (Suc (Suc m))] = 0 # map Suc [0..<min n (Suc m)]" for m
      by (simp only: min_Suc_Suc upt_conv_Cons [OF zero_less_Suc] map_Suc_upt)
    have "generate (Suc n) ctx = t # generate n (ctx @ [t])"
      using False by (simp add: t_def Let_def)
    also have "\<dots> = t # map (\<lambda>i. word_of_nat ((a + Suc i) mod 1000))
        [0..<min n (Suc ((1002 - (a + 1) mod 1000) mod 1000))]"
      unfolding Suc.IH [of "ctx @ [t]"] next_a by (simp add: mod_simps)
    also have "\<dots> = map (\<lambda>i. word_of_nat ((a + i) mod 1000)) [0..<min (Suc n) (Suc ((1002 - a) mod 1000))]"
      unfolding count shift using a by (simp add: a_def comp_def)
    finally show ?thesis by (simp only: a_def t_def)
  qed
qed simp

section \<open>The session's life cycle\<close>

text \<open>What a caller sees: a phase per session, and whether an operation succeeds.\<close>

datatype phase = Fresh | Active | Suspended

datatype lifecycle_op = LInit session_id | LExecute session_id | LPause session_id
  | LResume session_id | LCancel session_id

fun lifecycle :: "lifecycle_op \<Rightarrow> (session_id \<rightharpoonup> phase) \<Rightarrow> bool \<times> (session_id \<rightharpoonup> phase)" where
  "lifecycle (LInit sid) ph = (True, ph(sid \<mapsto> Fresh))"
| "lifecycle (LExecute sid) ph =
     (if ph sid = Some Fresh \<or> ph sid = Some Active then (True, ph(sid \<mapsto> Active)) else (False, ph))"
| "lifecycle (LPause sid) ph =
     (if ph sid \<noteq> None then (True, ph(sid \<mapsto> Suspended)) else (False, ph))"
| "lifecycle (LResume sid) ph =
     (if ph sid = Some Suspended then (True, ph(sid \<mapsto> Active)) else (False, ph))"
| "lifecycle (LCancel sid) ph =
     (if ph sid \<noteq> None then (True, ph(sid := None)) else (False, ph))"

datatype executor_op =
    OInit datetime session_id execution_plan
  | OExecute "nat \<Rightarrow> datetime" nat execution_request
  | OPause session_id
  | OResume session_id
  | OCancel session_id

fun executor_step :: "executor_op \<Rightarrow> pipeline_executor \<Rightarrow> bool \<times> pipeline_executor" where
  "executor_step (OInit now sid plan) s = (let (r, s) = initialize_session now sid plan s in (is_ok r, s))"
| "executor_step (OExecute clock elapsed request) s = (let (r, s) = execute clock elapsed request s in (is_ok r, s))"
| "executor_step (OPause sid) s = (let (r, s) = pause_session sid s in (is_ok r, s))"
| "executor_step (OResume sid) s = (let (r, s) = resume_session sid s in (is_ok r, s))"
| "executor_step (OCancel sid) s = (let (r, s) = cancel_session sid s in (is_ok r, s))"

fun executor_run :: "executor_op list \<Rightarrow> pipeline_executor \<Rightarrow> bool list \<times> pipeline_executor" where
  "executor_run [] s = ([], s)"
| "executor_run (op # ops) s =
     (let (ok, s) = executor_step op s; (oks, s) = executor_run ops s in (ok # oks, s))"

fun lifecycle_run :: "lifecycle_op list \<Rightarrow> (session_id \<rightharpoonup> phase) \<Rightarrow> bool list \<times> (session_id \<rightharpoonup> phase)" where
  "lifecycle_run [] ph = ([], ph)"
| "lifecycle_run (op # ops) ph =
     (let (ok, ph) = lifecycle op ph; (oks, ph) = lifecycle_run ops ph in (ok # oks, ph))"

fun abs_op :: "executor_op \<Rightarrow> lifecycle_op" where
  "abs_op (OInit now sid plan) = LInit sid"
| "abs_op (OExecute clock elapsed request) = LExecute (xr_session_id request)"
| "abs_op (OPause sid) = LPause sid"
| "abs_op (OResume sid) = LResume sid"
| "abs_op (OCancel sid) = LCancel sid"

fun phase_of :: "session_status \<Rightarrow> phase option" where
  "phase_of SInitializing = Some Fresh"
| "phase_of SRunning = Some Active"
| "phase_of SPaused = Some Suspended"
| "phase_of SCompleted = None"
| "phase_of (SFailed _) = None"

definition phases :: "pipeline_executor \<Rightarrow> session_id \<rightharpoonup> phase" where
  "phases sessions sid = Option.bind (hm_get sessions sid) (\<lambda>s. phase_of (se_status s))"

text \<open>The stages are those of the plan, and the status has a phase.\<close>

definition session_ok :: "session_state \<Rightarrow> bool" where
  "session_ok s \<longleftrightarrow> phase_of (se_status s) \<noteq> None \<and>
     map sg_stage_id (se_stage_states s) = map sp_id (ep_stages (se_plan s)) \<and>
     map sg_node_id (se_stage_states s) = map sp_node_id (ep_stages (se_plan s)) \<and>
     (\<forall>g \<in> set (se_stage_states s). sg_status g \<in> {StIdle, StReady, StCompleted})"

definition executor_inv :: "pipeline_executor \<Rightarrow> bool" where
  "executor_inv sessions \<longleftrightarrow> hm_ok sessions \<and> (\<forall>sid s. hm_get sessions sid = Some s \<longrightarrow> session_ok s)"

lemma run_stages_keeps:
  "map sg_stage_id (fst (run_stages status clock i stages)) = map sg_stage_id stages"
  "map sg_node_id (fst (run_stages status clock i stages)) = map sg_node_id stages"
  "\<forall>g \<in> set (fst (run_stages status clock i stages)). sg_status g = status"
  by (induction stages arbitrary: i) (auto simp: Let_def split_beta)

lemma decode_loop_session_ok:
  "session_ok session \<Longrightarrow> session_ok (snd (decode_loop clock i n session tokens generated)) \<and>
   se_status (snd (decode_loop clock i n session tokens generated)) = se_status session"
proof (induction n arbitrary: i session tokens generated)
  case (Suc n)
  let ?session = "session\<lparr>se_stage_states := fst (run_stages StReady clock i (se_stage_states session))\<rparr>"
  have "session_ok ?session"
    using Suc.prems run_stages_keeps [of StReady clock i "se_stage_states session"]
    by (simp add: session_ok_def)
  then show ?case
    using Suc.IH by (simp add: execute_decode_def Let_def split_beta)
qed simp

section \<open>The executor refines the life cycle\<close>

lemma phases_simps:
  "phases (hm_insert sid s sessions) = (phases sessions)(sid := phase_of (se_status s))"
  "phases (hm_remove sid sessions) = (phases sessions)(sid := None)"
  by (auto simp: phases_def fun_eq_iff)

lemma phases_modify:
  "hm_get sessions sid = Some s \<Longrightarrow>
   phases (hm_modify sid f sessions) = (phases sessions)(sid := phase_of (se_status (f s)))"
  by (auto simp: phases_def fun_eq_iff)

lemma phases_get: "hm_get sessions sid = Some s \<Longrightarrow> phases sessions sid = phase_of (se_status s)"
  by (simp add: phases_def)

lemma phases_absent: "hm_get sessions sid = None \<Longrightarrow> phases sessions sid = None"
  by (simp add: phases_def)

lemma executor_inv_get: "executor_inv sessions \<Longrightarrow> hm_get sessions sid = Some s \<Longrightarrow> session_ok s"
  by (auto simp: executor_inv_def)

lemma executor_inv_insert: "executor_inv sessions \<Longrightarrow> session_ok s \<Longrightarrow> executor_inv (hm_insert sid s sessions)"
  by (auto simp: executor_inv_def)

lemma executor_inv_remove: "executor_inv sessions \<Longrightarrow> executor_inv (hm_remove sid sessions)"
  by (auto simp: executor_inv_def split: if_splits)

lemma executor_inv_modify:
  "executor_inv sessions \<Longrightarrow> (\<And>s. hm_get sessions sid = Some s \<Longrightarrow> session_ok (f s)) \<Longrightarrow>
   executor_inv (hm_modify sid f sessions)"
  by (auto simp: executor_inv_def split: if_splits)

lemmas executor_inv_rules = executor_inv_insert executor_inv_remove executor_inv_modify

text \<open>The session \<open>execute\<close> leaves.\<close>

lemma execute_session:
  assumes "hm_get sessions (xr_session_id request) = Some session" and "session_ok session"
    and "se_status session = SInitializing \<or> se_status session = SRunning"
  shows "\<exists>session' result. execute clock elapsed request sessions =
      (Ok result, hm_modify (xr_session_id request) (\<lambda>_. session') sessions) \<and>
    session_ok session' \<and> se_status session' = SRunning \<and>
    er_tokens result = generate (unat (xr_max_tokens request))
      (xr_input_tokens request @ xr_input_tokens request)"
proof -
  let ?run = "run_stages StCompleted clock 0 (se_stage_states session)"
  let ?prefilled = "session\<lparr>se_status := SRunning, se_stage_states := fst ?run\<rparr>"
  let ?loop = "decode_loop clock (snd ?run) (unat (xr_max_tokens request)) ?prefilled
    (xr_input_tokens request @ xr_input_tokens request) []"
  have "session_ok ?prefilled"
    using assms(2) run_stages_keeps [of StCompleted clock 0 "se_stage_states session"]
    by (simp add: session_ok_def)
  note loop = decode_loop_session_ok [OF this, of clock "snd ?run" "unat (xr_max_tokens request)"
      "xr_input_tokens request @ xr_input_tokens request" "[]"]
  show ?thesis
    using assms(1,3) loop decode_loop_tokens [of clock "snd ?run" "unat (xr_max_tokens request)" ?prefilled
        "xr_input_tokens request @ xr_input_tokens request" "[]"]
    by (auto simp: execute_def execute_prefill_def Let_def split_beta intro!: exI [of _ "snd ?loop"])
qed

lemma executor_step_refines:
  assumes "executor_inv s"
  shows "lifecycle (abs_op op) (phases s) = (fst (executor_step op s), phases (snd (executor_step op s)))"
    and "executor_inv (snd (executor_step op s))"
proof -
  have "lifecycle (abs_op op) (phases s) = (fst (executor_step op s), phases (snd (executor_step op s)))
    \<and> executor_inv (snd (executor_step op s))"
  proof (cases op)
    case (OInit now sid plan)
    then show ?thesis
      using assms by (simp add: initialize_session_def phases_simps session_ok_def initial_stage_def
          comp_def executor_inv_insert)
  next
    case (OExecute clock elapsed request)
    show ?thesis
    proof (cases "hm_get s (xr_session_id request)")
      case None
      with assms OExecute show ?thesis by (simp add: execute_def phases_absent)
    next
      case (Some session)
      note ok = executor_inv_get [OF assms Some]
      show ?thesis
      proof (cases "se_status session = SInitializing \<or> se_status session = SRunning")
        case True
        with execute_session [OF Some ok, of clock elapsed] Some OExecute assms show ?thesis
          by (auto simp: phases_get phases_modify executor_inv_modify)
      next
        case False
        with ok Some OExecute assms show ?thesis
          by (cases "se_status session") (auto simp: execute_def phases_get session_ok_def)
      qed
    qed
  next
    case (OPause sid)
    with assms show ?thesis
      by (cases "hm_get s sid") (auto simp: pause_session_def phases_absent phases_get phases_modify
          session_ok_def dest: executor_inv_get intro!: executor_inv_modify)
  next
    case (OResume sid)
    with assms show ?thesis
      by (cases "hm_get s sid"; cases "se_status (the (hm_get s sid))")
        (auto simp: resume_session_def phases_absent phases_get phases_modify
          session_ok_def dest: executor_inv_get intro!: executor_inv_modify)
  next
    case (OCancel sid)
    with assms show ?thesis
      by (cases "hm_get s sid") (auto simp: cancel_session_def phases_absent phases_get phases_simps
          session_ok_def executor_inv_remove dest: executor_inv_get)
  qed
  then show "lifecycle (abs_op op) (phases s) = (fst (executor_step op s), phases (snd (executor_step op s)))"
    and "executor_inv (snd (executor_step op s))" by blast+
qed

lemma executor_run_refines:
  "executor_inv s \<Longrightarrow>
   lifecycle_run (map abs_op ops) (phases s) = (fst (executor_run ops s), phases (snd (executor_run ops s)))
   \<and> executor_inv (snd (executor_run ops s))"
proof (induction ops arbitrary: s)
  case (Cons op ops)
  note step = executor_step_refines [OF Cons.prems, of op]
  from Cons.IH [OF step(2)] show ?case
    by (simp add: step(1) Let_def split_beta)
qed simp

lemma executor_inv_new: "executor_inv hm_new"
  by (simp add: executor_inv_def)

section \<open>Properties of the executor\<close>

text \<open>
  C20.  Refinement: for every sequence of operations from an empty executor,
  which operations succeed and the phase of every session afterwards are those
  of the abstract life cycle (initialise, execute from fresh or active, pause
  from anywhere, resume only from suspended, cancel).
\<close>

theorem executor_refines_lifecycle:
  "lifecycle_run (map abs_op ops) Map.empty =
   (fst (executor_run ops hm_new), phases (snd (executor_run ops hm_new)))"
proof -
  have "phases hm_new = Map.empty" by (simp add: phases_def fun_eq_iff)
  with executor_run_refines [OF executor_inv_new, of ops] show ?thesis by simp
qed

text \<open>
  Sessions stay well formed: after any sequence of operations every
  session has one stage state per stage of its plan, with the plan's stage and
  node in order, no stage is left executing or failed, and the session is
  initialising, running or paused: no operation ever completes or fails it.
\<close>

theorem sessions_well_formed:
  assumes "hm_get (snd (executor_run ops hm_new)) sid = Some s"
  shows "map sg_stage_id (se_stage_states s) = map sp_id (ep_stages (se_plan s)) \<and>
    map sg_node_id (se_stage_states s) = map sp_node_id (ep_stages (se_plan s)) \<and>
    (\<forall>g \<in> set (se_stage_states s). sg_status g \<in> {StIdle, StReady, StCompleted}) \<and>
    se_status s \<in> {SInitializing, SRunning, SPaused}"
proof -
  have "session_ok s"
    using executor_run_refines [OF executor_inv_new, of ops] assms executor_inv_get by blast
  then show ?thesis by (cases "se_status s") (simp_all add: session_ok_def)
qed

definition sample_plan_for_executor :: execution_plan where
  "sample_plan_for_executor = \<lparr>ep_model_id = ''llama'', ep_strategy = Pipeline,
     ep_estimated = \<lparr>pe_load_seconds = Fin 0, pe_prompt_tokens_per_second = Fin 1,
       pe_decode_tokens_per_second = Fin 1\<rparr>,
     ep_stages = [\<lparr>sp_id = 0, sp_node_id = 1, sp_device = ''cpu:0'', sp_layers = [0], sp_weight_bytes = 8\<rparr>],
     ep_kv_cache = \<lparr>kv_policy = StageLocal, kv_reserved_bytes = 0\<rparr>\<rparr>"

definition sample_execution_request :: "u32 list \<Rightarrow> u32 \<Rightarrow> execution_request" where
  "sample_execution_request tokens n = \<lparr>xr_session_id = 7, xr_input_tokens = tokens,
     xr_max_tokens = n, xr_temperature = Fin 1\<rparr>"

definition sample_executor :: pipeline_executor where
  "sample_executor = snd (executor_run [OInit 0 7 sample_plan_for_executor] hm_new)"

lemma sample_executor_session:
  "\<exists>s. hm_get sample_executor 7 = Some s \<and> session_ok s \<and> se_status s = SInitializing"
  by (simp add: sample_executor_def initialize_session_def session_ok_def initial_stage_def comp_def)

theorem sessions_well_formed_witness:
  "\<exists>s. hm_get (snd (executor_run [OInit 0 7 sample_plan_for_executor, OPause 7] hm_new)) 7 = Some s \<and>
     se_status s \<in> {SInitializing, SRunning, SPaused}"
proof -
  have "hm_get (snd (executor_run [OInit 0 7 sample_plan_for_executor, OPause 7] hm_new)) 7 \<noteq> None"
    by (simp add: initialize_session_def pause_session_def)
  then obtain s where "hm_get (snd (executor_run [OInit 0 7 sample_plan_for_executor, OPause 7] hm_new)) 7 = Some s"
    by blast
  with sessions_well_formed [OF this] show ?thesis by blast
qed

text \<open>
  What is generated, in closed form: with \<open>a\<close> the successor of the last
  input token (0 for no input) modulo 1000, wrapping at \<open>2 ^ 32\<close>, a successful
  execution returns \<open>a\<close>, \<open>a + 1\<close>, \<open>a + 2\<close> and so on modulo 1000, up to and
  including the first token 2, and never more than the requested number or 1000
  tokens.
\<close>

theorem generated_tokens:
  assumes "executor_inv sessions" and "execute clock elapsed request sessions = (Ok result, sessions')"
    and "a = unat (next_token (xr_input_tokens request))"
  shows "er_tokens result = map (\<lambda>i. word_of_nat ((a + i) mod 1000))
      [0..<min (unat (xr_max_tokens request)) (Suc ((1002 - a) mod 1000))] \<and>
    length (er_tokens result) \<le> 1000"
proof -
  obtain session where session: "hm_get sessions (xr_session_id request) = Some session"
    "se_status session = SInitializing \<or> se_status session = SRunning"
    using assms(2) by (auto simp: execute_def split: option.splits if_splits)
  have same: "next_token (xr_input_tokens request @ xr_input_tokens request) = next_token (xr_input_tokens request)"
    by (simp add: next_token_def)
  have "er_tokens result = generate (unat (xr_max_tokens request)) (xr_input_tokens request @ xr_input_tokens request)"
    using execute_session [OF session(1) executor_inv_get [OF assms(1) session(1)] session(2),
        where clock = clock and elapsed = elapsed] assms(2) by auto
  then have eq: "er_tokens result = map (\<lambda>i. word_of_nat ((a + i) mod 1000))
      [0..<min (unat (xr_max_tokens request)) (Suc ((1002 - a) mod 1000))]"
    by (simp only: generate_closed same assms(3))
  have "Suc ((1002 - a) mod 1000) \<le> 1000" by (simp add: Suc_le_eq)
  then show ?thesis using eq by simp
qed

theorem generated_tokens_witness:
  "\<exists>result sessions'. execute (\<lambda>_. 0) 1000000 (sample_execution_request [5, 999] 8) sample_executor = (Ok result, sessions') \<and>
     er_tokens result = [0, 1, 2]"
proof -
  have inv: "executor_inv sample_executor"
    unfolding sample_executor_def using executor_run_refines [OF executor_inv_new] by blast
  obtain s where s: "hm_get sample_executor (xr_session_id (sample_execution_request [5, 999] 8)) = Some s"
    "session_ok s" "se_status s = SInitializing"
    using sample_executor_session by (auto simp: sample_execution_request_def)
  then obtain result sessions' where
    ok: "execute (\<lambda>_. 0) 1000000 (sample_execution_request [5, 999] 8) sample_executor = (Ok result, sessions')"
    using execute_session [OF s(1,2)] by blast
  have "unat (next_token (xr_input_tokens (sample_execution_request [5, 999] 8))) = 0"
    by (simp add: sample_execution_request_def next_token_def)
  moreover have "[0..<3] = [0, 1, 2 :: nat]" by (simp add: upt_rec)
  ultimately have "er_tokens result = [0, 1, 2]"
    using generated_tokens [OF inv ok refl] by (simp add: sample_execution_request_def)
  with ok show ?thesis by blast
qed

end
