(* ===== verification/Tensor_Directory.thy ===== *)
theory Tensor_Directory
  imports Samples
begin

text \<open>
  The tensor directory, \<open>services/tensor-directory/src/lib.rs\<close>: where each tensor
  is placed, and an index from nodes to tensors kept beside it.  Each method
  is one step on the pair of tables (its locks are the subject of
  \<open>Directory_Locks\<close>), except \<open>transfer_tensor\<close>, whose look-up and whose update
  are separate steps.

  The invariant \<open>directory_inv\<close> says that the index misses nothing; it is
  exact (\<open>index_sound\<close>) as long as no tensor id is registered twice.
\<close>

section \<open>State\<close>

record tensor_entry =
  te_tensor_id :: tensor_id
  te_shape :: "usize list"
  te_dtype :: string
  te_placements :: "physical_placement list"
  te_version :: u64
  te_mutable :: bool
  te_owner_session :: "uuid option"
  te_created_at :: datetime
  te_last_accessed :: datetime

record tensor_directory =
  td_tensors :: "(tensor_id, tensor_entry) hash_map"
  td_node_tensors :: "(node_id, tensor_id list) hash_map"

datatype directory_error = TensorNotFound tensor_id | TensorNotOnSource

definition directory_new :: tensor_directory where
  "directory_new = \<lparr>td_tensors = hm_new, td_node_tensors = hm_new\<rparr>"

section \<open>Operations\<close>

text \<open>\<open>entry(node).or_insert_with(Vec::new).push(tensor)\<close>.\<close>

definition index_push ::
  "node_id \<Rightarrow> tensor_id \<Rightarrow> (node_id, tensor_id list) hash_map \<Rightarrow> (node_id, tensor_id list) hash_map" where
  "index_push n t index = hm_modify n (\<lambda>ts. ts @ [t]) (hm_or_insert n [] index)"

definition register_tensor ::
  "datetime \<Rightarrow> tensor_id \<Rightarrow> usize list \<Rightarrow> string \<Rightarrow> physical_placement \<Rightarrow> bool \<Rightarrow> uuid option \<Rightarrow>
   (tensor_directory, directory_error, unit) action" where
  "register_tensor now t shape dtype placement is_mutable owner d =
     (Ok (), \<lparr>td_tensors = hm_insert t \<lparr>te_tensor_id = t, te_shape = shape, te_dtype = dtype,
          te_placements = [placement], te_version = 1, te_mutable = is_mutable,
          te_owner_session = owner, te_created_at = now, te_last_accessed = now\<rparr> (td_tensors d),
        td_node_tensors = index_push (pp_node_id placement) t (td_node_tensors d)\<rparr>)"

definition get_tensor ::
  "datetime \<Rightarrow> tensor_id \<Rightarrow> tensor_directory \<Rightarrow> tensor_entry option \<times> tensor_directory" where
  "get_tensor now t d =
     (let tensors = hm_modify t (\<lambda>e. e\<lparr>te_last_accessed := now\<rparr>) (td_tensors d)
      in (hm_get tensors t, d\<lparr>td_tensors := tensors\<rparr>))"

definition add_placement ::
  "tensor_id \<Rightarrow> physical_placement \<Rightarrow> (tensor_directory, directory_error, unit) action" where
  "add_placement t placement d =
     (case hm_get (td_tensors d) t of
        None \<Rightarrow> (Err (TensorNotFound t), d)
      | Some _ \<Rightarrow> (Ok (), \<lparr>
          td_tensors = hm_modify t (\<lambda>e. e\<lparr>te_placements := te_placements e @ [placement],
            te_version := te_version e + 1\<rparr>) (td_tensors d),
          td_node_tensors = index_push (pp_node_id placement) t (td_node_tensors d)\<rparr>))"

definition off_node :: "node_id \<Rightarrow> physical_placement list \<Rightarrow> physical_placement list" where
  "off_node n = filter (\<lambda>p. pp_node_id p \<noteq> n)"

text \<open>The update of the index by \<open>remove_placement\<close>; an empty list is dropped.\<close>

definition index_remove ::
  "node_id \<Rightarrow> tensor_id \<Rightarrow> (node_id, tensor_id list) hash_map \<Rightarrow> (node_id, tensor_id list) hash_map" where
  "index_remove n t index =
     (case hm_get index n of
        None \<Rightarrow> index
      | Some ts \<Rightarrow>
          if filter (\<lambda>t'. t' \<noteq> t) ts = [] then hm_remove n index
          else hm_modify n (filter (\<lambda>t'. t' \<noteq> t)) index)"

definition remove_placement ::
  "tensor_id \<Rightarrow> node_id \<Rightarrow> (tensor_directory, directory_error, unit) action" where
  "remove_placement t n d =
     (case hm_get (td_tensors d) t of
        None \<Rightarrow> (Err (TensorNotFound t), d)
      | Some e \<Rightarrow>
          let placements = off_node n (te_placements e)
          in (Ok (), \<lparr>
               td_tensors =
                 (if placements = [] then hm_remove t (td_tensors d)
                  else hm_modify t (\<lambda>e. e\<lparr>te_placements := placements, te_version := te_version e + 1\<rparr>)
                    (td_tensors d)),
               td_node_tensors = index_remove n t (td_node_tensors d)\<rparr>))"

definition get_tensors_on_node :: "node_id \<Rightarrow> tensor_directory \<Rightarrow> tensor_entry list" where
  "get_tensors_on_node n d =
     (case hm_get (td_node_tensors d) n of
        None \<Rightarrow> []
      | Some ts \<Rightarrow> List.map_filter (hm_get (td_tensors d)) ts)"

definition get_tensors_by_session :: "uuid \<Rightarrow> tensor_directory \<Rightarrow> tensor_entry list" where
  "get_tensors_by_session sid d =
     filter (\<lambda>e. te_owner_session e = Some sid) (hm_values (td_tensors d))"

text \<open>The loop of \<open>evict_from_node\<close>, over the removed index list.\<close>

fun evict_loop ::
  "node_id \<Rightarrow> tensor_id list \<Rightarrow> (tensor_id, tensor_entry) hash_map \<Rightarrow> tensor_id list \<Rightarrow>
   (tensor_id, tensor_entry) hash_map \<times> tensor_id list" where
  "evict_loop n [] tensors evicted = (tensors, evicted)"
| "evict_loop n (t # ts) tensors evicted =
     (case hm_get tensors t of
        None \<Rightarrow> evict_loop n ts tensors evicted
      | Some e \<Rightarrow>
          let e = e\<lparr>te_placements := off_node n (te_placements e), te_version := te_version e + 1\<rparr>
          in if te_placements e = [] then evict_loop n ts (hm_remove t tensors) (evicted @ [t])
             else evict_loop n ts (hm_modify t (\<lambda>_. e) tensors) evicted)"

definition evict_from_node :: "node_id \<Rightarrow> (tensor_directory, directory_error, tensor_id list) action" where
  "evict_from_node n d =
     (let ts = (case hm_get (td_node_tensors d) n of None \<Rightarrow> [] | Some ts \<Rightarrow> ts);
          (tensors, evicted) = evict_loop n ts (td_tensors d) []
      in (Ok evicted, \<lparr>td_tensors = tensors, td_node_tensors = hm_remove n (td_node_tensors d)\<rparr>))"

record directory_stats =
  ds_total_tensors :: nat
  ds_total_placements :: nat
  ds_mutable_count :: nat
  ds_node_count :: nat

definition directory_get_stats :: "tensor_directory \<Rightarrow> directory_stats" where
  "directory_get_stats d = \<lparr>
     ds_total_tensors = hm_len (td_tensors d),
     ds_total_placements = (\<Sum>e\<leftarrow>hm_values (td_tensors d). length (te_placements e)),
     ds_mutable_count = length (filter te_mutable (hm_values (td_tensors d))),
     ds_node_count = hm_len (td_node_tensors d)\<rparr>"

text \<open>
  \<open>transfer_tensor\<close>: the look-up under the read lock, then \<open>add_placement\<close>; other
  operations may run in between.
\<close>

definition transfer_lookup ::
  "tensor_id \<Rightarrow> node_id \<Rightarrow> node_id \<Rightarrow> u8 list \<Rightarrow> tensor_directory \<Rightarrow>
   (directory_error, physical_placement) outcome" where
  "transfer_lookup t from_node to_node data d =
     bind_outcome (ok_or (TensorNotFound t) (hm_get (td_tensors d) t)) (\<lambda>e.
     bind_outcome (ok_or TensorNotOnSource (find (\<lambda>p. pp_node_id p = from_node) (te_placements e))) (\<lambda>source.
       Ok \<lparr>pp_node_id = to_node, pp_device = pp_device source, pp_offset = 0,
           pp_length = word_of_nat (length data), pp_role = Replica\<rparr>))"

definition transfer_tensor ::
  "tensor_id \<Rightarrow> node_id \<Rightarrow> node_id \<Rightarrow> u8 list \<Rightarrow> (tensor_directory, directory_error, unit) action" where
  "transfer_tensor t from_node to_node data =
     bind_action (\<lambda>d. (transfer_lookup t from_node to_node data d, d)) (add_placement t)"

definition get_tensors_for_replication :: "uuid \<Rightarrow> tensor_directory \<Rightarrow> tensor_entry list" where
  "get_tensors_for_replication sid d =
     filter (\<lambda>e. 1 < length (te_placements e) \<or> te_mutable e) (hm_values (td_tensors d))"

section \<open>The index\<close>

text \<open>The abstract content: the nodes a tensor is placed on, and what the index lists for a node.\<close>

definition placed_on :: "(tensor_id, tensor_entry) hash_map \<Rightarrow> tensor_id \<Rightarrow> node_id \<Rightarrow> bool" where
  "placed_on tensors t n \<longleftrightarrow>
     (\<exists>e. hm_get tensors t = Some e \<and> n \<in> pp_node_id ` set (te_placements e))"

definition indexed :: "(node_id, tensor_id list) hash_map \<Rightarrow> node_id \<Rightarrow> tensor_id set" where
  "indexed index n = (case hm_get index n of None \<Rightarrow> {} | Some ts \<Rightarrow> set ts)"

definition index_complete :: "tensor_directory \<Rightarrow> bool" where
  "index_complete d \<longleftrightarrow>
     (\<forall>t n. placed_on (td_tensors d) t n \<longrightarrow> t \<in> indexed (td_node_tensors d) n)"

definition index_sound :: "tensor_directory \<Rightarrow> bool" where
  "index_sound d \<longleftrightarrow>
     (\<forall>t n. t \<in> indexed (td_node_tensors d) n \<longrightarrow> placed_on (td_tensors d) t n)"

definition directory_inv :: "tensor_directory \<Rightarrow> bool" where
  "directory_inv d \<longleftrightarrow> hm_ok (td_tensors d) \<and> hm_ok (td_node_tensors d) \<and> index_complete d \<and>
     (\<forall>t e. hm_get (td_tensors d) t = Some e \<longrightarrow> te_placements e \<noteq> [] \<and> te_tensor_id e = t) \<and>
     (\<forall>n ts. hm_get (td_node_tensors d) n = Some ts \<longrightarrow> ts \<noteq> [])"

lemma indexed_push [simp]:
  "indexed (index_push n t index) m = (if m = n then insert t (indexed index n) else indexed index m)"
  by (auto simp: indexed_def index_push_def split: option.splits)

lemma indexed_remove [simp]:
  "indexed (index_remove n t index) m = (if m = n then indexed index n - {t} else indexed index m)"
  by (auto simp: indexed_def index_remove_def filter_empty_conv split: option.splits)

lemma indexed_hm_remove [simp]: "indexed (hm_remove n index) m = (if m = n then {} else indexed index m)"
  by (simp add: indexed_def)

lemma indexed_new [simp]: "indexed hm_new n = {}"
  by (simp add: indexed_def)

lemma index_push_ok: "hm_ok index \<Longrightarrow> hm_ok (index_push n t index)"
  by (simp add: index_push_def)

lemma index_remove_ok: "hm_ok index \<Longrightarrow> hm_ok (index_remove n t index)"
  by (auto simp: index_remove_def split: option.split)

lemma index_push_nonempty:
  "\<forall>n ts. hm_get index n = Some ts \<longrightarrow> ts \<noteq> [] \<Longrightarrow>
   hm_get (index_push m t index) n = Some ts \<Longrightarrow> ts \<noteq> []"
  by (auto simp: index_push_def split: if_splits option.splits)

lemma index_remove_nonempty:
  "\<forall>n ts. hm_get index n = Some ts \<longrightarrow> ts \<noteq> [] \<Longrightarrow>
   hm_get (index_remove m t index) n = Some ts \<Longrightarrow> ts \<noteq> []"
  by (auto simp: index_remove_def filter_empty_conv split: if_splits option.splits)

lemma off_node_nodes [simp]: "pp_node_id ` set (off_node n ps) = pp_node_id ` set ps - {n}"
  by (auto simp: off_node_def)

text \<open>How the placements change with the entry of one tensor.\<close>

lemma placed_on_insert [simp]:
  "placed_on (hm_insert t e tensors) t' n \<longleftrightarrow>
   (if t' = t then n \<in> pp_node_id ` set (te_placements e) else placed_on tensors t' n)"
  by (simp add: placed_on_def)

lemma placed_on_remove [simp]:
  "placed_on (hm_remove t tensors) t' n \<longleftrightarrow> t' \<noteq> t \<and> placed_on tensors t' n"
  by (auto simp: placed_on_def)

lemma placed_on_modify:
  "hm_get tensors t = Some e \<Longrightarrow> placed_on (hm_modify t f tensors) t' n \<longleftrightarrow>
   (if t' = t then n \<in> pp_node_id ` set (te_placements (f e)) else placed_on tensors t' n)"
  by (simp add: placed_on_def)

lemma placed_on_entry:
  "hm_get tensors t = Some e \<Longrightarrow> placed_on tensors t n \<longleftrightarrow> n \<in> pp_node_id ` set (te_placements e)"
  by (simp add: placed_on_def)

lemma placed_on_absent: "hm_get tensors t = None \<Longrightarrow> \<not> placed_on tensors t n"
  by (simp add: placed_on_def)

section \<open>Eviction\<close>

text \<open>What eviction makes of an entry whose id occurs \<open>k\<close> times in the index list.\<close>

definition evicted_entry :: "node_id \<Rightarrow> nat \<Rightarrow> tensor_entry \<Rightarrow> tensor_entry option" where
  "evicted_entry n k e =
     (if off_node n (te_placements e) = [] then None
      else Some (e\<lparr>te_placements := off_node n (te_placements e), te_version := te_version e + of_nat k\<rparr>))"

lemma off_node_idem [simp]: "off_node n (off_node n ps) = off_node n ps"
  by (simp add: off_node_def)

lemma evict_loop_get:
  "evict_loop n ts tensors evicted = (tensors', evicted') \<Longrightarrow>
   hm_get tensors' t = (if t \<in> set ts then Option.bind (hm_get tensors t) (evicted_entry n (count_list ts t))
     else hm_get tensors t)"
proof (induction ts arbitrary: tensors evicted)
  case (Cons t0 ts)
  show ?case
  proof (cases "hm_get tensors t0")
    case None
    with Cons show ?thesis by (cases "t = t0") auto
  next
    case (Some e)
    show ?thesis
    proof (cases "off_node n (te_placements e) = []")
      case True
      then have "evicted_entry n k e = None" for k by (simp add: evicted_entry_def)
      with True Cons Some show ?thesis by (cases "t = t0") auto
    next
      case False
      let ?e = "e\<lparr>te_placements := off_node n (te_placements e), te_version := te_version e + 1\<rparr>"
      have "evict_loop n ts (hm_modify t0 (\<lambda>_. ?e) tensors) evicted = (tensors', evicted')"
        using Cons.prems Some False by simp
      from Cons.IH [OF this] Some False show ?thesis
        by (cases "t = t0"; cases "t \<in> set ts") (auto simp: evicted_entry_def algebra_simps)
    qed
  qed
qed simp

lemma evict_loop_ok:
  "evict_loop n ts tensors evicted = (tensors', evicted') \<Longrightarrow> hm_ok tensors \<Longrightarrow> hm_ok tensors'"
  by (induction n ts tensors evicted rule: evict_loop.induct)
    (auto simp: Let_def split: option.splits if_splits)

lemma evict_loop_evicted:
  "evict_loop n ts tensors evicted = (tensors', evicted') \<Longrightarrow>
   distinct evicted \<Longrightarrow> \<forall>t \<in> set evicted. hm_get tensors t = None \<Longrightarrow>
   distinct evicted' \<and> set evicted' = set evicted \<union>
     {t \<in> set ts. \<exists>e. hm_get tensors t = Some e \<and> off_node n (te_placements e) = []}"
proof (induction ts arbitrary: tensors evicted)
  case (Cons t0 ts)
  show ?case
  proof (cases "hm_get tensors t0")
    case None
    with Cons show ?thesis by auto
  next
    case (Some e)
    show ?thesis
    proof (cases "off_node n (te_placements e) = []")
      case True
      then have loop: "evict_loop n ts (hm_remove t0 tensors) (evicted @ [t0]) = (tensors', evicted')"
        using Cons.prems(1) Some by simp
      have "t0 \<notin> set evicted" using Cons.prems(3) Some by auto
      then have "distinct (evicted @ [t0])" "\<forall>t \<in> set (evicted @ [t0]). hm_get (hm_remove t0 tensors) t = None"
        using Cons.prems by auto
      from Cons.IH [OF loop this] Some True show ?thesis by auto
    next
      case False
      let ?e = "e\<lparr>te_placements := off_node n (te_placements e), te_version := te_version e + 1\<rparr>"
      have loop: "evict_loop n ts (hm_modify t0 (\<lambda>_. ?e) tensors) evicted = (tensors', evicted')"
        using Cons.prems(1) Some False by simp
      have "\<forall>t \<in> set evicted. hm_get (hm_modify t0 (\<lambda>_. ?e) tensors) t = None"
        using Cons.prems(3) Some by auto
      from Cons.IH [OF loop Cons.prems(2) this] Some False show ?thesis by auto
    qed
  qed
qed simp

lemma placed_on_evicted:
  assumes "evict_loop n ts tensors evicted = (tensors', evicted')"
  shows "placed_on tensors' t m \<longleftrightarrow> placed_on tensors t m \<and> (t \<in> set ts \<longrightarrow> m \<noteq> n)"
proof (cases "hm_get tensors t")
  case (Some e)
  have "off_node n (te_placements e) = [] \<Longrightarrow> pp_node_id ` set (te_placements e) \<subseteq> {n}"
    by (auto simp: off_node_def filter_empty_conv)
  with Some show ?thesis
    using evict_loop_get [OF assms, of t] by (auto simp: placed_on_def evicted_entry_def)
qed (use evict_loop_get [OF assms, of t] in \<open>simp add: placed_on_def\<close>)

section \<open>The operations keep the invariant\<close>

datatype directory_op =
    Register datetime tensor_id "usize list" string physical_placement bool "uuid option"
  | Get datetime tensor_id
  | Add tensor_id physical_placement
  | Remove tensor_id node_id
  | Evict node_id
  | Transfer tensor_id node_id node_id "u8 list"

fun directory_step :: "directory_op \<Rightarrow> tensor_directory \<Rightarrow> tensor_directory" where
  "directory_step (Register now t shape dtype p m owner) d = snd (register_tensor now t shape dtype p m owner d)"
| "directory_step (Get now t) d = snd (get_tensor now t d)"
| "directory_step (Add t p) d = snd (add_placement t p d)"
| "directory_step (Remove t n) d = snd (remove_placement t n d)"
| "directory_step (Evict n) d = snd (evict_from_node n d)"
| "directory_step (Transfer t from_node to_node data) d = snd (transfer_tensor t from_node to_node data d)"

text \<open>With \<open>fresh\<close>, no id is registered while it is in the directory.\<close>

inductive directory_reachable :: "bool \<Rightarrow> tensor_directory \<Rightarrow> bool" for fresh :: bool where
  empty: "directory_reachable fresh directory_new"
| step: "directory_reachable fresh d \<Longrightarrow>
    (\<And>now t shape dtype p m owner. op = Register now t shape dtype p m owner \<Longrightarrow>
       fresh \<Longrightarrow> hm_get (td_tensors d) t = None) \<Longrightarrow>
    directory_reachable fresh (directory_step op d)"

lemma directory_inv_new: "directory_inv directory_new"
  by (simp add: directory_inv_def directory_new_def index_complete_def placed_on_def)

lemma register_inv: "directory_inv d \<Longrightarrow> directory_inv (snd (register_tensor now t shape dtype p m owner d))"
  by (auto simp: directory_inv_def register_tensor_def index_complete_def index_push_ok
      dest: index_push_nonempty [rotated])

lemma get_inv: "directory_inv d \<Longrightarrow> directory_inv (snd (get_tensor now t d))"
  by (auto simp: directory_inv_def get_tensor_def index_complete_def placed_on_def Let_def
      split: if_splits)

lemma add_inv: "directory_inv d \<Longrightarrow> directory_inv (snd (add_placement t p d))"
  by (auto simp: directory_inv_def add_placement_def index_complete_def index_push_ok placed_on_modify
      placed_on_entry split: option.split if_splits dest: index_push_nonempty [rotated])

lemma remove_inv: "directory_inv d \<Longrightarrow> directory_inv (snd (remove_placement t n d))"
  by (auto simp: directory_inv_def remove_placement_def index_complete_def index_remove_ok placed_on_modify
      placed_on_entry Let_def split: option.split if_splits dest: index_remove_nonempty [rotated])

lemma transfer_step: "snd (transfer_tensor t f n data d) = d \<or>
  (\<exists>p. pp_node_id p = n \<and> snd (transfer_tensor t f n data d) = snd (add_placement t p d))"
proof (cases "transfer_lookup t f n data d")
  case (Ok p)
  then have "pp_node_id p = n" by (auto simp: transfer_lookup_def)
  with Ok show ?thesis by (auto simp: transfer_tensor_def)
qed (simp_all add: transfer_tensor_def)

lemma evict_inv:
  assumes "directory_inv d"
  shows "directory_inv (snd (evict_from_node n d))"
proof -
  let ?ts = "case hm_get (td_node_tensors d) n of None \<Rightarrow> [] | Some ts \<Rightarrow> ts"
  obtain tensors' evicted where loop: "evict_loop n ?ts (td_tensors d) [] = (tensors', evicted)" by force
  have ts: "set ?ts = indexed (td_node_tensors d) n" by (auto simp: indexed_def split: option.split)
  have get: "hm_get tensors' t = (if t \<in> set ?ts
      then Option.bind (hm_get (td_tensors d) t) (evicted_entry n (count_list ?ts t))
      else hm_get (td_tensors d) t)" for t by (rule evict_loop_get [OF loop])
  have entries: "te_placements e \<noteq> [] \<and> te_tensor_id e = t" if "hm_get tensors' t = Some e" for t e
    using that assms unfolding get
    by (auto simp: directory_inv_def evicted_entry_def bind_eq_Some_conv split: if_splits)
  have complete: "t \<in> indexed (hm_remove n (td_node_tensors d)) m" if "placed_on tensors' t m" for t m
  proof -
    have "placed_on (td_tensors d) t m" "t \<in> indexed (td_node_tensors d) n \<longrightarrow> m \<noteq> n"
      using that by (simp_all add: placed_on_evicted [OF loop] ts)
    with assms show ?thesis by (auto simp: directory_inv_def index_complete_def)
  qed
  have "snd (evict_from_node n d) = \<lparr>td_tensors = tensors', td_node_tensors = hm_remove n (td_node_tensors d)\<rparr>"
    by (simp add: evict_from_node_def loop)
  with assms entries complete evict_loop_ok [OF loop] show ?thesis
    by (auto simp: directory_inv_def index_complete_def split: if_splits)
qed

lemma directory_step_inv: "directory_inv d \<Longrightarrow> directory_inv (directory_step op d)"
proof (cases op)
  case (Transfer t f n data)
  then show "directory_inv d \<Longrightarrow> directory_inv (directory_step op d)"
    using transfer_step [of t f n data d] add_inv by auto
qed (simp_all add: register_inv get_inv add_inv remove_inv evict_inv)

lemma reachable_directory_inv: "directory_reachable fresh d \<Longrightarrow> directory_inv d"
  by (induction rule: directory_reachable.induct) (auto intro: directory_inv_new directory_step_inv)

text \<open>Soundness of the index, when ids are registered once.\<close>

lemma index_soundD: "index_sound d \<Longrightarrow> t \<in> indexed (td_node_tensors d) n \<Longrightarrow> placed_on (td_tensors d) t n"
  by (simp add: index_sound_def)

lemma index_soundI:
  "(\<And>t n. t \<in> indexed (td_node_tensors d) n \<Longrightarrow> placed_on (td_tensors d) t n) \<Longrightarrow> index_sound d"
  by (simp add: index_sound_def)

lemma index_sound_register:
  "index_sound d \<Longrightarrow> hm_get (td_tensors d) t = None \<Longrightarrow>
   index_sound (snd (register_tensor now t shape dtype p m owner d))"
  by (rule index_soundI)
    (auto simp: register_tensor_def placed_on_absent split: if_splits dest!: index_soundD)

lemma index_sound_add: "index_sound d \<Longrightarrow> index_sound (snd (add_placement t p d))"
  by (rule index_soundI)
    (auto simp: add_placement_def placed_on_modify placed_on_entry
      split: option.splits if_splits dest!: index_soundD)

lemma index_sound_remove: "index_sound d \<Longrightarrow> index_sound (snd (remove_placement t n d))"
proof (cases "hm_get (td_tensors d) t")
  case (Some e)
  have "off_node n (te_placements e) = [] \<Longrightarrow> \<forall>p \<in> set (te_placements e). pp_node_id p = n"
    by (auto simp: off_node_def filter_empty_conv)
  then show "index_sound d \<Longrightarrow> ?thesis"
    by (intro index_soundI) (auto simp: Some remove_placement_def placed_on_modify placed_on_entry Let_def
        split: if_splits dest!: index_soundD)
qed (simp add: remove_placement_def)

lemma index_sound_evict: "index_sound d \<Longrightarrow> index_sound (snd (evict_from_node n d))"
proof -
  assume sound: "index_sound d"
  let ?ts = "case hm_get (td_node_tensors d) n of None \<Rightarrow> [] | Some ts \<Rightarrow> ts"
  obtain tensors' evicted where loop: "evict_loop n ?ts (td_tensors d) [] = (tensors', evicted)" by force
  show ?thesis
    using sound placed_on_evicted [OF loop]
    by (intro index_soundI) (auto simp: evict_from_node_def loop split: if_splits dest: index_soundD)
qed

lemma index_sound_get: "index_sound d \<Longrightarrow> index_sound (snd (get_tensor now t d))"
proof -
  have "placed_on (hm_modify t (\<lambda>e. e\<lparr>te_last_accessed := now\<rparr>) (td_tensors d)) = placed_on (td_tensors d)"
    by (auto simp: placed_on_def fun_eq_iff)
  then show "index_sound d \<Longrightarrow> ?thesis" by (simp add: index_sound_def get_tensor_def Let_def)
qed

lemma reachable_index_sound: "directory_reachable True d \<Longrightarrow> index_sound d"
proof (induction rule: directory_reachable.induct)
  case empty
  show ?case by (simp add: index_sound_def directory_new_def)
next
  case (step d op)
  show ?case
  proof (cases op)
    case (Register now t shape dtype p m owner)
    with step show ?thesis by (simp add: index_sound_register)
  next
    case (Transfer t f n data)
    with step.IH transfer_step [of t f n data d] show ?thesis
      using index_sound_add by auto
  qed (use step in \<open>simp_all add: index_sound_get index_sound_add index_sound_remove index_sound_evict\<close>)
qed

section \<open>Properties of the directory\<close>

text \<open>
  C2.  The index misses nothing: in every state the directory reaches, even
  when ids are registered again, a tensor with a placement on a node is among
  the tensors listed for the node, no tensor is kept without a placement and
  no node is kept in the index without a tensor.
\<close>

theorem index_misses_nothing:
  assumes "directory_reachable fresh d" and "hm_get (td_tensors d) t = Some e"
  shows "te_placements e \<noteq> [] \<and>
    (\<forall>p \<in> set (te_placements e). e \<in> set (get_tensors_on_node (pp_node_id p) d)) \<and>
    (\<forall>n. hm_get (td_node_tensors d) n \<noteq> Some [])"
proof -
  have inv: "directory_inv d" by (rule reachable_directory_inv [OF assms(1)])
  have "e \<in> set (get_tensors_on_node (pp_node_id p) d)" if p: "p \<in> set (te_placements e)" for p
  proof -
    have "placed_on (td_tensors d) t (pp_node_id p)" using assms(2) p by (simp add: placed_on_entry)
    then have "t \<in> indexed (td_node_tensors d) (pp_node_id p)"
      using inv by (simp add: directory_inv_def index_complete_def)
    then show ?thesis
      using assms(2) by (auto simp: indexed_def get_tensors_on_node_def map_filter_def image_iff
          split: option.splits intro!: bexI [of _ t])
  qed
  then show ?thesis
    using inv assms(2) by (auto simp: directory_inv_def)
qed

definition sample_placement :: "node_id \<Rightarrow> physical_placement" where
  "sample_placement n = \<lparr>pp_node_id = n, pp_device = ''cuda:0'', pp_offset = 0, pp_length = 1024,
     pp_role = Primary\<rparr>"

definition sample_directory :: tensor_directory where
  "sample_directory =
     snd (add_placement ''w0'' (sample_placement 2)
       (snd (register_tensor 0 ''w0'' [4, 4] ''f16'' (sample_placement 1) False None directory_new)))"

lemma sample_directory_reachable: "directory_reachable fresh sample_directory"
proof -
  have "directory_reachable fresh (directory_step (Add ''w0'' (sample_placement 2))
      (directory_step (Register 0 ''w0'' [4, 4] ''f16'' (sample_placement 1) False None) directory_new))"
    by (intro directory_reachable.intros) (simp_all add: directory_new_def)
  then show ?thesis by (simp add: sample_directory_def)
qed

lemma sample_directory_entry:
  "\<exists>e. hm_get (td_tensors sample_directory) ''w0'' = Some e \<and> te_placements e = [sample_placement 1, sample_placement 2]"
  by (simp add: sample_directory_def register_tensor_def add_placement_def directory_new_def)

theorem index_misses_nothing_witness:
  "\<exists>e. hm_get (td_tensors sample_directory) ''w0'' = Some e \<and> e \<in> set (get_tensors_on_node 2 sample_directory)"
proof -
  obtain e where e: "hm_get (td_tensors sample_directory) ''w0'' = Some e"
    "te_placements e = [sample_placement 1, sample_placement 2]"
    using sample_directory_entry by blast
  from index_misses_nothing [OF sample_directory_reachable e(1)] e show ?thesis
    by (simp add: sample_placement_def)
qed

text \<open>
  C27.  When every id is registered at most once at a time, the index is exact:
  the tensors listed for a node are the entries that have a placement on it,
  so the directory is the placement relation seen from both sides.
\<close>

theorem index_exact:
  assumes "directory_reachable True d"
  shows "set (get_tensors_on_node n d) =
    {e. \<exists>t. hm_get (td_tensors d) t = Some e \<and> n \<in> pp_node_id ` set (te_placements e)}"
proof -
  have listed: "set (get_tensors_on_node n d) =
      {e. \<exists>t \<in> indexed (td_node_tensors d) n. hm_get (td_tensors d) t = Some e}"
    by (auto simp: get_tensors_on_node_def indexed_def map_filter_def image_iff split: option.split)
  have "t \<in> indexed (td_node_tensors d) n \<longleftrightarrow> placed_on (td_tensors d) t n" for t
    using reachable_directory_inv [OF assms] reachable_index_sound [OF assms]
    by (auto simp: directory_inv_def index_complete_def index_sound_def)
  then show ?thesis unfolding listed by (auto simp: placed_on_def)
qed

theorem index_exact_witness:
  "set (get_tensors_on_node 1 sample_directory) =
    {e. \<exists>t. hm_get (td_tensors sample_directory) t = Some e \<and> 1 \<in> pp_node_id ` set (te_placements e)}"
  by (rule index_exact [OF sample_directory_reachable])

text \<open>
  Registering an id again leaves a stale index entry: in every state where
  a tensor is registered on node \<open>m\<close> only, registering it again on another node
  replaces its placements, and the tensor is still listed on \<open>m\<close>, where it is
  no longer placed.
\<close>

theorem reregistration_stale_index:
  assumes "directory_inv d" and "hm_get (td_tensors d) t = Some e" and "pp_node_id ` set (te_placements e) = {m}"
    and "pp_node_id p \<noteq> m" and "register_tensor now t shape dtype p mu owner d = (r, d')"
  shows "\<exists>e'. e' \<in> set (get_tensors_on_node m d') \<and> te_tensor_id e' = t \<and>
    m \<notin> pp_node_id ` set (te_placements e')"
proof -
  have "t \<in> indexed (td_node_tensors d) m"
    using assms(1-3) by (auto simp: directory_inv_def index_complete_def placed_on_def)
  then obtain ts where ts: "hm_get (td_node_tensors d) m = Some ts" "t \<in> set ts"
    by (auto simp: indexed_def split: option.splits)
  obtain e' where e': "hm_get (td_tensors d') t = Some e'" "te_placements e' = [p]" "te_tensor_id e' = t"
    using assms(5) by (auto simp: register_tensor_def)
  have "hm_get (td_node_tensors d') m = Some ts"
    using assms(4,5) ts(1) by (auto simp: register_tensor_def index_push_def)
  then have "e' \<in> set (get_tensors_on_node m d')"
    using ts(2) e'(1) by (auto simp: get_tensors_on_node_def map_filter_def image_iff intro!: bexI [of _ t])
  with e' assms(4) show ?thesis by auto
qed

theorem reregistration_stale_index_witness:
  "\<exists>e'. e' \<in> set (get_tensors_on_node 1 (snd (register_tensor 5 ''w0'' [8] ''f32'' (sample_placement 3) False None
       (snd (register_tensor 0 ''w0'' [4] ''f16'' (sample_placement 1) False None directory_new))))) \<and>
     te_tensor_id e' = ''w0'' \<and> 1 \<notin> pp_node_id ` set (te_placements e')"
proof -
  let ?d = "snd (register_tensor 0 ''w0'' [4] ''f16'' (sample_placement 1) False None directory_new)"
  obtain e where e: "hm_get (td_tensors ?d) ''w0'' = Some e" "pp_node_id ` set (te_placements e) = {1}"
    by (auto simp: register_tensor_def directory_new_def sample_placement_def)
  show ?thesis
    by (rule reregistration_stale_index [OF register_inv [OF directory_inv_new] e _ surjective_pairing])
      (simp add: sample_placement_def)
qed

text \<open>
  C32.  Eviction: after evicting a node nothing is placed or listed on it, the
  placements on other nodes are kept, and the evicted ids returned are, each
  once, those of the tensors that were placed on that node only, which are
  removed.
\<close>

theorem evict_clears_node:
  assumes "directory_reachable fresh d" and "evict_from_node n d = (r, d')"
  shows "get_tensors_on_node n d' = [] \<and>
    (\<forall>t m. placed_on (td_tensors d') t m \<longleftrightarrow> placed_on (td_tensors d) t m \<and> m \<noteq> n) \<and>
    (\<exists>evicted. r = Ok evicted \<and> distinct evicted \<and>
      set evicted = {t. placed_on (td_tensors d) t n \<and> (\<forall>m. placed_on (td_tensors d) t m \<longrightarrow> m = n)})"
proof -
  have inv: "directory_inv d" by (rule reachable_directory_inv [OF assms(1)])
  let ?ts = "case hm_get (td_node_tensors d) n of None \<Rightarrow> [] | Some ts \<Rightarrow> ts"
  obtain tensors' evicted where loop: "evict_loop n ?ts (td_tensors d) [] = (tensors', evicted)" by force
  have r: "r = Ok evicted" and d': "d' = \<lparr>td_tensors = tensors', td_node_tensors = hm_remove n (td_node_tensors d)\<rparr>"
    using assms(2) by (simp_all add: evict_from_node_def loop)
  have ts: "t \<in> set ?ts \<longleftrightarrow> t \<in> indexed (td_node_tensors d) n" for t
    by (auto simp: indexed_def split: option.split)
  have complete: "placed_on (td_tensors d) t n \<Longrightarrow> t \<in> set ?ts" for t
    using inv unfolding ts by (auto simp: directory_inv_def index_complete_def)
  have "placed_on (td_tensors d') t m \<longleftrightarrow> placed_on (td_tensors d) t m \<and> m \<noteq> n" for t m
    using placed_on_evicted [OF loop, of t m] complete [of t] d' by auto
  moreover have "get_tensors_on_node n d' = []"
    by (simp add: d' get_tensors_on_node_def)
  moreover have "distinct evicted" and ev: "set evicted =
      {t \<in> set ?ts. \<exists>e. hm_get (td_tensors d) t = Some e \<and> off_node n (te_placements e) = []}"
    using evict_loop_evicted [OF loop] by simp_all
  moreover have "set evicted = {t. placed_on (td_tensors d) t n \<and> (\<forall>m. placed_on (td_tensors d) t m \<longrightarrow> m = n)}"
  proof -
    have "(\<exists>e. hm_get (td_tensors d) t = Some e \<and> off_node n (te_placements e) = []) \<longleftrightarrow>
        placed_on (td_tensors d) t n \<and> (\<forall>m. placed_on (td_tensors d) t m \<longrightarrow> m = n)" for t
    proof (cases "hm_get (td_tensors d) t")
      case (Some e)
      then have "te_placements e \<noteq> []" using inv by (simp add: directory_inv_def)
      then obtain p where "p \<in> set (te_placements e)" by (cases "te_placements e") auto
      with Some show ?thesis by (auto simp: placed_on_def off_node_def filter_empty_conv)
    qed (simp add: placed_on_def)
    with complete show ?thesis unfolding ev by blast
  qed
  ultimately show ?thesis using r by blast
qed

theorem evict_clears_node_witness:
  "get_tensors_on_node 1 (snd (evict_from_node 1 sample_directory)) = []"
  using evict_clears_node [OF sample_directory_reachable surjective_pairing, of 1] by blast

end
