(* ===== verification/Directory_Locks.thy ===== *)
theory Directory_Locks
  imports Tensor_Directory
begin

text \<open>
  The two \<open>RwLock\<close>s of the tensor directory under concurrent calls.  A call is
  the sequence of locks it takes before its critical section ends; it holds
  all of them until then.  Any compatible call may go next; progress is stated
  as a call that waits for a lock nobody holds, which every queueing policy of
  the lock grants to one of those waiting for it.

  Calls that take the tensor table before the node index always finish.
  \<open>evict_from_node\<close> and \<open>get_tensors_on_node\<close> take them in the other order, and
  an eviction deadlocks with a concurrent placement.
\<close>

section \<open>Locks and calls\<close>

datatype directory_lock = Tensors | Node_Tensors

datatype lock_mode = Read_Lock | Write_Lock

text \<open>
  The locks of each method in the order of its \<open>.read()\<close> and \<open>.write()\<close> calls.
  \<open>add_placement\<close> and \<open>remove_placement\<close> take the second one only when the tensor
  is found.  \<open>transfer_tensor\<close> gives its lock back and goes on with \<open>add_placement\<close>.
\<close>

definition register_locks :: "(directory_lock \<times> lock_mode) list" where
  "register_locks = [(Tensors, Write_Lock), (Node_Tensors, Write_Lock)]"

definition get_locks :: "(directory_lock \<times> lock_mode) list" where
  "get_locks = [(Tensors, Write_Lock)]"

definition add_locks :: "bool \<Rightarrow> (directory_lock \<times> lock_mode) list" where
  "add_locks found = (Tensors, Write_Lock) # (if found then [(Node_Tensors, Write_Lock)] else [])"

definition remove_locks :: "bool \<Rightarrow> (directory_lock \<times> lock_mode) list" where
  "remove_locks found = (Tensors, Write_Lock) # (if found then [(Node_Tensors, Write_Lock)] else [])"

definition on_node_locks :: "(directory_lock \<times> lock_mode) list" where
  "on_node_locks = [(Node_Tensors, Read_Lock), (Tensors, Read_Lock)]"

definition by_session_locks :: "(directory_lock \<times> lock_mode) list" where
  "by_session_locks = [(Tensors, Read_Lock)]"

definition evict_locks :: "(directory_lock \<times> lock_mode) list" where
  "evict_locks = [(Node_Tensors, Write_Lock), (Tensors, Write_Lock)]"

definition stats_locks :: "(directory_lock \<times> lock_mode) list" where
  "stats_locks = [(Tensors, Read_Lock), (Node_Tensors, Read_Lock)]"

definition transfer_lookup_locks :: "(directory_lock \<times> lock_mode) list" where
  "transfer_lookup_locks = [(Tensors, Read_Lock)]"

definition replication_locks :: "(directory_lock \<times> lock_mode) list" where
  "replication_locks = [(Tensors, Read_Lock)]"

lemmas method_locks = register_locks_def get_locks_def add_locks_def remove_locks_def on_node_locks_def
  by_session_locks_def evict_locks_def stats_locks_def transfer_lookup_locks_def replication_locks_def

text \<open>A call, with whether the tensor is found where that decides the locks.\<close>

datatype directory_call =
    Call_Register
  | Call_Get
  | Call_Add bool
  | Call_Remove bool
  | Call_On_Node
  | Call_By_Session
  | Call_Evict
  | Call_Stats
  | Call_Transfer_Lookup
  | Call_For_Replication

fun lock_program :: "directory_call \<Rightarrow> (directory_lock \<times> lock_mode) list" where
  "lock_program Call_Register = register_locks"
| "lock_program Call_Get = get_locks"
| "lock_program (Call_Add found) = add_locks found"
| "lock_program (Call_Remove found) = remove_locks found"
| "lock_program Call_On_Node = on_node_locks"
| "lock_program Call_By_Session = by_session_locks"
| "lock_program Call_Evict = evict_locks"
| "lock_program Call_Stats = stats_locks"
| "lock_program Call_Transfer_Lookup = transfer_lookup_locks"
| "lock_program Call_For_Replication = replication_locks"

text \<open>A running call: the locks it holds, those it still takes, and whether it has returned.\<close>

record task =
  tk_held :: "(directory_lock \<times> lock_mode) list"
  tk_todo :: "(directory_lock \<times> lock_mode) list"
  tk_done :: bool

definition start_call :: "directory_call \<Rightarrow> task" where
  "start_call c = \<lparr>tk_held = [], tk_todo = lock_program c, tk_done = False\<rparr>"

text \<open>A lock is granted when every conflicting holder is gone: readers share, a writer is alone.\<close>

definition compatible :: "directory_lock \<times> lock_mode \<Rightarrow> task \<Rightarrow> bool" where
  "compatible request t =
     list_all (\<lambda>(l, m). l = fst request \<longrightarrow> m = Read_Lock \<and> snd request = Read_Lock) (tk_held t)"

definition others :: "nat \<Rightarrow> task list \<Rightarrow> task list" where
  "others i ts = take i ts @ drop (Suc i) ts"

inductive lock_step :: "task list \<Rightarrow> task list \<Rightarrow> bool" where
  acquire: "i < length ts \<Longrightarrow> \<not> tk_done (ts ! i) \<Longrightarrow> tk_todo (ts ! i) = request # rest \<Longrightarrow>
    list_all (compatible request) (others i ts) \<Longrightarrow>
    lock_step ts (ts[i := (ts ! i)\<lparr>tk_held := request # tk_held (ts ! i), tk_todo := rest\<rparr>])"
| finish: "i < length ts \<Longrightarrow> \<not> tk_done (ts ! i) \<Longrightarrow> tk_todo (ts ! i) = [] \<Longrightarrow>
    lock_step ts (ts[i := (ts ! i)\<lparr>tk_held := [], tk_done := True\<rparr>])"

inductive_cases lock_stepE: "lock_step ts ts'"

definition all_done :: "task list \<Rightarrow> bool" where
  "all_done ts \<longleftrightarrow> (\<forall>t \<in> set ts. tk_done t)"

definition deadlocked :: "task list \<Rightarrow> bool" where
  "deadlocked ts \<longleftrightarrow> \<not> all_done ts \<and> (\<nexists>ts'. lock_step ts ts')"

section \<open>Ordered calls finish\<close>

text \<open>The calls that take the tensor table first, or only one lock.\<close>

definition ordered_call :: "directory_call \<Rightarrow> bool" where
  "ordered_call c \<longleftrightarrow> c \<noteq> Call_Evict \<and> c \<noteq> Call_On_Node"

text \<open>A task that holds the node index has nothing left to take.\<close>

definition ordered_task :: "task \<Rightarrow> bool" where
  "ordered_task t \<longleftrightarrow>
     (tk_done t \<longrightarrow> tk_held t = []) \<and>
     (Node_Tensors \<in> fst ` set (tk_held t) \<longrightarrow> tk_todo t = []) \<and>
     (tk_held t \<noteq> [] \<longrightarrow> Tensors \<notin> fst ` set (tk_todo t)) \<and>
     (\<forall>l m rest. tk_todo t = (l, m) # rest \<longrightarrow> rest = [] \<or> (l = Tensors \<and> fst ` set rest = {Node_Tensors} \<and> length rest = 1))"

lemma ordered_start: "ordered_call c \<Longrightarrow> ordered_task (start_call c)"
  by (cases c) (auto simp: ordered_call_def ordered_task_def start_call_def method_locks)

lemma ordered_acquire:
  "ordered_task t \<Longrightarrow> \<not> tk_done t \<Longrightarrow> tk_todo t = request # rest \<Longrightarrow>
   ordered_task (t\<lparr>tk_held := request # tk_held t, tk_todo := rest\<rparr>)"
  by (cases request; cases rest) (auto simp: ordered_task_def)

lemma ordered_finish: "ordered_task t \<Longrightarrow> tk_todo t = [] \<Longrightarrow> ordered_task (t\<lparr>tk_held := [], tk_done := True\<rparr>)"
  by (auto simp: ordered_task_def)

lemma lock_step_ordered:
  assumes "lock_step ts ts'" and "\<forall>t \<in> set ts. ordered_task t"
  shows "\<forall>t \<in> set ts'. ordered_task t"
  using assms
proof cases
  case (acquire i request rest)
  then have "ordered_task (ts ! i)" using assms(2) by simp
  then have "ordered_task ((ts ! i)\<lparr>tk_held := request # tk_held (ts ! i), tk_todo := rest\<rparr>)"
    using acquire by (intro ordered_acquire) simp_all
  with assms(2) show ?thesis
    unfolding acquire(1) by (auto dest!: set_update_subset_insert [THEN subsetD])
next
  case (finish i)
  then have "ordered_task (ts ! i)" using assms(2) by simp
  then have "ordered_task ((ts ! i)\<lparr>tk_held := [], tk_done := True\<rparr>)"
    using finish by (intro ordered_finish) simp_all
  with assms(2) show ?thesis
    unfolding finish(1) by (auto dest!: set_update_subset_insert [THEN subsetD])
qed

lemma others_set: "t \<in> set (others i ts) \<Longrightarrow> t \<in> set ts"
  by (auto simp: others_def dest: in_set_takeD in_set_dropD)

text \<open>A task whose next lock nobody holds can take it.\<close>

lemma step_if_free:
  assumes "t \<in> set ts" and "\<not> tk_done t" and "tk_todo t = (l, m) # rest"
    and "\<forall>u \<in> set ts. l \<notin> fst ` set (tk_held u)"
  shows "\<exists>ts'. lock_step ts ts'"
proof -
  obtain i where i: "i < length ts" "ts ! i = t" using assms(1) by (auto simp: in_set_conv_nth)
  have "list_all (compatible (l, m)) (others i ts)"
    unfolding list_all_iff compatible_def using assms(4) others_set by force
  with i assms show ?thesis by (metis acquire)
qed

lemma step_if_idle:
  assumes "t \<in> set ts" and "\<not> tk_done t" and "tk_todo t = []"
  shows "\<exists>ts'. lock_step ts ts'"
proof -
  obtain i where "i < length ts" "ts ! i = t" using assms(1) by (auto simp: in_set_conv_nth)
  with assms show ?thesis by (metis finish)
qed

text \<open>A call that has nothing to wait for: it returns, or nobody holds the lock it takes next.\<close>

definition unblocked :: "task list \<Rightarrow> task \<Rightarrow> bool" where
  "unblocked ts t \<longleftrightarrow> \<not> tk_done t \<and>
     (case tk_todo t of
        [] \<Rightarrow> True
      | (l, m) # rest \<Rightarrow> list_all (\<lambda>u. l \<notin> fst ` set (tk_held u)) ts)"

lemma unblocked_step: "t \<in> set ts \<Longrightarrow> unblocked ts t \<Longrightarrow> \<exists>ts'. lock_step ts ts'"
  unfolding unblocked_def list_all_iff
  by (cases "tk_todo t") (auto intro: step_if_idle step_if_free)

lemma ordered_progress:
  assumes "\<forall>t \<in> set ts. ordered_task t" and "\<not> all_done ts"
  shows "\<exists>t \<in> set ts. unblocked ts t"
proof (rule ccontr)
  assume stuck: "\<not> ?thesis"
  obtain t where t: "t \<in> set ts" "\<not> tk_done t" using assms(2) by (auto simp: all_done_def)
  have busy: "tk_todo u \<noteq> []" if "u \<in> set ts" "\<not> tk_done u" for u
    using that stuck by (auto simp: unblocked_def)
  have held: "\<exists>v \<in> set ts. l \<in> fst ` set (tk_held v)"
    if "u \<in> set ts" "\<not> tk_done u" "tk_todo u = (l, m) # rest" for u l m rest
    using that stuck by (auto simp: unblocked_def list_all_iff)
  have node_free: "Node_Tensors \<notin> fst ` set (tk_held u)" if "u \<in> set ts" for u
    using that assms busy by (cases "tk_done u") (auto simp: ordered_task_def)
  have wants: "\<exists>m rest. tk_todo u = (Tensors, m) # rest" if u: "u \<in> set ts" "\<not> tk_done u" for u
  proof -
    obtain l m rest where todo: "tk_todo u = (l, m) # rest" using busy [OF u] by (cases "tk_todo u") auto
    have "l \<noteq> Node_Tensors" using held [OF u todo] node_free by blast
    with todo show ?thesis by (cases l) auto
  qed
  have tensors_free: "Tensors \<notin> fst ` set (tk_held u)" if "u \<in> set ts" for u
  proof (cases "tk_done u")
    case True
    with that assms show ?thesis by (auto simp: ordered_task_def)
  next
    case False
    with wants [OF that] that assms show ?thesis by (force simp: ordered_task_def)
  qed
  obtain m rest where "tk_todo t = (Tensors, m) # rest" using wants [OF t] by blast
  with held [OF t] tensors_free show False by blast
qed

text \<open>Every step is one lock taken or one call returned: the work left shrinks.\<close>

definition work_left :: "task list \<Rightarrow> nat" where
  "work_left ts = (\<Sum>t\<leftarrow>ts. if tk_done t then 0 else Suc (length (tk_todo t)))"

lemma sum_list_update_less:
  "i < length ts \<Longrightarrow> f (u :: task) < f (ts ! i) \<Longrightarrow> sum_list (map f (ts[i := u])) < (sum_list (map f ts) :: nat)"
  by (induction ts arbitrary: i) (auto split: nat.split simp: nth_Cons)

lemma lock_step_work: "lock_step ts ts' \<Longrightarrow> work_left ts' < work_left ts"
  unfolding work_left_def by (erule lock_stepE) (auto intro!: sum_list_update_less)

lemma reachable_ordered:
  "lock_step\<^sup>*\<^sup>* ts ts' \<Longrightarrow> \<forall>t \<in> set ts. ordered_task t \<Longrightarrow> \<forall>t \<in> set ts'. ordered_task t"
  by (induction rule: rtranclp_induct) (auto dest: lock_step_ordered)

lemma ordered_run_completes:
  "\<forall>t \<in> set ts. ordered_task t \<Longrightarrow> \<exists>ts'. lock_step\<^sup>*\<^sup>* ts ts' \<and> all_done ts'"
proof (induction "work_left ts" arbitrary: ts rule: less_induct)
  case less
  show ?case
  proof (cases "all_done ts")
    case False
    then obtain ts1 where step: "lock_step ts ts1"
      using ordered_progress [OF less.prems] unblocked_step by blast
    then obtain ts' where "lock_step\<^sup>*\<^sup>* ts1 ts'" "all_done ts'"
      using less.hyps lock_step_work lock_step_ordered less.prems by blast
    with step show ?thesis by (meson converse_rtranclp_into_rtranclp)
  qed blast
qed

text \<open>
  C12.  Any number of concurrent calls, among those that take the tensor table
  before the node index, always finish: in every state they reach some call is
  not blocked unless all have returned, every step decreases the work left, so
  no run is longer than the locks and returns it started with, and every
  partial run extends to one in which all the calls have returned.
\<close>
theorem ordered_calls_finish:
  assumes "list_all ordered_call cs" and "lock_step\<^sup>*\<^sup>* (map start_call cs) ts"
  shows "(all_done ts \<or> list_ex (unblocked ts) ts) \<and>
         (\<forall>ts'. lock_step ts ts' \<longrightarrow> work_left ts' < work_left ts) \<and>
         (\<exists>ts'. lock_step\<^sup>*\<^sup>* ts ts' \<and> all_done ts')"
proof -
  have "\<forall>t \<in> set (map start_call cs). ordered_task t"
    using assms(1) ordered_start by (auto simp: list_all_iff)
  then have "\<forall>t \<in> set ts. ordered_task t" using reachable_ordered assms(2) by blast
  then show ?thesis
    using ordered_progress lock_step_work ordered_run_completes by (simp add: list_ex_iff) blast
qed

theorem ordered_calls_finish_witness:
  "\<exists>ts'. lock_step\<^sup>*\<^sup>* (map start_call [Call_Add True, Call_Remove False, Call_Stats]) ts' \<and> all_done ts'"
  using ordered_calls_finish [of "[Call_Add True, Call_Remove False, Call_Stats]"
      "map start_call [Call_Add True, Call_Remove False, Call_Stats]"]
  by (simp add: ordered_call_def)

section \<open>Eviction and placement deadlock\<close>

lemma no_step_if_waiting:
  assumes "\<And>i. i < length ts \<Longrightarrow> \<exists>request rest. tk_todo (ts ! i) = request # rest \<and>
    \<not> list_all (compatible request) (others i ts)"
  shows "\<not> lock_step ts ts'"
proof
  assume "lock_step ts ts'"
  then show False
  proof cases
    case (acquire i request rest)
    then show False using assms [OF acquire(2)] by (elim exE conjE) simp
  next
    case (finish i)
    then show False using assms [OF finish(2)] by (elim exE conjE) simp
  qed
qed

text \<open>The state in which the eviction holds the node index and the placement holds the tensor table.\<close>

definition crossed :: "task list" where
  "crossed =
     [\<lparr>tk_held = [(Node_Tensors, Write_Lock)], tk_todo = [(Tensors, Write_Lock)], tk_done = False\<rparr>,
      \<lparr>tk_held = [(Tensors, Write_Lock)], tk_todo = [(Node_Tensors, Write_Lock)], tk_done = False\<rparr>]"

lemma crossed_reachable: "lock_step\<^sup>*\<^sup>* [start_call Call_Evict, start_call (Call_Add True)] crossed"
proof -
  have a: "lock_step [start_call Call_Evict, start_call (Call_Add True)] [hd crossed, start_call (Call_Add True)]"
    using acquire [of 0 "[start_call Call_Evict, start_call (Call_Add True)]" "(Node_Tensors, Write_Lock)"
        "[(Tensors, Write_Lock)]"]
    by (simp add: start_call_def crossed_def others_def compatible_def method_locks)
  have "lock_step [hd crossed, start_call (Call_Add True)] crossed"
    using acquire [of 1 "[hd crossed, start_call (Call_Add True)]" "(Tensors, Write_Lock)"
        "[(Node_Tensors, Write_Lock)]"]
    by (simp add: start_call_def crossed_def others_def compatible_def method_locks)
  with a show ?thesis by (rule converse_rtranclp_into_rtranclp [OF _ r_into_rtranclp])
qed

text \<open>
  C39.  An eviction and a placement running at the same time can deadlock: they
  reach a state in which neither has returned and neither can take its next
  lock, from which therefore no step is possible.
\<close>
theorem evict_add_deadlock:
  "\<exists>ts. lock_step\<^sup>*\<^sup>* [start_call Call_Evict, start_call (Call_Add True)] ts \<and> deadlocked ts"
proof -
  have "\<not> lock_step crossed ts'" for ts'
    by (rule no_step_if_waiting) (auto simp: crossed_def others_def compatible_def less_Suc_eq)
  moreover have "\<not> all_done crossed" by (simp add: all_done_def crossed_def)
  ultimately show ?thesis using crossed_reachable deadlocked_def by blast
qed

end
