(* ===== verification/Pairing.thy ===== *)
theory Pairing
  imports Samples Bytes
begin

text \<open>
  Node pairing, \<open>crates/secure-pairing/src/lib.rs\<close>: the coordinator hands out a
  random challenge, the node signs it, the coordinator checks the signature and
  issues a device certificate.

  The cryptographic crates (\<open>ed25519_dalek\<close>, \<open>sha2\<close>, \<open>hex\<close>) and the text form of
  a \<open>Uuid\<close> are the record \<open>crypto\<close>, an argument of every operation.  What is
  used of them is \<open>signature_scheme\<close> (a signature made with a key is accepted
  under its public key) and \<open>text_encoding\<close> (hexadecimal and \<open>Uuid\<close> text are
  injective and free of colons).  Random bytes, fresh ids and clock readings are
  arguments.  A time stamp in seconds (\<open>i64\<close>) is an \<open>int\<close>: \<open>chrono\<close> keeps it
  below \<open>2 ^ 43\<close> in size, far from the ends of the type.
\<close>

section \<open>State and messages\<close>

record 'k crypto =
  cr_public :: "'k \<Rightarrow> u8 list"
  cr_key_ok :: "u8 list \<Rightarrow> bool"
  cr_sign :: "'k \<Rightarrow> u8 list \<Rightarrow> u8 list"
  cr_signature_ok :: "u8 list \<Rightarrow> bool"
  cr_verify :: "u8 list \<Rightarrow> u8 list \<Rightarrow> u8 list \<Rightarrow> bool"
  cr_sha256 :: "u8 list \<Rightarrow> u8 list"
  cr_hex :: "u8 list \<Rightarrow> string"
  cr_uuid_text :: "uuid \<Rightarrow> string"

definition signature_scheme :: "'k crypto \<Rightarrow> bool" where
  "signature_scheme cr \<longleftrightarrow> (\<forall>k msg.
     cr_key_ok cr (cr_public cr k) \<and>
     length (cr_sign cr k msg) = 64 \<and>
     cr_signature_ok cr (cr_sign cr k msg) \<and>
     cr_verify cr (cr_public cr k) msg (cr_sign cr k msg))"

definition text_encoding :: "'k crypto \<Rightarrow> bool" where
  "text_encoding cr \<longleftrightarrow>
     inj (cr_hex cr) \<and> (\<forall>bs. CHR '':'' \<notin> set (cr_hex cr bs)) \<and>
     inj (cr_uuid_text cr) \<and> (\<forall>u. CHR '':'' \<notin> set (cr_uuid_text cr u))"

record pending_challenge =
  pc_challenge :: "u8 list"
  pc_timestamp :: datetime
  pc_expires_in_seconds :: u64

record device_certificate =
  dc_node_id :: node_id
  dc_cluster_id :: cluster_id
  dc_public_key :: "u8 list"
  dc_issued_at :: int
  dc_expires_at :: int
  dc_coordinator_signature :: "u8 list"

record node_key_pair =
  nk_node_id :: node_id
  nk_public_key :: "u8 list"
  nk_certificate :: device_certificate

record 'k pairing_manager =
  pm_cluster_id :: cluster_id
  pm_pending_challenges :: "(string, pending_challenge) hash_map"
  pm_node_keys :: "(node_id, node_key_pair) hash_map"
  pm_coordinator_key :: 'k

record pairing_request =
  pq_node_name :: string
  pq_hostname :: string
  pq_cluster_id :: cluster_id
  pq_public_key :: "u8 list"
  pq_fingerprint :: string

record pairing_challenge =
  ph_node_id :: node_id
  ph_challenge :: "u8 list"
  ph_coordinator_public_key :: "u8 list"

record pairing_response =
  pr_node_id :: node_id
  pr_challenge_response :: "u8 list"
  pr_challenge_signature :: "u8 list"

datatype pairing_error =
    ChallengeNotFound
  | ChallengeExpired
  | InvalidPublicKey
  | InvalidSignatureLength
  | InvalidSignature
  | SignatureMismatch

section \<open>Operations\<close>

text \<open>\<open>DateTime::timestamp\<close>: whole seconds, rounded down.\<close>

definition timestamp :: "datetime \<Rightarrow> int" where
  "timestamp t = t div 1000000000"

definition new_coordinator :: "'k \<Rightarrow> cluster_id \<Rightarrow> 'k pairing_manager" where
  "new_coordinator key cluster = \<lparr>pm_cluster_id = cluster, pm_pending_challenges = hm_new,
     pm_node_keys = hm_new, pm_coordinator_key = key\<rparr>"

definition new_node :: "'k \<Rightarrow> cluster_id \<Rightarrow> 'k pairing_manager" where
  "new_node key cluster = \<lparr>pm_cluster_id = cluster, pm_pending_challenges = hm_new,
     pm_node_keys = hm_new, pm_coordinator_key = key\<rparr>"

definition challenge_id :: "'k crypto \<Rightarrow> node_id \<Rightarrow> u8 list \<Rightarrow> string" where
  "challenge_id cr node prefix = cr_uuid_text cr node @ '':'' @ cr_hex cr prefix"

definition manager_public_key :: "'k crypto \<Rightarrow> 'k pairing_manager \<Rightarrow> u8 list" where
  "manager_public_key cr m = cr_public cr (pm_coordinator_key m)"

definition generate_challenge ::
  "'k crypto \<Rightarrow> node_id \<Rightarrow> u8 list \<Rightarrow> datetime \<Rightarrow> pairing_request \<Rightarrow>
   ('k pairing_manager, pairing_error, pairing_challenge) action" where
  "generate_challenge cr node challenge now request m =
     (Ok \<lparr>ph_node_id = node, ph_challenge = challenge,
         ph_coordinator_public_key = manager_public_key cr m\<rparr>,
      m\<lparr>pm_pending_challenges := hm_insert (challenge_id cr node (take 8 challenge))
          \<lparr>pc_challenge = challenge, pc_timestamp = now, pc_expires_in_seconds = 300\<rparr>
          (pm_pending_challenges m)\<rparr>)"

text \<open>The parsing of a public key and of a signature, then the check itself.\<close>

definition parse_signature :: "'k crypto \<Rightarrow> u8 list \<Rightarrow> u8 list \<Rightarrow> (pairing_error, unit) outcome" where
  "parse_signature cr public_key signature =
     (if \<not> cr_key_ok cr public_key then Err InvalidPublicKey
      else if length signature \<noteq> 64 then Err InvalidSignatureLength
      else if \<not> cr_signature_ok cr signature then Err InvalidSignature
      else Ok ())"

definition expired :: "datetime \<Rightarrow> pending_challenge \<Rightarrow> bool" where
  "expired now pending \<longleftrightarrow>
     sint (pc_expires_in_seconds pending) < timestamp now - timestamp (pc_timestamp pending)"

definition check_response ::
  "'k crypto \<Rightarrow> datetime \<Rightarrow> u8 list \<Rightarrow> u8 list \<Rightarrow> pending_challenge \<Rightarrow> (pairing_error, unit) outcome" where
  "check_response cr now public_key signature pending =
     (if expired now pending then Err ChallengeExpired
      else bind_outcome (parse_signature cr public_key signature) (\<lambda>_.
        if cr_verify cr public_key (pc_challenge pending) signature then Ok ()
        else Err SignatureMismatch))"

definition certificate_data ::
  "'k crypto \<Rightarrow> node_id \<Rightarrow> cluster_id \<Rightarrow> u8 list \<Rightarrow> int \<Rightarrow> int \<Rightarrow> string" where
  "certificate_data cr node cluster public_key issued expires =
     cr_uuid_text cr node @ '':'' @ cr_uuid_text cr cluster @ '':'' @ cr_hex cr public_key @ '':'' @
     show_int issued @ '':'' @ show_int expires"

definition certificate_hash ::
  "'k crypto \<Rightarrow> node_id \<Rightarrow> cluster_id \<Rightarrow> u8 list \<Rightarrow> int \<Rightarrow> int \<Rightarrow> u8 list" where
  "certificate_hash cr node cluster public_key issued expires =
     cr_sha256 cr (ascii (certificate_data cr node cluster public_key issued expires))"

definition issue_certificate ::
  "'k crypto \<Rightarrow> datetime \<Rightarrow> node_id \<Rightarrow> u8 list \<Rightarrow>
   ('k pairing_manager, pairing_error, device_certificate) action" where
  "issue_certificate cr clock node public_key m =
     (let now = timestamp clock;
          expires = now + 365 * 24 * 60 * 60;
          hash = certificate_hash cr node (pm_cluster_id m) public_key now expires;
          certificate = \<lparr>dc_node_id = node, dc_cluster_id = pm_cluster_id m, dc_public_key = public_key,
            dc_issued_at = now, dc_expires_at = expires,
            dc_coordinator_signature = cr_sign cr (pm_coordinator_key m) hash\<rparr>
      in (Ok certificate,
          m\<lparr>pm_node_keys := hm_insert node
              \<lparr>nk_node_id = node, nk_public_key = public_key, nk_certificate = certificate\<rparr>
              (pm_node_keys m)\<rparr>))"

text \<open>
  The pending challenge is taken out of the table before any check.  The clock
  is read twice: for the expiry check and for the certificate.
\<close>

definition verify_response ::
  "'k crypto \<Rightarrow> datetime \<Rightarrow> datetime \<Rightarrow> pairing_response \<Rightarrow> u8 list \<Rightarrow>
   ('k pairing_manager, pairing_error, device_certificate) action" where
  "verify_response cr now clock response node_public_key =
     bind_action (lift_outcome (slice_to 8 (pr_challenge_response response))) (\<lambda>prefix m.
       let cid = challenge_id cr (pr_node_id response) prefix
       in case hm_get (pm_pending_challenges m) cid of
            None \<Rightarrow> (Err ChallengeNotFound, m)
          | Some pending \<Rightarrow>
              bind_action
                (lift_outcome
                  (check_response cr now node_public_key (pr_challenge_signature response) pending))
                (\<lambda>_. issue_certificate cr clock (pr_node_id response) node_public_key)
                (m\<lparr>pm_pending_challenges := hm_remove cid (pm_pending_challenges m)\<rparr>))"

definition sign_challenge ::
  "'k crypto \<Rightarrow> u8 list \<Rightarrow> 'k pairing_manager \<Rightarrow> (pairing_error, u8 list) outcome" where
  "sign_challenge cr challenge m = Ok (cr_sign cr (pm_coordinator_key m) challenge)"

definition verify_coordinator_signature ::
  "'k crypto \<Rightarrow> u8 list \<Rightarrow> u8 list \<Rightarrow> u8 list \<Rightarrow> 'k pairing_manager \<Rightarrow> (pairing_error, bool) outcome" where
  "verify_coordinator_signature cr data signature coordinator_public_key m =
     bind_outcome (parse_signature cr coordinator_public_key signature) (\<lambda>_.
       Ok (cr_verify cr coordinator_public_key data signature))"

definition verify_certificate ::
  "'k crypto \<Rightarrow> datetime \<Rightarrow> device_certificate \<Rightarrow> u8 list \<Rightarrow> 'k pairing_manager \<Rightarrow>
   (pairing_error, bool) outcome" where
  "verify_certificate cr clock certificate coordinator_public_key m =
     (if dc_expires_at certificate < timestamp clock then Ok False
      else verify_coordinator_signature cr
        (certificate_hash cr (dc_node_id certificate) (dc_cluster_id certificate)
          (dc_public_key certificate) (dc_issued_at certificate) (dc_expires_at certificate))
        (dc_coordinator_signature certificate) coordinator_public_key m)"

definition revoke_node :: "node_id \<Rightarrow> ('k pairing_manager, pairing_error, unit) action" where
  "revoke_node node m = (Ok (), m\<lparr>pm_node_keys := hm_remove node (pm_node_keys m)\<rparr>)"

definition registered_nodes :: "'k pairing_manager \<Rightarrow> node_id list" where
  "registered_nodes m = hm_keys (pm_node_keys m)"

definition cleanup_expired_challenges :: "datetime \<Rightarrow> 'k pairing_manager \<Rightarrow> 'k pairing_manager" where
  "cleanup_expired_challenges now m = m\<lparr>pm_pending_challenges :=
     hm_retain (\<lambda>_ pending. \<not> expired now pending) (pm_pending_challenges m)\<rparr>"

definition generate_fingerprint :: "'k crypto \<Rightarrow> u8 list \<Rightarrow> string" where
  "generate_fingerprint cr public_key = cr_hex cr (take 8 (cr_sha256 cr public_key))"

section \<open>The invariant of the challenges\<close>

text \<open>
  A run, with what it has generated (node id, challenge, time) and issued
  (response, time of the check, certificate).
\<close>

type_synonym generated = "node_id \<times> u8 list \<times> datetime"
type_synonym issued = "pairing_response \<times> datetime \<times> device_certificate"

inductive pairing_reachable ::
  "'k crypto \<Rightarrow> 'k \<Rightarrow> cluster_id \<Rightarrow> 'k pairing_manager \<Rightarrow> generated list \<Rightarrow> issued list \<Rightarrow> bool"
  for cr key cluster where
  start: "pairing_reachable cr key cluster (new_coordinator key cluster) [] []"
| generate: "pairing_reachable cr key cluster m gen iss \<Longrightarrow>
    generate_challenge cr node challenge now request m = (Ok message, m') \<Longrightarrow>
    pairing_reachable cr key cluster m' (gen @ [(node, challenge, now)]) iss"
| issue: "pairing_reachable cr key cluster m gen iss \<Longrightarrow>
    verify_response cr now clock response pk m = (Ok certificate, m') \<Longrightarrow>
    pairing_reachable cr key cluster m' gen (iss @ [(response, now, certificate)])"
| refuse: "pairing_reachable cr key cluster m gen iss \<Longrightarrow>
    verify_response cr now clock response pk m = (r, m') \<Longrightarrow> \<not> is_ok r \<Longrightarrow>
    pairing_reachable cr key cluster m' gen iss"
| revoke: "pairing_reachable cr key cluster m gen iss \<Longrightarrow>
    revoke_node node m = (r, m') \<Longrightarrow> pairing_reachable cr key cluster m' gen iss"
| cleanup: "pairing_reachable cr key cluster m gen iss \<Longrightarrow>
    pairing_reachable cr key cluster (cleanup_expired_challenges now m) gen iss"

definition generated_id :: "'k crypto \<Rightarrow> generated \<Rightarrow> string" where
  "generated_id cr = (\<lambda>(node, challenge, _). challenge_id cr node (take 8 challenge))"

definition answered_id :: "'k crypto \<Rightarrow> issued \<Rightarrow> string" where
  "answered_id cr = (\<lambda>(response, _). challenge_id cr (pr_node_id response) (take 8 (pr_challenge_response response)))"

text \<open>
  The certificate answers a challenge generated for its node at most 300
  seconds earlier, signed under the certified key.
\<close>

definition justified :: "'k crypto \<Rightarrow> generated list \<Rightarrow> issued \<Rightarrow> bool" where
  "justified cr gen = (\<lambda>(response, now, certificate).
     \<exists>challenge t. (dc_node_id certificate, challenge, t) \<in> set gen \<and>
       timestamp now - timestamp t \<le> 300 \<and>
       cr_verify cr (dc_public_key certificate) challenge (pr_challenge_signature response))"

definition pending_inv :: "'k crypto \<Rightarrow> 'k pairing_manager \<Rightarrow> generated list \<Rightarrow> bool" where
  "pending_inv cr m gen \<longleftrightarrow>
     (\<forall>cid p. hm_get (pm_pending_challenges m) cid = Some p \<longrightarrow>
        pc_expires_in_seconds p = 300 \<and>
        (\<exists>node. cid = challenge_id cr node (take 8 (pc_challenge p)) \<and>
          (node, pc_challenge p, pc_timestamp p) \<in> set gen))"

definition keys_inv :: "'k pairing_manager \<Rightarrow> issued list \<Rightarrow> bool" where
  "keys_inv m iss \<longleftrightarrow>
     (\<forall>node k. hm_get (pm_node_keys m) node = Some k \<longrightarrow>
        (\<exists>e \<in> set iss. snd (snd e) = nk_certificate k \<and> dc_node_id (nk_certificate k) = node))"

definition pairing_inv :: "'k crypto \<Rightarrow> 'k pairing_manager \<Rightarrow> generated list \<Rightarrow> issued list \<Rightarrow> bool" where
  "pairing_inv cr m gen iss \<longleftrightarrow>
     hm_ok (pm_pending_challenges m) \<and>
     mset (map (answered_id cr) iss) + mset (hm_keys (pm_pending_challenges m))
       \<subseteq># mset (map (generated_id cr) gen) \<and>
     pending_inv cr m gen \<and> keys_inv m iss \<and> list_all (justified cr gen) iss"

lemma append_colon_inject:
  "CHR '':'' \<notin> set a \<Longrightarrow> CHR '':'' \<notin> set b \<Longrightarrow>
   a @ CHR '':'' # r = b @ CHR '':'' # s \<longleftrightarrow> a = b \<and> r = s"
proof (induction a arbitrary: b)
  case Nil
  then show ?case by (cases b) auto
next
  case (Cons c a)
  then show ?case by (cases b) auto
qed

lemma challenge_id_node:
  "text_encoding cr \<Longrightarrow> challenge_id cr node p = challenge_id cr node' p' \<Longrightarrow> node = node'"
  by (auto simp: challenge_id_def text_encoding_def append_colon_inject dest: injD)

text \<open>The certificate of a verification that succeeds, and the table it leaves.\<close>

lemma check_response_Ok:
  "check_response cr now pk signature pending = Ok u \<Longrightarrow>
   \<not> expired now pending \<and> cr_verify cr pk (pc_challenge pending) signature"
  by (simp add: check_response_def split: if_splits)

lemma check_response_total: "check_response cr now pk signature pending \<noteq> Panic p"
  by (simp add: check_response_def parse_signature_def)

lemma verify_response_cases:
  assumes "verify_response cr now clock response pk m = (r, m')"
    and "cid = challenge_id cr (pr_node_id response) (take 8 (pr_challenge_response response))"
  obtains
    (short) "length (pr_challenge_response response) < 8" "r = Panic Slice_Out_Of_Range" "m' = m"
  | (missing) "8 \<le> length (pr_challenge_response response)"
      "hm_get (pm_pending_challenges m) cid = None" "r = Err ChallengeNotFound" "m' = m"
  | (refused) pending e where "8 \<le> length (pr_challenge_response response)"
      "hm_get (pm_pending_challenges m) cid = Some pending" "r = Err e"
      "m' = m\<lparr>pm_pending_challenges := hm_remove cid (pm_pending_challenges m)\<rparr>"
  | (issued) pending where "8 \<le> length (pr_challenge_response response)"
      "hm_get (pm_pending_challenges m) cid = Some pending" "\<not> expired now pending"
      "cr_verify cr pk (pc_challenge pending) (pr_challenge_signature response)"
      "issue_certificate cr clock (pr_node_id response) pk
         (m\<lparr>pm_pending_challenges := hm_remove cid (pm_pending_challenges m)\<rparr>) = (r, m')"
proof (cases "8 \<le> length (pr_challenge_response response)")
  case False
  then have "r = Panic Slice_Out_Of_Range" "m' = m"
    using assms(1) by (simp_all add: verify_response_def slice_to_def)
  with False short show ?thesis by simp
next
  case long: True
  show ?thesis
  proof (cases "hm_get (pm_pending_challenges m) cid")
    case None
    then have "r = Err ChallengeNotFound" "m' = m"
      using assms long by (simp_all add: verify_response_def slice_to_def Let_def)
    then show ?thesis by (rule missing [OF long None])
  next
    case (Some pending)
    let ?check = "check_response cr now pk (pr_challenge_signature response) pending"
    let ?m = "m\<lparr>pm_pending_challenges := hm_remove cid (pm_pending_challenges m)\<rparr>"
    have run: "bind_action (lift_outcome ?check) (\<lambda>_. issue_certificate cr clock (pr_node_id response) pk) ?m
        = (r, m')"
      using assms Some long by (simp add: verify_response_def slice_to_def Let_def)
    show ?thesis
    proof (cases ?check)
      case (Ok u)
      then have "issue_certificate cr clock (pr_node_id response) pk ?m = (r, m')" using run by simp
      then show ?thesis using check_response_Ok [OF Ok] by (intro issued [OF long Some]) simp_all
    next
      case (Err e)
      then have "r = Err e" "m' = ?m" using run by simp_all
      then show ?thesis by (rule refused [OF long Some])
    next
      case (Panic p)
      then show ?thesis by (simp add: check_response_total)
    qed
  qed
qed

lemma issue_certificate_fields:
  "issue_certificate cr clock node pk m = (Ok certificate, m') \<Longrightarrow>
   dc_node_id certificate = node \<and> dc_public_key certificate = pk \<and>
   pm_pending_challenges m' = pm_pending_challenges m \<and>
   pm_node_keys m' = hm_insert node \<lparr>nk_node_id = node, nk_public_key = pk, nk_certificate = certificate\<rparr>
     (pm_node_keys m)"
  by (auto simp: issue_certificate_def Let_def)

lemma justified_mono: "justified cr gen e \<Longrightarrow> set gen \<subseteq> set gen' \<Longrightarrow> justified cr gen' e"
  unfolding justified_def by fast

lemma pending_inv_remove:
  "pending_inv cr m gen \<Longrightarrow> pending_inv cr (m\<lparr>pm_pending_challenges := hm_remove cid (pm_pending_challenges m)\<rparr>) gen"
  by (simp add: pending_inv_def)

lemma spent_generate:
  "A + B \<subseteq># G \<Longrightarrow> B' \<subseteq># add_mset x B \<Longrightarrow> A + B' \<subseteq># add_mset x G"
  by (metis mset_subset_eq_mono_add_left_cancel mset_subset_eq_add_mset_cancel subset_mset.order_trans
      union_mset_add_mset_right)

lemma pairing_inv_generate:
  assumes "pairing_inv cr m gen iss" and "generate_challenge cr node challenge now request m = (Ok message, m')"
  shows "pairing_inv cr m' (gen @ [(node, challenge, now)]) iss"
proof -
  have "mset (hm_keys (pm_pending_challenges m'))
      \<subseteq># add_mset (challenge_id cr node (take 8 challenge)) (mset (hm_keys (pm_pending_challenges m)))"
    using assms by (auto simp: generate_challenge_def hm_keys_insert)
  then have "mset (map (answered_id cr) iss) + mset (hm_keys (pm_pending_challenges m'))
       \<subseteq># add_mset (challenge_id cr node (take 8 challenge)) (mset (map (generated_id cr) gen))"
    using assms(1) unfolding pairing_inv_def by (blast intro: spent_generate)
  then have "mset (map (answered_id cr) iss) + mset (hm_keys (pm_pending_challenges m'))
       \<subseteq># mset (map (generated_id cr) (gen @ [(node, challenge, now)]))"
    by (simp add: generated_id_def)
  moreover have "pending_inv cr m' (gen @ [(node, challenge, now)])"
    using assms unfolding pairing_inv_def pending_inv_def generate_challenge_def
    by (fastforce split: if_splits)
  ultimately show ?thesis
    using assms by (auto simp: pairing_inv_def keys_inv_def generate_challenge_def list_all_iff
        intro: justified_mono)
qed

text \<open>Whatever takes challenges away and leaves the rest alone keeps the invariant.\<close>

lemma pairing_inv_shrink:
  assumes "pairing_inv cr m gen iss"
    and "pm_node_keys m' = pm_node_keys m" and "hm_ok (pm_pending_challenges m')"
    and "mset (hm_keys (pm_pending_challenges m')) \<subseteq># mset (hm_keys (pm_pending_challenges m))"
    and "\<And>cid p. hm_get (pm_pending_challenges m') cid = Some p \<Longrightarrow>
      hm_get (pm_pending_challenges m) cid = Some p"
  shows "pairing_inv cr m' gen iss"
proof -
  have "mset (map (answered_id cr) iss) + mset (hm_keys (pm_pending_challenges m'))
      \<subseteq># mset (map (generated_id cr) gen)"
    using assms(1,4) unfolding pairing_inv_def
    by (meson mset_subset_eq_mono_add_left_cancel subset_mset.order_trans)
  moreover have "pending_inv cr m' gen"
    using assms(1,5) unfolding pairing_inv_def pending_inv_def by meson
  ultimately show ?thesis
    using assms by (simp add: pairing_inv_def keys_inv_def)
qed

lemma removed_keys: "mset (hm_keys (hm_remove k m)) \<subseteq># mset (hm_keys m)"
  unfolding hm_keys_remove by simp

lemma pairing_inv_refuse:
  assumes "pairing_inv cr m gen iss" and "verify_response cr now clock response pk m = (r, m')"
    and "\<not> is_ok r"
  shows "pairing_inv cr m' gen iss"
  using assms(2) refl
proof (cases rule: verify_response_cases)
  case (refused pending e)
  have "hm_ok (pm_pending_challenges m)" using assms(1) by (simp add: pairing_inv_def)
  with refused show ?thesis
    by (intro pairing_inv_shrink [OF assms(1)]) (simp_all add: removed_keys split: if_splits)
next
  case (issued pending)
  with assms(3) show ?thesis by (auto simp: issue_certificate_def Let_def)
qed (use assms in simp_all)

lemma pairing_inv_issue:
  assumes "text_encoding cr" and inv: "pairing_inv cr m gen iss"
    and "verify_response cr now clock response pk m = (Ok certificate, m')"
  shows "pairing_inv cr m' gen (iss @ [(response, now, certificate)])"
  using assms(3) refl
proof (cases rule: verify_response_cases)
  case (issued pending)
  let ?cid = "challenge_id cr (pr_node_id response) (take 8 (pr_challenge_response response))"
  note fields = issue_certificate_fields [OF issued(5)]
  have ok: "hm_ok (pm_pending_challenges m)" using inv by (simp add: pairing_inv_def)
  have "answered_id cr (response, now, certificate) = ?cid" by (simp add: answered_id_def)
  then have spent: "mset (map (answered_id cr) (iss @ [(response, now, certificate)])) +
      mset (hm_keys (pm_pending_challenges m')) \<subseteq># mset (map (generated_id cr) gen)"
    using inv hm_keys_remove_mset [OF ok issued(2)] fields by (simp add: pairing_inv_def)
  obtain node where node: "?cid = challenge_id cr node (take 8 (pc_challenge pending))"
      "(node, pc_challenge pending, pc_timestamp pending) \<in> set gen"
    and "pc_expires_in_seconds pending = 300"
    using inv issued(2) unfolding pairing_inv_def pending_inv_def by blast
  then have "timestamp now - timestamp (pc_timestamp pending) \<le> 300"
    using issued(3) by (simp add: expired_def)
  moreover have "node = dc_node_id certificate"
    using challenge_id_node [OF assms(1) node(1)] fields by simp
  ultimately have "justified cr gen (response, now, certificate)"
    using node(2) issued(4) fields by (auto simp: justified_def)
  moreover have "pending_inv cr m' gen"
    using inv fields by (auto simp: pairing_inv_def pending_inv_def split: if_splits)
  moreover have "keys_inv m' (iss @ [(response, now, certificate)])"
    using inv fields by (auto simp: pairing_inv_def keys_inv_def split: if_splits)
  moreover have "hm_ok (pm_pending_challenges m')" using ok fields by simp
  ultimately show ?thesis using inv spent by (simp add: pairing_inv_def)
qed (use assms in simp_all)

lemma pairing_inv_revoke:
  "pairing_inv cr m gen iss \<Longrightarrow> revoke_node node m = (r, m') \<Longrightarrow> pairing_inv cr m' gen iss"
  by (auto simp: pairing_inv_def pending_inv_def keys_inv_def revoke_node_def split: if_splits)

lemma pairing_inv_cleanup:
  assumes "pairing_inv cr m gen iss"
  shows "pairing_inv cr (cleanup_expired_challenges now m) gen iss"
proof -
  have "hm_ok (pm_pending_challenges m)" using assms by (simp add: pairing_inv_def)
  then show ?thesis
    by (intro pairing_inv_shrink [OF assms])
      (simp_all add: cleanup_expired_challenges_def hm_keys_retain hm_get_retain)
qed

lemma pairing_inv_start: "pairing_inv cr (new_coordinator key cluster) [] []"
  by (simp add: pairing_inv_def pending_inv_def keys_inv_def new_coordinator_def hm_keys_def hm_new_def
      hm_get_def hm_ok_def)

lemma reachable_pairing_inv:
  "pairing_reachable cr key cluster m gen iss \<Longrightarrow> text_encoding cr \<Longrightarrow> pairing_inv cr m gen iss"
  by (induction rule: pairing_reachable.induct)
    (blast intro: pairing_inv_start pairing_inv_generate pairing_inv_issue pairing_inv_refuse
      pairing_inv_revoke pairing_inv_cleanup)+

section \<open>A concrete instance of the parameters\<close>

definition sample_hex :: "u8 list \<Rightarrow> string" where
  "sample_hex bs = concat (map (\<lambda>b. [char_of (97 + unat b div 16), char_of (97 + unat b mod 16)]) bs)"

definition sample_crypto :: "u8 list crypto" where
  "sample_crypto = \<lparr>
     cr_public = (\<lambda>k. k),
     cr_key_ok = (\<lambda>_. True),
     cr_sign = (\<lambda>k msg. take 64 (k @ msg @ replicate 64 0)),
     cr_signature_ok = (\<lambda>_. True),
     cr_verify = (\<lambda>pk msg sig. sig = take 64 (pk @ msg @ replicate 64 0)),
     cr_sha256 = (\<lambda>bs. take 32 (bs @ replicate 32 0)),
     cr_hex = sample_hex,
     cr_uuid_text = (\<lambda>u. sample_hex (be_bytes 16 (unat u)))\<rparr>"

definition sample_pairing_request :: pairing_request where
  "sample_pairing_request = \<lparr>pq_node_name = ''worker'', pq_hostname = ''worker.local'', pq_cluster_id = 3,
     pq_public_key = [1, 2], pq_fingerprint = ''00''\<rparr>"

lemma of_char_nibble: "d < 16 \<Longrightarrow> of_char (char_of (97 + d :: nat) :: char) = 97 + d"
  by (simp add: of_char_of [where 'a = nat])

lemma nibble_inject:
  assumes "a < 16" and "b < 16" and "(char_of (97 + a :: nat) :: char) = char_of (97 + b)"
  shows "a = b"
  using assms of_char_nibble by (metis add_left_cancel)

lemma sample_hex_inj: "inj sample_hex"
proof (rule injI)
  show "sample_hex as = sample_hex bs \<Longrightarrow> as = bs" for as bs
  proof (induction as arbitrary: bs)
    case Nil
    then show ?case by (cases bs) (simp_all add: sample_hex_def)
  next
    case (Cons a as)
    then obtain b bs' where bs: "bs = b # bs'" by (cases bs) (simp_all add: sample_hex_def)
    have byte: "unat x div 16 < 16" for x :: u8 using unat_bound [of x] by simp
    have "unat a div 16 = unat b div 16" and "unat a mod 16 = unat b mod 16"
      using Cons.prems byte by (auto simp: sample_hex_def bs intro: nibble_inject)
    then have "a = b" by (metis div_mult_mod_eq word_unat_eq_iff)
    moreover have "as = bs'" using Cons.prems by (intro Cons.IH) (simp add: sample_hex_def bs)
    ultimately show ?case by (simp add: bs)
  qed
qed

lemma sample_hex_no_colon: "CHR '':'' \<notin> set (sample_hex bs)"
proof -
  have "char_of (97 + d) \<noteq> CHR '':''" if "d < 16" for d :: nat
  proof
    assume "(char_of (97 + d) :: char) = CHR '':''"
    then have "97 + d = of_char (CHR '':'')" using of_char_nibble [OF that] by metis
    then show False by simp
  qed
  moreover have "unat b div 16 < 16" "unat b mod 16 < 16" for b :: u8 using unat_bound [of b] by simp_all
  moreover have "\<exists>b :: u8. c = char_of (97 + unat b div 16) \<or> c = char_of (97 + unat b mod 16)"
    if "c \<in> set (sample_hex bs)" for c
    using that by (auto simp: sample_hex_def)
  ultimately show ?thesis by metis
qed

lemma sample_text_encoding: "text_encoding sample_crypto"
proof -
  have "inj (\<lambda>u :: uuid. be_bytes 16 (unat u))"
  proof (rule injI)
    fix u v :: uuid
    assume "be_bytes 16 (unat u) = be_bytes 16 (unat v)"
    then have "be_nat (be_bytes 16 (unat u)) = be_nat (be_bytes 16 (unat v))" by simp
    then show "u = v" using unat_bound [of u] unat_bound [of v] by (simp add: be_nat_bytes word_unat_eq_iff)
  qed
  then have "inj (\<lambda>u :: uuid. sample_hex (be_bytes 16 (unat u)))"
    using sample_hex_inj by (auto simp: inj_def)
  then show ?thesis
    by (simp add: text_encoding_def sample_crypto_def sample_hex_inj sample_hex_no_colon)
qed

lemma sample_signature_scheme: "signature_scheme sample_crypto"
  by (simp add: signature_scheme_def sample_crypto_def min_def)

section \<open>Properties\<close>

lemma verify_issued_certificate:
  assumes "signature_scheme cr" and "issue_certificate cr clock node pk m = (Ok certificate, m')"
  shows "verify_certificate cr t certificate (manager_public_key cr m) any =
    Ok (timestamp t \<le> timestamp clock + 31536000)"
  using assms
  by (auto simp: issue_certificate_def verify_certificate_def verify_coordinator_signature_def
      parse_signature_def signature_scheme_def manager_public_key_def Let_def)

text \<open>
  C5.  Pairing works: a node that signs its challenge and answers within 300
  seconds, whatever the clocks, gets a certificate for its id, key and cluster
  and is registered; the certificate verifies under the coordinator's key until
  one year after its issue and not later, whatever the state of the verifier,
  hence also after \<open>revoke_node\<close>; and the challenge is spent, so no response to
  it is accepted again.
\<close>
theorem pairing_roundtrip:
  assumes "signature_scheme cr"
    and "8 \<le> length challenge" and "timestamp check \<le> timestamp now + 300"
    and "generate_challenge cr node challenge now request coordinator = (Ok message, m1)"
    and "sign_challenge cr (ph_challenge message) member = Ok sig"
    and "response = \<lparr>pr_node_id = ph_node_id message, pr_challenge_response = ph_challenge message,
        pr_challenge_signature = sig\<rparr>"
  shows "\<exists>certificate m2.
    verify_response cr check clock response (manager_public_key cr member) m1 = (Ok certificate, m2) \<and>
    dc_node_id certificate = node \<and>
    dc_cluster_id certificate = pm_cluster_id coordinator \<and>
    dc_public_key certificate = manager_public_key cr member \<and>
    node \<in> set (registered_nodes m2) \<and>
    (\<forall>t verifier. verify_certificate cr t certificate (ph_coordinator_public_key message) verifier =
       Ok (timestamp t \<le> timestamp clock + 31536000)) \<and>
    (\<forall>check' clock' pk. verify_response cr check' clock' response pk m2 = (Err ChallengeNotFound, m2))"
proof -
  let ?cid = "challenge_id cr node (take 8 challenge)"
  let ?pending = "\<lparr>pc_challenge = challenge, pc_timestamp = now, pc_expires_in_seconds = 300\<rparr>"
  let ?m = "m1\<lparr>pm_pending_challenges := hm_remove ?cid (pm_pending_challenges m1)\<rparr>"
  have message: "message = \<lparr>ph_node_id = node, ph_challenge = challenge,
      ph_coordinator_public_key = manager_public_key cr coordinator\<rparr>"
    and m1: "hm_get (pm_pending_challenges m1) ?cid = Some ?pending"
      "pm_coordinator_key m1 = pm_coordinator_key coordinator" "pm_cluster_id m1 = pm_cluster_id coordinator"
    using assms(4) by (auto simp: generate_challenge_def)
  have response: "response = \<lparr>pr_node_id = node, pr_challenge_response = challenge,
      pr_challenge_signature = cr_sign cr (pm_coordinator_key member) challenge\<rparr>"
    using assms(5,6) by (simp add: message sign_challenge_def)
  have "check_response cr check (manager_public_key cr member) (pr_challenge_signature response) ?pending = Ok ()"
    using assms(1,3)
    by (simp add: check_response_def expired_def parse_signature_def response signature_scheme_def
        manager_public_key_def)
  moreover obtain certificate m2 where
    issue: "issue_certificate cr clock node (manager_public_key cr member) ?m = (Ok certificate, m2)"
    by (simp add: issue_certificate_def Let_def)
  ultimately have "verify_response cr check clock response (manager_public_key cr member) m1 = (Ok certificate, m2)"
    using assms(2) m1 by (simp add: verify_response_def response slice_to_Ok Let_def)
  moreover have "dc_cluster_id certificate = pm_cluster_id coordinator"
    using issue m1 by (auto simp: issue_certificate_def Let_def)
  moreover note fields = issue_certificate_fields [OF issue]
  moreover have "node \<in> set (registered_nodes m2)"
    using fields hm_get_keys [of "pm_node_keys m2" node] by (simp add: registered_nodes_def)
  moreover have "manager_public_key cr ?m = ph_coordinator_public_key message"
    using m1 by (simp add: message manager_public_key_def)
  moreover have "verify_response cr check' clock' response pk m2 = (Err ChallengeNotFound, m2)" for check' clock' pk
    using assms(2) fields by (simp add: verify_response_def response slice_to_Ok Let_def)
  ultimately show ?thesis
    using verify_issued_certificate [OF assms(1) issue] by metis
qed

theorem pairing_roundtrip_witness:
  "\<exists>certificate m2.
    verify_response sample_crypto 200000000000 201000000000
      \<lparr>pr_node_id = 7, pr_challenge_response = replicate 32 5,
       pr_challenge_signature = take 64 ([1, 2] @ replicate 32 5 @ replicate 64 0)\<rparr> [1, 2]
      (snd (generate_challenge sample_crypto 7 (replicate 32 5) 0 sample_pairing_request (new_coordinator [9] 3)))
      = (Ok certificate, m2) \<and>
    dc_node_id certificate = 7 \<and> dc_cluster_id certificate = 3 \<and> dc_public_key certificate = [1, 2]"
proof -
  obtain message m1 where
    gen: "generate_challenge sample_crypto 7 (replicate 32 5) 0 sample_pairing_request (new_coordinator [9] 3) = (Ok message, m1)"
    by (simp add: generate_challenge_def)
  then have message: "message = \<lparr>ph_node_id = 7, ph_challenge = replicate 32 5, ph_coordinator_public_key = [9]\<rparr>"
    by (auto simp: generate_challenge_def new_coordinator_def manager_public_key_def sample_crypto_def)
  let ?sig = "take 64 ([1, 2] @ replicate 32 5 @ replicate 64 0) :: u8 list"
  let ?response = "\<lparr>pr_node_id = 7, pr_challenge_response = replicate 32 5, pr_challenge_signature = ?sig\<rparr>"
  have key: "manager_public_key sample_crypto (new_node [1, 2] 3) = [1, 2]"
    by (simp add: manager_public_key_def new_node_def sample_crypto_def)
  have sig: "sign_challenge sample_crypto (ph_challenge message) (new_node [1, 2] 3) = Ok ?sig"
    by (simp add: sign_challenge_def message new_node_def sample_crypto_def)
  have response: "?response = \<lparr>pr_node_id = ph_node_id message, pr_challenge_response = ph_challenge message,
      pr_challenge_signature = ?sig\<rparr>"
    by (simp add: message)
  obtain certificate m2 where
    "verify_response sample_crypto 200000000000 201000000000 ?response [1, 2] m1 = (Ok certificate, m2)"
    "dc_node_id certificate = 7" "dc_cluster_id certificate = pm_cluster_id (new_coordinator [9] 3 :: u8 list pairing_manager)"
    "dc_public_key certificate = [1, 2]"
    using pairing_roundtrip [OF sample_signature_scheme _ _ gen sig response,
        where check = 200000000000 and clock = 201000000000, unfolded key]
    by (auto simp: timestamp_def)
  then show ?thesis
    unfolding gen snd_conv by (intro exI conjI) (simp_all add: new_coordinator_def)
qed

text \<open>
  C8.  No certificate without a fresh, signed challenge: in every state the
  coordinator reaches, each certificate issued answers a challenge generated
  for that node at most 300 seconds before, signed under the certified key; no
  challenge has been answered twice; and every registered node holds a
  certificate issued this way.
\<close>
theorem certificates_justified:
  assumes "text_encoding cr" and "pairing_reachable cr key cluster m gen iss"
  shows "list_all (justified cr gen) iss \<and>
    mset (map (answered_id cr) iss) \<subseteq># mset (map (generated_id cr) gen) \<and>
    (\<forall>node \<in> set (registered_nodes m). \<exists>(_, _, certificate) \<in> set iss. dc_node_id certificate = node)"
proof -
  have inv: "pairing_inv cr m gen iss" by (rule reachable_pairing_inv [OF assms(2,1)])
  then have "mset (map (answered_id cr) iss) \<subseteq># mset (map (generated_id cr) gen)"
    unfolding pairing_inv_def by (meson mset_subset_eq_add_left subset_mset.order_trans)
  moreover have "\<exists>(_, _, certificate) \<in> set iss. dc_node_id certificate = node"
    if node: "node \<in> set (registered_nodes m)" for node
  proof -
    obtain k where "hm_get (pm_node_keys m) node = Some k"
      using node hm_get_keys [of "pm_node_keys m" node] by (auto simp: registered_nodes_def)
    then show ?thesis using inv unfolding pairing_inv_def keys_inv_def by fastforce
  qed
  ultimately show ?thesis using inv by (simp add: pairing_inv_def)
qed

theorem certificates_justified_witness:
  "\<exists>m iss. iss \<noteq> [] \<and> pairing_reachable sample_crypto [9] 3 m [(7, replicate 32 5, 0)] iss \<and>
    list_all (justified sample_crypto [(7, replicate 32 5, 0)]) iss"
proof -
  let ?r = "\<lparr>pr_node_id = 7, pr_challenge_response = replicate 32 5,
    pr_challenge_signature = take 64 ([1, 2] @ replicate 32 5 @ replicate 64 0)\<rparr>"
  obtain message m1 where
    gen: "generate_challenge sample_crypto 7 (replicate 32 5) 0 sample_pairing_request (new_coordinator [9] 3) = (Ok message, m1)"
    by (simp add: generate_challenge_def)
  then have "pairing_reachable sample_crypto [9] 3 m1 [(7, replicate 32 5, 0)] []"
    using generate [OF start gen] by simp
  moreover obtain certificate m2 where
    "verify_response sample_crypto 200000000000 201000000000 ?r [1, 2] m1 = (Ok certificate, m2)"
    using gen by (auto simp: generate_challenge_def new_coordinator_def verify_response_def slice_to_def Let_def
        check_response_def expired_def timestamp_def parse_signature_def sample_crypto_def issue_certificate_def)
  ultimately have "pairing_reachable sample_crypto [9] 3 m2 [(7, replicate 32 5, 0)] ([] @ [(?r, 200000000000, certificate)])"
    by (rule issue)
  then show ?thesis using certificates_justified [OF sample_text_encoding] by blast
qed

text \<open>
  The signed text is unambiguous: two certificates have the same text only
  when they agree in node, cluster, key, issue time and expiry, so a signature
  on one says nothing about a certificate that differs in any field.
\<close>
theorem certificate_data_unambiguous:
  assumes "text_encoding cr"
  shows "certificate_data cr node cluster public_key issued expires =
      certificate_data cr node' cluster' public_key' issued' expires' \<longleftrightarrow>
    node = node' \<and> cluster = cluster' \<and> public_key = public_key' \<and> issued = issued' \<and> expires = expires'"
  using assms
  by (auto simp: certificate_data_def text_encoding_def append_colon_inject show_int_no_colon
      show_int_inject dest: injD)

theorem certificate_data_unambiguous_witness:
  "certificate_data sample_crypto 7 3 [1, 2] 12 34 \<noteq> certificate_data sample_crypto 7 3 [1, 2] 123 4"
  by (simp add: certificate_data_unambiguous [OF sample_text_encoding])

text \<open>
  What a rejected response does: a challenge response shorter than eight
  bytes panics and leaves the state alone; any other rejection removes the
  challenge it names, whoever sent it, so that the right answer, sent later,
  is refused as unknown.
\<close>
theorem rejected_response_spends_challenge:
  assumes "verify_response cr now clock response pk m = (r, m')" and "\<not> is_ok r"
  shows "(is_panic r \<longleftrightarrow> length (pr_challenge_response response) < 8) \<and>
    (is_panic r \<longrightarrow> m' = m) \<and>
    (\<not> is_panic r \<longrightarrow>
       hm_get (pm_pending_challenges m')
         (challenge_id cr (pr_node_id response) (take 8 (pr_challenge_response response))) = None \<and>
       pm_node_keys m' = pm_node_keys m \<and>
       (\<forall>now' clock' pk' sig. verify_response cr now' clock' (response\<lparr>pr_challenge_signature := sig\<rparr>) pk' m' =
          (Err ChallengeNotFound, m')))"
  using assms(1) refl
proof (cases rule: verify_response_cases)
  case short
  then show ?thesis by simp
next
  case missing
  then show ?thesis by (simp add: verify_response_def slice_to_Ok)
next
  case (refused pending e)
  then show ?thesis by (simp add: verify_response_def slice_to_Ok)
next
  case (issued pending)
  with assms(2) show ?thesis by (auto simp: issue_certificate_def Let_def)
qed

theorem rejected_response_spends_challenge_witness:
  "\<exists>m'. verify_response sample_crypto 0 0
      \<lparr>pr_node_id = 7, pr_challenge_response = replicate 32 5, pr_challenge_signature = []\<rparr> [1, 2]
      (snd (generate_challenge sample_crypto 7 (replicate 32 5) 0 sample_pairing_request (new_coordinator [9] 3)))
      = (Err InvalidSignatureLength, m') \<and>
    (\<forall>sig. verify_response sample_crypto 0 0
      \<lparr>pr_node_id = 7, pr_challenge_response = replicate 32 5, pr_challenge_signature = sig\<rparr> [1, 2] m'
      = (Err ChallengeNotFound, m'))"
proof -
  let ?r = "\<lparr>pr_node_id = 7, pr_challenge_response = replicate 32 5, pr_challenge_signature = []\<rparr>"
  let ?m = "snd (generate_challenge sample_crypto 7 (replicate 32 5) 0 sample_pairing_request (new_coordinator [9] 3))"
  obtain m' where run: "verify_response sample_crypto 0 0 ?r [1, 2] ?m = (Err InvalidSignatureLength, m')"
    by (simp add: generate_challenge_def new_coordinator_def verify_response_def slice_to_def Let_def
        check_response_def expired_def timestamp_def parse_signature_def sample_crypto_def)
  then show ?thesis using rejected_response_spends_challenge [OF run] by simp
qed

end
