(* ===== verification/Coordinator.thy ===== *)
theory Coordinator
  imports Pairing
begin

text \<open>
  The cluster coordinator, \<open>services/coordinator/src/main.rs\<close>, \<open>api.rs\<close> and
  \<open>planner.rs\<close>: the table of nodes, the REST handlers that change it, and the
  monitor that suspects and removes silent nodes.  Each handler takes the table
  lock once, so it is one step; a run is a sequence of timed events.

  The parsing and printing of a \<open>Uuid\<close> are parameters; a handler's fresh id and
  clock reading are arguments.  The specification of the membership is
  \<open>detector_step\<close>, one failure detector per node.
\<close>

section \<open>State and messages\<close>

record 'k cluster_state =
  cs_cluster_id :: cluster_id
  cs_nodes :: "(node_id, physical_node) hash_map"
  cs_pairing_manager :: "'k pairing_manager"

definition cluster_state_new :: "'k \<Rightarrow> cluster_id \<Rightarrow> 'k cluster_state" where
  "cluster_state_new key cluster = \<lparr>cs_cluster_id = cluster, cs_nodes = hm_new,
     cs_pairing_manager = new_coordinator key cluster\<rparr>"

record register_node_request =
  rn_node_name :: string
  rn_hostname :: string
  rn_cluster_id :: string
  rn_capabilities :: node_capabilities
  rn_resources :: node_resources

record register_node_response =
  rs_success :: bool
  rs_node_id :: string
  rs_error_message :: "string option"

record heartbeat_request =
  hq_sequence :: u64
  hq_resources :: node_resources

record heartbeat_response =
  hs_success :: bool
  hs_error_message :: "string option"

section \<open>Handlers\<close>

definition default_permissions :: node_permissions where
  "default_permissions = \<lparr>np_max_cpu_percent = 80, np_max_cpu_threads = None,
     np_max_ram_bytes = 16 * 1024 * 1024 * 1024, np_gpu_enabled = True,
     np_max_vram_bytes = 8 * 1024 * 1024 * 1024,
     np_max_storage_bytes = 100 * 1024 * 1024 * 1024,
     np_allow_when_on_battery = False, np_pause_when_user_active = True, np_allowed_schedule = None\<rparr>"

definition register_node ::
  "(string \<Rightarrow> uuid option) \<Rightarrow> (uuid \<Rightarrow> string) \<Rightarrow> node_id \<Rightarrow> datetime \<Rightarrow> register_node_request \<Rightarrow>
   'k cluster_state \<Rightarrow> register_node_response \<times> 'k cluster_state" where
  "register_node parse_uuid uuid_text node_id now req st =
     (let cluster = (case parse_uuid (rn_cluster_id req) of None \<Rightarrow> cs_cluster_id st | Some c \<Rightarrow> c);
          node = \<lparr>pn_id = node_id, pn_name = rn_node_name req, pn_hostname = rn_hostname req,
            pn_cluster_id = cluster, pn_capabilities = rn_capabilities req,
            pn_resources = rn_resources req, pn_permissions = default_permissions,
            pn_status = Healthy, pn_last_heartbeat = now, pn_certificate_fingerprint = None\<rparr>
      in (\<lparr>rs_success = True, rs_node_id = uuid_text node_id, rs_error_message = None\<rparr>,
          st\<lparr>cs_nodes := hm_insert node_id node (cs_nodes st)\<rparr>))"

definition send_heartbeat ::
  "(string \<Rightarrow> uuid option) \<Rightarrow> datetime \<Rightarrow> string \<Rightarrow> heartbeat_request \<Rightarrow>
   'k cluster_state \<Rightarrow> heartbeat_response \<times> 'k cluster_state" where
  "send_heartbeat parse_uuid now node_id req st =
     (case parse_uuid node_id of
        None \<Rightarrow> (\<lparr>hs_success = False, hs_error_message = Some ''Invalid node ID''\<rparr>, st)
      | Some node_uuid \<Rightarrow>
          (case hm_get (cs_nodes st) node_uuid of
             None \<Rightarrow> (\<lparr>hs_success = False, hs_error_message = Some ''Node not found''\<rparr>, st)
           | Some _ \<Rightarrow>
               (\<lparr>hs_success = True, hs_error_message = None\<rparr>,
                st\<lparr>cs_nodes := hm_modify node_uuid
                    (\<lambda>node. node\<lparr>pn_last_heartbeat := now, pn_resources := hq_resources req,
                      pn_status := Healthy\<rparr>) (cs_nodes st)\<rparr>)))"

definition get_nodes :: "'k cluster_state \<Rightarrow> (node_id, physical_node) hash_map" where
  "get_nodes st = cs_nodes st"

text \<open>\<open>TimeDelta::num_seconds\<close>: whole seconds, rounded toward zero.\<close>

definition num_seconds :: "int \<Rightarrow> int" where
  "num_seconds d = (if d < 0 then - ((- d) div 1000000000) else d div 1000000000)"

text \<open>One pass of the monitor over the table, with the ids it collects for removal.\<close>

fun monitor_scan ::
  "datetime \<Rightarrow> (node_id, physical_node) hash_map \<Rightarrow> (node_id, physical_node) hash_map \<times> node_id list" where
  "monitor_scan now [] = ([], [])"
| "monitor_scan now ((node_id, node) # nodes) =
     (let silence = num_seconds (now - pn_last_heartbeat node);
          node = (if 10 < silence \<and> pn_status node = Healthy then node\<lparr>pn_status := Suspect\<rparr> else node);
          (node, gone) = (if 30 < silence then (node\<lparr>pn_status := Unavailable\<rparr>, [node_id]) else (node, []));
          (nodes, gones) = monitor_scan now nodes
      in ((node_id, node) # nodes, gone @ gones))"

definition heartbeat_monitor_tick :: "datetime \<Rightarrow> 'k cluster_state \<Rightarrow> 'k cluster_state" where
  "heartbeat_monitor_tick now st =
     (let (nodes, gone) = monitor_scan now (cs_nodes st)
      in st\<lparr>cs_nodes := foldl (\<lambda>nodes node_id. hm_remove node_id nodes) nodes gone\<rparr>)"

section \<open>The logical cluster\<close>

text \<open>The four sums of \<open>get_logical_cluster\<close>, in the table's iteration order.\<close>

fun add_node_resources ::
  "f32 \<times> u64 \<times> u64 \<times> u64 \<Rightarrow> physical_node \<Rightarrow> f32 \<times> u64 \<times> u64 \<times> u64" where
  "add_node_resources (cpu, host, device, storage) node =
     (let caps = pn_capabilities node
      in (fl_add binary32 cpu (f32_of (cpu_cores (nc_cpu caps))),
          host + mem_available_bytes (nc_memory caps),
          foldl (\<lambda>device gpu. device + gpu_vram_bytes gpu) device (nc_gpus caps),
          storage + sto_available_bytes (nc_storage caps)))"

definition scale_u64 :: "rat \<Rightarrow> u64 \<Rightarrow> u64" where
  "scale_u64 c w = fl_to_word (fl_mul binary64 (f64_of w) (fl_round binary64 c))"

definition get_logical_cluster :: "'k cluster_state \<Rightarrow> logical_cluster" where
  "get_logical_cluster st =
     (let (cpu, host, device, storage) = foldl add_node_resources (Fin 0, 0, 0, 0) (hm_values (cs_nodes st))
      in \<lparr>lc_id = cs_cluster_id st, lc_name = ''local-cluster'',
          lc_logical_resources = \<lparr>lr_cpu_compute_units = cpu,
            lr_host_memory_bytes = scale_u64 (8 / 10) host,
            lr_device_memory_bytes = scale_u64 (85 / 100) device,
            lr_storage_bytes = storage,
            lr_preferred_parallelism = PipelineHybrid\<rparr>,
          lc_nodes = cs_nodes st,
          lc_topology = \<lparr>ct_nodes = hm_new, ct_links = []\<rparr>\<rparr>)"

text \<open>The coordinator's own planner is a placeholder: a fixed estimate and no stages.\<close>

definition placeholder_plan :: "model_id \<Rightarrow> parallelism_strategy \<Rightarrow> (unit, execution_plan) outcome" where
  "placeholder_plan model strategy =
     Ok \<lparr>ep_model_id = model, ep_strategy = strategy,
        ep_estimated = \<lparr>pe_load_seconds = Fin 30, pe_prompt_tokens_per_second = Fin 50,
          pe_decode_tokens_per_second = Fin 10\<rparr>,
        ep_stages = [],
        ep_kv_cache = \<lparr>kv_policy = StageLocalWithHostSpill, kv_reserved_bytes = 0\<rparr>\<rparr>"

section \<open>Runs\<close>

text \<open>What happens to the table, with the time it happens at.\<close>

datatype cluster_event =
    Register node_id register_node_request
  | Heartbeat string heartbeat_request
  | Monitor_Tick

fun cluster_step ::
  "(string \<Rightarrow> uuid option) \<Rightarrow> (uuid \<Rightarrow> string) \<Rightarrow> datetime \<times> cluster_event \<Rightarrow>
   'k cluster_state \<Rightarrow> 'k cluster_state" where
  "cluster_step parse_uuid uuid_text (now, Register node_id req) st =
     snd (register_node parse_uuid uuid_text node_id now req st)"
| "cluster_step parse_uuid uuid_text (now, Heartbeat node_id req) st =
     snd (send_heartbeat parse_uuid now node_id req st)"
| "cluster_step parse_uuid uuid_text (now, Monitor_Tick) st = heartbeat_monitor_tick now st"

definition cluster_run ::
  "(string \<Rightarrow> uuid option) \<Rightarrow> (uuid \<Rightarrow> string) \<Rightarrow> (datetime \<times> cluster_event) list \<Rightarrow>
   'k cluster_state \<Rightarrow> 'k cluster_state" where
  "cluster_run parse_uuid uuid_text events st =
     foldl (\<lambda>st e. cluster_step parse_uuid uuid_text e st) st events"

text \<open>
  The specification: for one node, when it was last heard of and whether it is
  suspected, \<open>None\<close> when it is not a member.
\<close>

type_synonym detector = "(datetime \<times> bool) option"

fun detector_step :: "(string \<Rightarrow> uuid option) \<Rightarrow> node_id \<Rightarrow> detector \<Rightarrow> datetime \<times> cluster_event \<Rightarrow> detector" where
  "detector_step parse_uuid n d (now, Register node_id req) = (if node_id = n then Some (now, False) else d)"
| "detector_step parse_uuid n d (now, Heartbeat node_id req) =
     (if parse_uuid node_id = Some n then map_option (\<lambda>_. (now, False)) d else d)"
| "detector_step parse_uuid n d (now, Monitor_Tick) =
     (case d of
        None \<Rightarrow> None
      | Some (heard, suspected) \<Rightarrow>
          if 31000000000 \<le> now - heard then None
          else Some (heard, suspected \<or> 11000000000 \<le> now - heard))"

text \<open>What the table says of a node.\<close>

definition member_view :: "'k cluster_state \<Rightarrow> node_id \<Rightarrow> detector" where
  "member_view st n =
     map_option (\<lambda>node. (pn_last_heartbeat node, pn_status node \<noteq> Healthy)) (hm_get (cs_nodes st) n)"

section \<open>Lemmas\<close>

lemma less_div_iff: "0 < c \<Longrightarrow> k < d div c \<longleftrightarrow> (k + 1) * c \<le> (d :: int)"
proof -
  assume c: "0 < c"
  obtain q r where qr: "q = d div c" "r = d mod c" "0 \<le> r" "r < c" using c by simp
  then have d: "d = q * c + r" by (metis div_mult_mod_eq)
  have "k < q \<Longrightarrow> (k + 1) * c \<le> q * c" using c by (simp add: mult_right_mono)
  moreover have "q \<le> k \<Longrightarrow> q * c + c \<le> (k + 1) * c"
    using mult_right_mono [of "q + 1" "k + 1" c] c by (simp add: algebra_simps)
  ultimately have "k < q \<longleftrightarrow> (k + 1) * c \<le> q * c + r"
    using qr(3,4) by (cases "k < q") linarith+
  then show ?thesis by (simp add: d [symmetric] qr(1) [symmetric])
qed

lemma num_seconds_over: "0 \<le> k \<Longrightarrow> k < num_seconds d \<longleftrightarrow> (k + 1) * 1000000000 \<le> d"
proof -
  assume k: "0 \<le> k"
  have "- ((- d) div 1000000000) \<le> 0" if "d < 0" using that by (simp add: pos_imp_zdiv_nonneg_iff)
  then show ?thesis
    using k by (auto simp: num_seconds_def less_div_iff)
qed

text \<open>The monitor's verdict on one node, and its effect on the whole table.\<close>

definition silent :: "datetime \<Rightarrow> physical_node \<Rightarrow> bool" where
  "silent now node \<longleftrightarrow> 31000000000 \<le> now - pn_last_heartbeat node"

definition marked :: "datetime \<Rightarrow> physical_node \<Rightarrow> physical_node" where
  "marked now node =
     (if 11000000000 \<le> now - pn_last_heartbeat node \<and> pn_status node = Healthy
      then node\<lparr>pn_status := Suspect\<rparr> else node)"

lemma silence_thresholds:
  "10 < num_seconds d \<longleftrightarrow> 11000000000 \<le> d" "30 < num_seconds d \<longleftrightarrow> 31000000000 \<le> d"
  using num_seconds_over [of 10 d] num_seconds_over [of 30 d] by simp_all

lemma monitor_scan_get:
  "hm_get (fst (monitor_scan now nodes)) n =
     map_option (\<lambda>node. if silent now node then (marked now node)\<lparr>pn_status := Unavailable\<rparr> else marked now node)
       (hm_get nodes n)"
  by (induction nodes)
    (auto simp: hm_get_def silent_def marked_def silence_thresholds Let_def split: prod.split)

lemma monitor_scan_keys: "map fst (fst (monitor_scan now nodes)) = map fst nodes"
  by (induction nodes) (auto simp: Let_def split: prod.split)

lemma monitor_scan_gone:
  "snd (monitor_scan now nodes) = map fst (filter (silent now \<circ> snd) nodes)"
  by (induction nodes) (auto simp: Let_def silent_def silence_thresholds split: prod.splits if_splits)

lemma hm_get_remove_all:
  "hm_get (foldl (\<lambda>m k. hm_remove k m) m ks) n = (if n \<in> set ks then None else hm_get m n)"
  by (induction ks arbitrary: m) auto

lemma hm_ok_remove_all: "hm_ok m \<Longrightarrow> hm_ok (foldl (\<lambda>m k. hm_remove k m) m ks)"
  by (induction ks arbitrary: m) auto

lemma monitor_tick_get:
  assumes "hm_ok (cs_nodes st)"
  shows "hm_get (cs_nodes (heartbeat_monitor_tick now st)) n =
    (case hm_get (cs_nodes st) n of
       None \<Rightarrow> None
     | Some node \<Rightarrow> if silent now node then None else Some (marked now node))"
proof -
  have "n \<in> set (snd (monitor_scan now (cs_nodes st))) \<longleftrightarrow>
      (\<exists>node. hm_get (cs_nodes st) n = Some node \<and> silent now node)"
    by (force simp: monitor_scan_gone hm_get_mem [OF assms])
  moreover have "cs_nodes (heartbeat_monitor_tick now st) =
      foldl (\<lambda>m k. hm_remove k m) (fst (monitor_scan now (cs_nodes st))) (snd (monitor_scan now (cs_nodes st)))"
    by (simp add: heartbeat_monitor_tick_def split: prod.split)
  ultimately show ?thesis
    by (simp add: hm_get_remove_all monitor_scan_get split: option.split)
qed

lemma monitor_tick_ok: "hm_ok (cs_nodes st) \<Longrightarrow> hm_ok (cs_nodes (heartbeat_monitor_tick now st))"
  using monitor_scan_keys [of now "cs_nodes st"]
  by (auto simp: heartbeat_monitor_tick_def hm_ok_def split: prod.splits
      intro!: hm_ok_remove_all [unfolded hm_ok_def])

lemma cluster_step_ok:
  "hm_ok (cs_nodes st) \<Longrightarrow> hm_ok (cs_nodes (cluster_step parse_uuid uuid_text e st))"
  by (induction parse_uuid uuid_text e st rule: cluster_step.induct)
    (auto simp: register_node_def send_heartbeat_def Let_def monitor_tick_ok split: option.split)

text \<open>One event is one step of every node's detector.\<close>

lemma cluster_step_refines:
  "hm_ok (cs_nodes st) \<Longrightarrow>
   member_view (cluster_step parse_uuid uuid_text e st) n = detector_step parse_uuid n (member_view st n) e"
  by (induction parse_uuid uuid_text e st rule: cluster_step.induct)
    (auto simp: register_node_def send_heartbeat_def Let_def member_view_def monitor_tick_get
      silent_def marked_def map_option_case split: option.split)

lemma cluster_run_refines:
  "hm_ok (cs_nodes st) \<Longrightarrow>
   hm_ok (cs_nodes (cluster_run parse_uuid uuid_text events st)) \<and>
   member_view (cluster_run parse_uuid uuid_text events st) n =
     foldl (detector_step parse_uuid n) (member_view st n) events"
  by (induction events arbitrary: st) (simp_all add: cluster_run_def cluster_step_ok cluster_step_refines)

text \<open>An event by which the coordinator hears of a node.\<close>

fun contacts :: "(string \<Rightarrow> uuid option) \<Rightarrow> node_id \<Rightarrow> cluster_event \<Rightarrow> bool" where
  "contacts parse_uuid n (Register node_id req) = (node_id = n)"
| "contacts parse_uuid n (Heartbeat node_id req) = (parse_uuid node_id = Some n)"
| "contacts parse_uuid n Monitor_Tick = False"

fun registers :: "node_id \<Rightarrow> cluster_event \<Rightarrow> bool" where
  "registers n (Register node_id req) = (node_id = n)"
| "registers n (Heartbeat node_id req) = False"
| "registers n Monitor_Tick = False"

text \<open>Every tick of the monitor finds the node heard of less than 11 seconds ago.\<close>

fun on_time ::
  "(string \<Rightarrow> uuid option) \<Rightarrow> node_id \<Rightarrow> datetime \<Rightarrow> (datetime \<times> cluster_event) list \<Rightarrow> bool" where
  "on_time parse_uuid n heard [] = True"
| "on_time parse_uuid n heard ((now, e) # events) =
     ((e = Monitor_Tick \<longrightarrow> now - heard < 11000000000) \<and>
      on_time parse_uuid n (if contacts parse_uuid n e then now else heard) events)"

lemma detector_on_time:
  "on_time parse_uuid n heard events \<Longrightarrow>
   \<exists>h. foldl (detector_step parse_uuid n) (Some (heard, False)) events = Some (h, False)"
proof (induction events arbitrary: heard)
  case (Cons ev events)
  obtain now e where ev: "ev = (now, e)" by (cases ev)
  show ?case using Cons.prems Cons.IH by (cases e) (simp_all add: ev split: if_splits)
qed simp

lemma detector_absent:
  "list_all (\<lambda>(_, e). \<not> registers n e) events \<Longrightarrow> foldl (detector_step parse_uuid n) None events = None"
proof (induction events)
  case (Cons ev events)
  obtain now e where ev: "ev = (now, e)" by (cases ev)
  show ?case using Cons by (cases e) (simp_all add: ev)
qed simp

lemma contacts_registers: "\<not> contacts parse_uuid n e \<Longrightarrow> \<not> registers n e"
  by (cases e) auto

lemma detector_silent:
  assumes "list_all (\<lambda>(_, e). \<not> contacts parse_uuid n e) events"
    and "(t, Monitor_Tick) \<in> set events" and "heard + 31000000000 \<le> t"
  shows "foldl (detector_step parse_uuid n) (Some (heard, suspected)) events = None"
  using assms
proof (induction events arbitrary: suspected)
  case (Cons ev events)
  obtain now e where ev: "ev = (now, e)" by (cases ev)
  have absent: "foldl (detector_step parse_uuid n) None events = None"
    using Cons.prems(1) by (intro detector_absent) (auto simp: list_all_iff dest: contacts_registers)
  show ?case
    using Cons.prems Cons.IH absent by (cases e) (auto simp: ev)
qed simp

section \<open>Properties\<close>

text \<open>
  C4.  The coordinator implements the failure detector: after any sequence of
  registrations, heartbeats and monitor passes, at any times, the table says of
  every node, whether it is a member, when it was last heard of and whether it
  is suspected, exactly what the node's own detector says.
\<close>
theorem coordinator_refines_detector:
  "member_view (cluster_run parse_uuid uuid_text events (cluster_state_new key cluster)) n =
    foldl (detector_step parse_uuid n) None events"
  using cluster_run_refines [of "cluster_state_new key cluster" parse_uuid uuid_text events n]
  by (simp add: cluster_state_new_def member_view_def)

text \<open>
  C10.  Failure detection: a node that is heard of less than 11 seconds before
  every pass of the monitor stays a healthy member; a node that is not heard of
  is removed by any pass 31 seconds or more after its last contact; and once
  removed it stays out, its heartbeats answered with "Node not found", until it
  registers again.
\<close>
theorem failure_detection:
  assumes "hm_ok (cs_nodes st)"
  shows
    "(\<forall>heard. member_view st n = Some (heard, False) \<and> on_time parse_uuid n heard events \<longrightarrow>
        (\<exists>h. member_view (cluster_run parse_uuid uuid_text events st) n = Some (h, False))) \<and>
     (\<forall>heard suspected t. member_view st n = Some (heard, suspected) \<and>
        list_all (\<lambda>(_, e). \<not> contacts parse_uuid n e) events \<and>
        (t, Monitor_Tick) \<in> set events \<and> heard + 31000000000 \<le> t \<longrightarrow>
        member_view (cluster_run parse_uuid uuid_text events st) n = None) \<and>
     (member_view st n = None \<and> list_all (\<lambda>(_, e). \<not> registers n e) events \<longrightarrow>
        (\<forall>text now req. parse_uuid text = Some n \<longrightarrow>
           fst (send_heartbeat parse_uuid now text req (cluster_run parse_uuid uuid_text events st)) =
             \<lparr>hs_success = False, hs_error_message = Some ''Node not found''\<rparr>))"
proof -
  note run = cluster_run_refines [OF assms, of parse_uuid uuid_text events n, THEN conjunct2]
  have unknown: "hm_get (cs_nodes (cluster_run parse_uuid uuid_text events st)) n = None"
    if "member_view st n = None" "list_all (\<lambda>(_, e). \<not> registers n e) events"
    using run detector_absent [OF that(2), of parse_uuid] that(1) by (simp add: member_view_def)
  show ?thesis
    using detector_on_time [of parse_uuid n _ events] detector_silent [of parse_uuid n events] unknown
    unfolding run by (auto simp: send_heartbeat_def)
qed

definition sample_member_state :: "u8 list cluster_state" where
  "sample_member_state = \<lparr>cs_cluster_id = 1, cs_nodes = [(7, sample_node 7 Healthy [sample_gpu ''gpu0'' 1000])],
     cs_pairing_manager = new_coordinator [9] 1\<rparr>"

lemma sample_member_view:
  "hm_ok (cs_nodes sample_member_state)" "member_view sample_member_state 7 = Some (0, False)"
  "member_view sample_member_state 8 = None"
  by (simp_all add: sample_member_state_def hm_ok_def member_view_def hm_get_def sample_node_def)

theorem failure_detection_witness:
  "(\<forall>req. \<exists>h. member_view
      (cluster_run (\<lambda>_. Some 7) (\<lambda>_. [])
        [(10000000000, Monitor_Tick), (10500000000, Heartbeat ''7'' req), (20000000000, Monitor_Tick)]
        sample_member_state) 7 = Some (h, False)) \<and>
   member_view (cluster_run (\<lambda>_. Some 7) (\<lambda>_. []) [(31000000000, Monitor_Tick)] sample_member_state) 7 = None"
proof (intro conjI allI)
  fix req
  show "\<exists>h. member_view
      (cluster_run (\<lambda>_. Some 7) (\<lambda>_. [])
        [(10000000000, Monitor_Tick), (10500000000, Heartbeat ''7'' req), (20000000000, Monitor_Tick)]
        sample_member_state) 7 = Some (h, False)"
    using failure_detection [OF sample_member_view(1), of 7 "\<lambda>_. Some 7"
        "[(10000000000, Monitor_Tick), (10500000000, Heartbeat ''7'' req), (20000000000, Monitor_Tick)]"
        "\<lambda>_. []"]
    by (simp add: sample_member_view)
  show "member_view (cluster_run (\<lambda>_. Some 7) (\<lambda>_. []) [(31000000000, Monitor_Tick)] sample_member_state) 7 = None"
    using failure_detection [OF sample_member_view(1), of 7 "\<lambda>_. Some 7" "[(31000000000, Monitor_Tick)]" "\<lambda>_. []"]
    by (simp add: sample_member_view ex_bool_eq)
qed

text \<open>The sums over the table, exact as long as they fit their types.\<close>

definition node_sum :: "(node_capabilities \<Rightarrow> nat) \<Rightarrow> physical_node list \<Rightarrow> nat" where
  "node_sum f nodes = (\<Sum>node\<leftarrow>nodes. f (pn_capabilities node))"

definition node_vram :: "node_capabilities \<Rightarrow> nat" where
  "node_vram caps = (\<Sum>gpu\<leftarrow>nc_gpus caps. unat (gpu_vram_bytes gpu))"

abbreviation node_cores :: "node_capabilities \<Rightarrow> nat" where
  "node_cores caps \<equiv> unat (cpu_cores (nc_cpu caps))"

abbreviation node_ram :: "node_capabilities \<Rightarrow> nat" where
  "node_ram caps \<equiv> unat (mem_available_bytes (nc_memory caps))"

abbreviation node_storage :: "node_capabilities \<Rightarrow> nat" where
  "node_storage caps \<equiv> unat (sto_available_bytes (nc_storage caps))"

lemma foldl_add_words:
  fixes a :: "'a::len word"
  assumes "unat a + (\<Sum>x\<leftarrow>xs. unat (f x)) < 2 ^ LENGTH('a)"
  shows "unat (foldl (\<lambda>a x. a + f x) a xs) = unat a + (\<Sum>x\<leftarrow>xs. unat (f x))"
  using assms
proof (induction xs arbitrary: a)
  case (Cons x xs)
  then have "unat (a + f x) = unat a + unat (f x)" by (simp add: unat_plus_exact)
  with Cons show ?case by simp
qed simp

lemma foldl_add_node_resources:
  assumes "foldl add_node_resources (Fin (of_nat c), h, d, s) nodes = (cpu, host, device, storage)"
    and "c + node_sum node_cores nodes \<le> 2 ^ 24"
    and "unat h + node_sum node_ram nodes < 2 ^ 64"
    and "unat d + node_sum node_vram nodes < 2 ^ 64"
    and "unat s + node_sum node_storage nodes < 2 ^ 64"
  shows "cpu = Fin (of_nat (c + node_sum node_cores nodes)) \<and>
    unat host = unat h + node_sum node_ram nodes \<and>
    unat device = unat d + node_sum node_vram nodes \<and>
    unat storage = unat s + node_sum node_storage nodes"
  using assms
proof (induction nodes arbitrary: c h d s)
  case (Cons node nodes)
  let ?caps = "pn_capabilities node"
  let ?d = "foldl (\<lambda>device gpu. device + gpu_vram_bytes gpu) d (nc_gpus ?caps)"
  have h: "unat (h + mem_available_bytes (nc_memory ?caps)) = unat h + node_ram ?caps"
    using Cons.prems(3) by (simp add: node_sum_def unat_plus_exact)
  have s: "unat (s + sto_available_bytes (nc_storage ?caps)) = unat s + node_storage ?caps"
    using Cons.prems(5) by (simp add: node_sum_def unat_plus_exact)
  have d: "unat ?d = unat d + node_vram ?caps"
    using Cons.prems(4) foldl_add_words [of d gpu_vram_bytes "nc_gpus ?caps"]
    by (simp add: node_sum_def node_vram_def)
  have "fl_add binary32 (Fin (of_nat c)) (f32_of (cpu_cores (nc_cpu ?caps))) = Fin (of_nat (c + node_cores ?caps))"
    using Cons.prems(2) fl_add_nat [of c "node_cores ?caps"]
    by (simp add: f32_of_def fl_of_nat_exact32 node_sum_def)
  then have "foldl add_node_resources (Fin (of_nat (c + node_cores ?caps)),
      h + mem_available_bytes (nc_memory ?caps), ?d, s + sto_available_bytes (nc_storage ?caps)) nodes
      = (cpu, host, device, storage)"
    using Cons.prems(1) by (simp add: Let_def)
  from Cons.IH [OF this] show ?case
    using Cons.prems(2-5) by (simp add: h s d node_sum_def)
qed (simp add: node_sum_def)

lemma fl_to_word_floor:
  assumes "0 \<le> x" and "\<lfloor>x\<rfloor> < 2 ^ LENGTH('a)"
  shows "int (unat (fl_to_word (Fin x) :: 'a::len word)) = \<lfloor>x\<rfloor>"
proof (cases "x \<le> 0")
  case True
  with assms show ?thesis by simp
next
  case False
  then have "0 \<le> \<lfloor>x\<rfloor>" by simp
  with assms False show ?thesis by (simp add: of_nat_unat uint_word_of_int_eq take_bit_int_eq_self)
qed

lemma scale_count:
  assumes "1 / 2 \<le> c" and "c \<le> 9 / 10" and "n < 2 ^ 64"
  shows "\<exists>y. fl_mul binary64 (fl_of_nat binary64 n) (fl_round binary64 c) = Fin y \<and>
    0 \<le> y \<and> y \<le> of_nat n \<and> \<bar>y - c * of_nat n\<bar> \<le> c * of_nat n / 2 ^ 51"
proof -
  let ?r = "round_rat 53 (-1074)"
  let ?n = "of_nat n :: rat"
  have "?n \<le> 2 ^ 64" using assms(3) by (metis less_imp_le of_nat_le_iff of_nat_numeral of_nat_power)
  moreover have "representable 53 (-1074) (2 ^ 64)"
    unfolding representable_def by (intro exI [of _ 1] exI [of _ 64]) simp
  ultimately have "?r ?n \<le> 2 ^ 64"
    by (cases "n = 0") (simp add: round_rat_def, intro round_rat_le_representable, simp_all)
  then have rn: "0 \<le> ?r ?n" "?r ?n \<le> 2 ^ 64" using round_rat_nonneg [of ?n] by simp_all
  have rc: "0 \<le> ?r c" "?r c \<le> 1"
    using round_rat_nonneg [of c] r64.rnd_le_int [of c 1] assms by simp_all
  have "?r ?n * ?r c \<le> 2 ^ 64 * 1" using rn rc by (intro mult_mono) simp_all
  then have "fl_mul binary64 (Fin (?r ?n)) (Fin (?r c)) = Fin (?r (?r ?n * ?r c))"
    using rn rc by (simp add: fl_round_Fin [of _ 64])
  moreover have "fl_round binary64 c = Fin (?r c)"
    using assms by (subst fl_round_Fin [of _ 0]) auto
  moreover have "0 \<le> ?r (?r ?n * ?r c)" using rn rc by (intro round_rat_nonneg) simp
  ultimately show ?thesis
    using r64.scaled_count_le [OF assms(1,2), of n] r64.scaled_count_close [OF assms(1,2), of n]
    by (simp add: fl_of_nat_Fin64 [OF assms(3)])
qed

lemma scale_u64_close:
  assumes "1 / 2 \<le> c" and "c \<le> 9 / 10" and "unat w = n"
  shows "unat (scale_u64 c w) \<le> n \<and>
    \<bar>of_nat (unat (scale_u64 c w)) - c * of_nat n\<bar> \<le> 1 + c * of_nat n / 2 ^ 51"
proof -
  have n: "n < 2 ^ 64" using unat_bound [of w] assms(3) by simp
  obtain y where scaled: "scale_u64 c w = fl_to_word (Fin y)"
    and y: "0 \<le> y" "y \<le> of_nat n" "\<bar>y - c * of_nat n\<bar> \<le> c * of_nat n / 2 ^ 51"
    using scale_count [OF assms(1,2) n] unfolding scale_u64_def f64_of_def assms(3) by metis
  have floor: "\<lfloor>y\<rfloor> \<le> int n" using y(2) by linarith
  then have "\<lfloor>y\<rfloor> < 2 ^ LENGTH(64)" using n by (simp del: floor_less_numeral)
  then have word: "int (unat (scale_u64 c w)) = \<lfloor>y\<rfloor>"
    unfolding scaled by (rule fl_to_word_floor [OF y(1)])
  then have "of_nat (unat (scale_u64 c w)) = (of_int \<lfloor>y\<rfloor> :: rat)" by (metis of_int_of_nat_eq)
  moreover have "unat (scale_u64 c w) \<le> n" using word floor by linarith
  ultimately show ?thesis using y(3) by linarith
qed

text \<open>
  C35.  The resources of the logical cluster: as long as the nodes' totals fit
  their types (and the cores stay below \<open>2 ^ 24\<close>), the compute units and the
  storage are the exact sums, the memories are 80% and 85% of the sums up to
  one byte and the rounding of the two \<open>f64\<close> operations, never more than the
  sums, and the order in which the table is traversed plays no role.
\<close>
theorem logical_cluster_resources:
  fixes st :: "'k cluster_state"
  defines "nodes \<equiv> hm_values (cs_nodes st)"
    and "res \<equiv> lc_logical_resources (get_logical_cluster st)"
  assumes "node_sum node_cores nodes \<le> 2 ^ 24" and "node_sum node_ram nodes < 2 ^ 64"
    and "node_sum node_vram nodes < 2 ^ 64" and "node_sum node_storage nodes < 2 ^ 64"
  shows "lr_cpu_compute_units res = Fin (of_nat (node_sum node_cores nodes)) \<and>
    unat (lr_storage_bytes res) = node_sum node_storage nodes \<and>
    unat (lr_host_memory_bytes res) \<le> node_sum node_ram nodes \<and>
    unat (lr_device_memory_bytes res) \<le> node_sum node_vram nodes \<and>
    \<bar>of_nat (unat (lr_host_memory_bytes res)) - 8 / 10 * of_nat (node_sum node_ram nodes)\<bar>
      \<le> 1 + 8 / 10 * (of_nat (node_sum node_ram nodes) :: rat) / 2 ^ 51 \<and>
    \<bar>of_nat (unat (lr_device_memory_bytes res)) - 85 / 100 * of_nat (node_sum node_vram nodes)\<bar>
      \<le> 1 + 85 / 100 * (of_nat (node_sum node_vram nodes) :: rat) / 2 ^ 51"
proof -
  obtain cpu host device storage where
    sums: "foldl add_node_resources (Fin 0, 0, 0, 0) nodes = (cpu, host, device, storage)"
    by (metis prod_cases4)
  have exact: "cpu = Fin (of_nat (node_sum node_cores nodes))" "unat host = node_sum node_ram nodes"
    "unat device = node_sum node_vram nodes" "unat storage = node_sum node_storage nodes"
    using foldl_add_node_resources [of 0 0 0 0 nodes cpu host device storage] sums assms(3-6) by simp_all
  have res: "res = \<lparr>lr_cpu_compute_units = cpu, lr_host_memory_bytes = scale_u64 (8 / 10) host,
      lr_device_memory_bytes = scale_u64 (85 / 100) device, lr_storage_bytes = storage,
      lr_preferred_parallelism = PipelineHybrid\<rparr>"
    using sums by (simp add: res_def nodes_def get_logical_cluster_def)
  show ?thesis
    using scale_u64_close [OF _ _ exact(2), of "8 / 10"] scale_u64_close [OF _ _ exact(3), of "85 / 100"]
    unfolding res by (simp add: exact(1,4))
qed

theorem logical_cluster_resources_witness:
  "unat (lr_host_memory_bytes (lc_logical_resources (get_logical_cluster sample_member_state))) \<le> 34359738368"
  using logical_cluster_resources [of sample_member_state]
  by (simp add: sample_member_state_def hm_values_def node_sum_def node_vram_def sample_node_def sample_gpu_def)

end
