(* ===== verification/Node_Control.thy ===== *)
theory Node_Control
  imports Coordinator
begin

text \<open>
  The node control service, \<open>services/coordinator/src/node_control.rs\<close>: the
  remote calls of \<open>protocols/control.proto\<close> on the coordinator's state.  A
  handler is an action on that state; its error is the status of the call.

  The request records hold the fields the handlers read, at the types they are
  used with.  Parsing a \<open>Uuid\<close> is a parameter, the hardware probe's result and
  the debug text of an enum value are as the source writes them.  The module is
  not declared in \<open>main.rs\<close>, whose server answers the REST calls only.
\<close>

section \<open>Messages\<close>

datatype status = Invalid_Argument string | Not_Found string | Internal string

record register_request =
  rq_node_name :: string
  rq_hostname :: string
  rq_cluster_id :: string
  rq_pairing_signature :: "u8 list"

record register_response =
  rp_success :: bool
  rp_node_id :: string
  rp_device_certificate :: "u8 list"
  rp_error_message :: string

record control_gpu_usage =
  cg_device_id :: string
  cg_utilization_percent :: f32
  cg_vram_used_bytes :: u64
  cg_temperature_celsius :: f32
  cg_power_draw_watts :: f32

record control_node_resources =
  cn_cpu_usage_percent :: f32
  cn_memory_used_bytes :: u64
  cn_memory_committed_bytes :: u64
  cn_gpu_usage :: "control_gpu_usage list"
  cn_network_tx_mbps :: f32
  cn_network_rx_mbps :: f32
  cn_temperature_celsius :: f32

record control_heartbeat_request =
  hb_node_id :: string
  hb_sequence :: u64
  hb_resources :: control_node_resources

record control_heartbeat_response =
  ha_acknowledged :: bool
  ha_expected_sequence :: u64

record control_gpu_capabilities =
  cgc_id :: string
  cgc_name :: string
  cgc_vendor :: string
  cgc_vram_bytes :: u64
  cgc_compute_capability :: "string option"
  cgc_supports_peer_to_peer :: bool
  cgc_supports_nvml :: bool
  cgc_supported_precisions :: "string list"

record probe_response =
  po_cpu :: cpu_capabilities
  po_gpus :: "control_gpu_capabilities list"
  po_memory :: memory_capabilities
  po_storage :: storage_capabilities
  po_supported_runtimes :: "string list"
  po_interfaces :: "network_interface list"

datatype benchmark_type =
    CpuMatrix
  | CpuMemory
  | GpuMatrix
  | GpuMemory
  | HostToDevice
  | DeviceToHost
  | NetworkLatency
  | NetworkBandwidth
  | StorageRead

record benchmark_response =
  br_success :: bool
  br_result :: "((string, f64) hash_map \<times> u64) option"
  br_error_message :: string

record prepare_plan_request =
  pl_node_id :: string
  pl_model_id :: string
  pl_shard_bytes :: "u64 list"

record prepare_plan_response =
  pa_accepted :: bool
  pa_rejection_reason :: string
  pa_estimated_load_time_ms :: u32

record commit_plan_response =
  cp_committed :: bool
  cp_error_message :: string

record drain_request =
  dr_node_id :: string
  dr_emergency :: bool

record drain_response =
  da_draining :: bool
  da_estimated_seconds :: u32

record set_permissions_request =
  sr_node_id :: string
  sr_max_cpu_percent :: u32
  sr_max_cpu_threads :: u32
  sr_max_ram_bytes :: u64
  sr_gpu_enabled :: bool
  sr_max_vram_bytes :: u64
  sr_max_storage_bytes :: u64
  sr_allow_when_on_battery :: bool
  sr_pause_when_user_active :: bool
  sr_allowed_schedule :: "string list"

section \<open>Handlers\<close>

text \<open>\<open>Uuid::parse_str(..).map_err(..)?\<close>.\<close>

definition parse_id :: "(string \<Rightarrow> uuid option) \<Rightarrow> string \<Rightarrow> string \<Rightarrow> (status, uuid) outcome" where
  "parse_id parse_uuid message text = ok_or (Invalid_Argument message) (parse_uuid text)"

definition unknown_capabilities :: node_capabilities where
  "unknown_capabilities = \<lparr>
     nc_cpu = \<lparr>cpu_architecture = ''unknown'', cpu_cores = 0, cpu_threads = 0, cpu_frequency_mhz = 0,
       cpu_features = [], cpu_numa_nodes = 1\<rparr>,
     nc_gpus = [],
     nc_memory = \<lparr>mem_total_bytes = 0, mem_available_bytes = 0, mem_bandwidth_mbps = 0\<rparr>,
     nc_storage = \<lparr>sto_total_bytes = 0, sto_available_bytes = 0, sto_read_throughput_mbps = 0,
       sto_write_throughput_mbps = 0\<rparr>,
     nc_network = \<lparr>net_interfaces = []\<rparr>,
     nc_supported_runtimes = []\<rparr>"

definition idle_resources :: node_resources where
  "idle_resources = \<lparr>nr_cpu_usage_percent = Fin 0, nr_memory_used_bytes = 0,
     nr_memory_committed_bytes = 0, nr_gpu_usage = [], nr_network_tx_mbps = Fin 0,
     nr_network_rx_mbps = Fin 0, nr_temperature_celsius = None\<rparr>"

definition pending_node ::
  "node_id \<Rightarrow> cluster_id \<Rightarrow> string \<Rightarrow> datetime \<Rightarrow> register_request \<Rightarrow> physical_node" where
  "pending_node node_id cluster fingerprint now req = \<lparr>pn_id = node_id, pn_name = rq_node_name req,
     pn_hostname = rq_hostname req, pn_cluster_id = cluster, pn_capabilities = unknown_capabilities,
     pn_resources = idle_resources, pn_permissions = default_permissions, pn_status = Suspect,
     pn_last_heartbeat = now, pn_certificate_fingerprint = Some fingerprint\<rparr>"

text \<open>
  The clock is read by \<open>generate_challenge\<close> and again for the heartbeat.  The
  slice \<open>[..8]\<close> of the signature is taken before anything changes.
\<close>

definition control_register ::
  "'k crypto \<Rightarrow> (string \<Rightarrow> uuid option) \<Rightarrow> node_id \<Rightarrow> u8 list \<Rightarrow> datetime \<Rightarrow> datetime \<Rightarrow> register_request \<Rightarrow>
   ('k cluster_state, status, register_response) action" where
  "control_register cr parse_uuid node_id challenge clock now req =
     bind_action (lift_outcome (parse_id parse_uuid ''Invalid cluster ID'' (rq_cluster_id req))) (\<lambda>cluster st.
       if cluster \<noteq> cs_cluster_id st
       then (Ok \<lparr>rp_success = False, rp_node_id = [], rp_device_certificate = [],
               rp_error_message = ''Cluster ID mismatch''\<rparr>, st)
       else
         bind_action (lift_outcome (slice_to 8 (rq_pairing_signature req))) (\<lambda>prefix st.
           let fingerprint = cr_hex cr prefix;
               request = \<lparr>pq_node_name = rq_node_name req, pq_hostname = rq_hostname req,
                 pq_cluster_id = cluster, pq_public_key = rq_pairing_signature req,
                 pq_fingerprint = fingerprint\<rparr>
           in case generate_challenge cr node_id challenge clock request (cs_pairing_manager st) of
                (Ok message, pairing) \<Rightarrow>
                  (Ok \<lparr>rp_success = True, rp_node_id = cr_uuid_text cr (ph_node_id message),
                      rp_device_certificate = ph_coordinator_public_key message, rp_error_message = []\<rparr>,
                   st\<lparr>cs_pairing_manager := pairing,
                      cs_nodes := hm_insert (ph_node_id message)
                        (pending_node (ph_node_id message) cluster fingerprint now req) (cs_nodes st)\<rparr>)
              | (Err e, pairing) \<Rightarrow>
                  (Err (Internal ''Failed to generate challenge''), st\<lparr>cs_pairing_manager := pairing\<rparr>)
              | (Panic p, pairing) \<Rightarrow> (Panic p, st\<lparr>cs_pairing_manager := pairing\<rparr>)) st)"

definition positive_f32 :: "f32 \<Rightarrow> f32 option" where
  "positive_f32 x = (if fl_less (Fin 0) x then Some x else None)"

definition convert_node_resources :: "control_node_resources \<Rightarrow> node_resources" where
  "convert_node_resources r = \<lparr>
     nr_cpu_usage_percent = cn_cpu_usage_percent r,
     nr_memory_used_bytes = cn_memory_used_bytes r,
     nr_memory_committed_bytes = cn_memory_committed_bytes r,
     nr_gpu_usage = map (\<lambda>gpu. \<lparr>gu_device_id = cg_device_id gpu,
         gu_utilization_percent = cg_utilization_percent gpu,
         gu_vram_used_bytes = cg_vram_used_bytes gpu,
         gu_temperature_celsius = cg_temperature_celsius gpu,
         gu_power_draw_watts = positive_f32 (cg_power_draw_watts gpu)\<rparr>) (cn_gpu_usage r),
     nr_network_tx_mbps = cn_network_tx_mbps r,
     nr_network_rx_mbps = cn_network_rx_mbps r,
     nr_temperature_celsius = positive_f32 (cn_temperature_celsius r)\<rparr>"

definition control_heartbeat ::
  "(string \<Rightarrow> uuid option) \<Rightarrow> datetime \<Rightarrow> control_heartbeat_request \<Rightarrow>
   ('k cluster_state, status, control_heartbeat_response) action" where
  "control_heartbeat parse_uuid now req =
     bind_action (lift_outcome (parse_id parse_uuid ''Invalid node ID'' (hb_node_id req))) (\<lambda>node_id st.
       (Ok \<lparr>ha_acknowledged = True, ha_expected_sequence = hb_sequence req + 1\<rparr>,
        st\<lparr>cs_nodes := hm_modify node_id
            (\<lambda>node. node\<lparr>pn_resources := convert_node_resources (hb_resources req),
              pn_last_heartbeat := now, pn_status := Healthy\<rparr>) (cs_nodes st)\<rparr>))"

text \<open>\<open>{:?}\<close> of the enums.\<close>

fun debug_vendor :: "gpu_vendor \<Rightarrow> string" where
  "debug_vendor Nvidia = ''Nvidia''"
| "debug_vendor Amd = ''Amd''"
| "debug_vendor Intel = ''Intel''"
| "debug_vendor Apple = ''Apple''"
| "debug_vendor Unknown = ''Unknown''"

fun debug_precision :: "precision \<Rightarrow> string" where
  "debug_precision Fp32 = ''Fp32''"
| "debug_precision Fp16 = ''Fp16''"
| "debug_precision Bf16 = ''Bf16''"
| "debug_precision Int8 = ''Int8''"
| "debug_precision Int4 = ''Int4''"
| "debug_precision Fp8 = ''Fp8''"

fun debug_runtime :: "runtime_backend \<Rightarrow> string" where
  "debug_runtime GGML = ''GGML''"
| "debug_runtime CUDA = ''CUDA''"
| "debug_runtime ROCm = ''ROCm''"
| "debug_runtime MLX = ''MLX''"
| "debug_runtime Vulkan = ''Vulkan''"
| "debug_runtime CPU = ''CPU''"

fun debug_status :: "node_status \<Rightarrow> string" where
  "debug_status Healthy = ''Healthy''"
| "debug_status Suspect = ''Suspect''"
| "debug_status Unavailable = ''Unavailable''"
| "debug_status Draining = ''Draining''"
| "debug_status Maintenance = ''Maintenance''"

definition probe_reply :: "node_capabilities \<Rightarrow> probe_response" where
  "probe_reply caps = \<lparr>
     po_cpu = nc_cpu caps,
     po_gpus = map (\<lambda>gpu. \<lparr>cgc_id = gpu_id gpu, cgc_name = gpu_name gpu,
         cgc_vendor = debug_vendor (gpu_vendor gpu), cgc_vram_bytes = gpu_vram_bytes gpu,
         cgc_compute_capability = gpu_compute_capability gpu,
         cgc_supports_peer_to_peer = gpu_supports_peer_to_peer gpu,
         cgc_supports_nvml = gpu_supports_nvml gpu,
         cgc_supported_precisions = map debug_precision (gpu_supported_precisions gpu)\<rparr>) (nc_gpus caps),
     po_memory = nc_memory caps,
     po_storage = nc_storage caps,
     po_supported_runtimes = map debug_runtime (nc_supported_runtimes caps),
     po_interfaces = net_interfaces (nc_network caps)\<rparr>"

text \<open>
  The probe runs on the coordinator's own host: its result is an argument, an
  error text or capabilities.
\<close>

definition probe ::
  "(string \<Rightarrow> uuid option) \<Rightarrow> string + node_capabilities \<Rightarrow> string \<Rightarrow>
   ('k cluster_state, status, probe_response) action" where
  "probe parse_uuid probe_all node_text =
     bind_action (lift_outcome (parse_id parse_uuid ''Invalid node ID'' node_text)) (\<lambda>node_id st.
       case probe_all of
         Inl e \<Rightarrow> (Err (Internal (''Hardware probe failed: '' @ e)), st)
       | Inr caps \<Rightarrow>
           (Ok (probe_reply caps),
            st\<lparr>cs_nodes := hm_modify node_id
                (\<lambda>node. node\<lparr>pn_capabilities := caps, pn_status := Healthy\<rparr>) (cs_nodes st)\<rparr>))"

text \<open>The fixed figure of each benchmark and its duration in milliseconds.\<close>

fun benchmark_figure :: "benchmark_type \<Rightarrow> (string \<times> f64 \<times> u64) option" where
  "benchmark_figure CpuMatrix = Some (''gflops'', Fin 50, 100)"
| "benchmark_figure CpuMemory = Some (''bandwidth_mbps'', Fin 25000, 50)"
| "benchmark_figure GpuMatrix = Some (''tflops'', Fin 10, 200)"
| "benchmark_figure NetworkLatency = Some (''latency_us'', Fin 150, 10)"
| "benchmark_figure NetworkBandwidth = Some (''bandwidth_mbps'', Fin 8500, 1000)"
| "benchmark_figure _ = None"

definition benchmark ::
  "(string \<Rightarrow> uuid option) \<Rightarrow> string \<Rightarrow> benchmark_type \<Rightarrow> ('k cluster_state, status, benchmark_response) action" where
  "benchmark parse_uuid node_text bt =
     bind_action (lift_outcome (parse_id parse_uuid ''Invalid node ID'' node_text)) (\<lambda>_ st.
       (Ok (case benchmark_figure bt of
              None \<Rightarrow> \<lparr>br_success = False, br_result = None, br_error_message = ''Unsupported benchmark type''\<rparr>
            | Some (name, figure, duration) \<Rightarrow>
                \<lparr>br_success = True, br_result = Some (hm_insert name figure hm_new, duration),
                 br_error_message = []\<rparr>), st))"

definition prepare_plan ::
  "(string \<Rightarrow> uuid option) \<Rightarrow> prepare_plan_request \<Rightarrow>
   ('k cluster_state, status, prepare_plan_response) action" where
  "prepare_plan parse_uuid req =
     bind_action (lift_outcome (parse_id parse_uuid ''Invalid node ID'' (pl_node_id req))) (\<lambda>node_id st.
       case hm_get (cs_nodes st) node_id of
         None \<Rightarrow> (Err (Not_Found ''Node not found''), st)
       | Some node \<Rightarrow>
           if pn_status node \<noteq> Healthy
           then (Ok \<lparr>pa_accepted = False,
                   pa_rejection_reason = ''Node status: '' @ debug_status (pn_status node),
                   pa_estimated_load_time_ms = 0\<rparr>, st)
           else
             let total_weight_bytes = sum_list (pl_shard_bytes req);
                 available_vram = sum_list (map gpu_vram_bytes (nc_gpus (pn_capabilities node)));
                 available_ram = mem_available_bytes (nc_memory (pn_capabilities node))
             in if available_vram + available_ram < total_weight_bytes
                then (Ok \<lparr>pa_accepted = False,
                        pa_rejection_reason = ''Insufficient memory for requested shards'',
                        pa_estimated_load_time_ms = 0\<rparr>, st)
                else (Ok \<lparr>pa_accepted = True, pa_rejection_reason = [],
                        pa_estimated_load_time_ms =
                          ucast (total_weight_bytes div (100 * 1024 * 1024)) * 1000\<rparr>, st))"

definition commit_plan ::
  "(string \<Rightarrow> uuid option) \<Rightarrow> string \<Rightarrow> ('k cluster_state, status, commit_plan_response) action" where
  "commit_plan parse_uuid session_text =
     bind_action (lift_outcome (parse_id parse_uuid ''Invalid session ID'' session_text))
       (\<lambda>_. return_action \<lparr>cp_committed = True, cp_error_message = []\<rparr>)"

definition cancel_plan ::
  "(string \<Rightarrow> uuid option) \<Rightarrow> string \<Rightarrow> ('k cluster_state, status, bool) action" where
  "cancel_plan parse_uuid session_text =
     bind_action (lift_outcome (parse_id parse_uuid ''Invalid session ID'' session_text))
       (\<lambda>_. return_action True)"

definition drain ::
  "(string \<Rightarrow> uuid option) \<Rightarrow> drain_request \<Rightarrow> ('k cluster_state, status, drain_response) action" where
  "drain parse_uuid req =
     bind_action (lift_outcome (parse_id parse_uuid ''Invalid node ID'' (dr_node_id req))) (\<lambda>node_id st.
       (Ok \<lparr>da_draining = True, da_estimated_seconds = (if dr_emergency req then 5 else 30)\<rparr>,
        st\<lparr>cs_nodes := hm_modify node_id (\<lambda>node. node\<lparr>pn_status := Draining\<rparr>) (cs_nodes st)\<rparr>))"

definition requested_permissions :: "set_permissions_request \<Rightarrow> node_permissions" where
  "requested_permissions req = \<lparr>
     np_max_cpu_percent = ucast (sr_max_cpu_percent req),
     np_max_cpu_threads = (if 0 < sr_max_cpu_threads req then Some (sr_max_cpu_threads req) else None),
     np_max_ram_bytes = sr_max_ram_bytes req,
     np_gpu_enabled = sr_gpu_enabled req,
     np_max_vram_bytes = sr_max_vram_bytes req,
     np_max_storage_bytes = sr_max_storage_bytes req,
     np_allow_when_on_battery = sr_allow_when_on_battery req,
     np_pause_when_user_active = sr_pause_when_user_active req,
     np_allowed_schedule =
       (if sr_allowed_schedule req = [] then None else Some \<lparr>sh_allowed_hours = sr_allowed_schedule req\<rparr>)\<rparr>"

definition set_permissions ::
  "(string \<Rightarrow> uuid option) \<Rightarrow> set_permissions_request \<Rightarrow> ('k cluster_state, status, bool) action" where
  "set_permissions parse_uuid req =
     bind_action (lift_outcome (parse_id parse_uuid ''Invalid node ID'' (sr_node_id req))) (\<lambda>node_id st.
       (Ok True,
        st\<lparr>cs_nodes := hm_modify node_id (\<lambda>node. node\<lparr>pn_permissions := requested_permissions req\<rparr>)
            (cs_nodes st)\<rparr>))"

section \<open>Sequences of calls\<close>

text \<open>The calls with the values their handlers draw.\<close>

datatype control_call =
    Call_Control_Register node_id "u8 list" datetime datetime register_request
  | Call_Control_Heartbeat datetime control_heartbeat_request
  | Call_Probe "string + node_capabilities" string
  | Call_Benchmark string benchmark_type
  | Call_Prepare prepare_plan_request
  | Call_Commit string
  | Call_Cancel string
  | Call_Drain drain_request
  | Call_Set_Permissions set_permissions_request

fun control_exec ::
  "'k crypto \<Rightarrow> (string \<Rightarrow> uuid option) \<Rightarrow> 'k cluster_state \<Rightarrow> control_call \<Rightarrow> 'k cluster_state" where
  "control_exec cr pu st (Call_Control_Register n challenge clock now req) =
     snd (control_register cr pu n challenge clock now req st)"
| "control_exec cr pu st (Call_Control_Heartbeat now req) = snd (control_heartbeat pu now req st)"
| "control_exec cr pu st (Call_Probe result text) = snd (probe pu result text st)"
| "control_exec cr pu st (Call_Benchmark text bt) = snd (benchmark pu text bt st)"
| "control_exec cr pu st (Call_Prepare req) = snd (prepare_plan pu req st)"
| "control_exec cr pu st (Call_Commit text) = snd (commit_plan pu text st)"
| "control_exec cr pu st (Call_Cancel text) = snd (cancel_plan pu text st)"
| "control_exec cr pu st (Call_Drain req) = snd (drain pu req st)"
| "control_exec cr pu st (Call_Set_Permissions req) = snd (set_permissions pu req st)"

text \<open>
  The calls that make a known node healthy, its heartbeat and a probe of it that
  succeeds, and a registration under its id, which makes it suspect.
\<close>

fun heals :: "(string \<Rightarrow> uuid option) \<Rightarrow> node_id \<Rightarrow> control_call \<Rightarrow> bool" where
  "heals pu n (Call_Control_Heartbeat now req) = (pu (hb_node_id req) = Some n)"
| "heals pu n (Call_Probe (Inr caps) text) = (pu text = Some n)"
| "heals pu n _ = False"

fun registers_as :: "node_id \<Rightarrow> control_call \<Rightarrow> bool" where
  "registers_as n (Call_Control_Register m challenge clock now req) = (m = n)"
| "registers_as n _ = False"

definition has_status :: "node_status \<Rightarrow> node_id \<Rightarrow> 'k cluster_state \<Rightarrow> bool" where
  "has_status s n st \<longleftrightarrow> (\<exists>node. hm_get (cs_nodes st) n = Some node \<and> pn_status node = s)"

lemma control_register_nodes:
  "cs_nodes (snd (control_register cr pu n challenge clock now req st)) = cs_nodes st \<or>
   (\<exists>cluster fingerprint. cs_nodes (snd (control_register cr pu n challenge clock now req st)) =
      hm_insert n (pending_node n cluster fingerprint now req) (cs_nodes st))"
proof (cases "pu (rq_cluster_id req)")
  case None
  then show ?thesis by (simp add: control_register_def parse_id_def)
next
  case (Some cluster)
  then show ?thesis
    by (cases "8 \<le> length (rq_pairing_signature req)")
      (auto simp: control_register_def parse_id_def slice_to_def generate_challenge_def)
qed

lemma prepare_plan_state: "snd (prepare_plan pu req st) = st"
  by (cases "pu (pl_node_id req)")
    (simp_all add: prepare_plan_def parse_id_def Let_def split: option.split)

lemma has_status_modify:
  "has_status s n (st\<lparr>cs_nodes := hm_modify m f (cs_nodes st)\<rparr>) \<longleftrightarrow>
   (if m = n then \<exists>node. hm_get (cs_nodes st) n = Some node \<and> pn_status (f node) = s else has_status s n st)"
  by (auto simp: has_status_def)

text \<open>The status of a known node after a call: no call takes a node off the table.\<close>

lemma call_status:
  assumes "has_status s n st"
  shows "\<exists>s'. has_status s' n (control_exec cr pu st call) \<and>
    (if heals pu n call then s' = Healthy
     else s' = s \<or> s' = Draining \<or> s' = Suspect \<and> registers_as n call)"
proof -
  obtain node where node: "hm_get (cs_nodes st) n = Some node" "pn_status node = s"
    using assms by (auto simp: has_status_def)
  show ?thesis
  proof (cases call)
    case (Call_Control_Register m challenge clock now req)
    then show ?thesis
      using control_register_nodes [of cr pu m challenge clock now req st] node
      by (cases "m = n") (auto simp: has_status_def pending_node_def)
  next
    case (Call_Control_Heartbeat now req)
    then show ?thesis
      using assms node by (cases "pu (hb_node_id req)") (auto simp: has_status_modify control_heartbeat_def parse_id_def)
  next
    case (Call_Probe result node_text)
    then show ?thesis
      using assms node by (cases "pu node_text"; cases result) (auto simp: has_status_modify probe_def parse_id_def)
  next
    case (Call_Benchmark node_text bt)
    then show ?thesis using assms by (cases "pu node_text") (auto simp: benchmark_def parse_id_def)
  next
    case (Call_Prepare req)
    then show ?thesis using assms by (auto simp: prepare_plan_state)
  next
    case (Call_Commit node_text)
    then show ?thesis using assms by (cases "pu node_text") (auto simp: commit_plan_def parse_id_def return_action_def)
  next
    case (Call_Cancel node_text)
    then show ?thesis using assms by (cases "pu node_text") (auto simp: cancel_plan_def parse_id_def return_action_def)
  next
    case (Call_Drain req)
    then show ?thesis
      using assms node by (cases "pu (dr_node_id req)") (auto simp: has_status_modify drain_def parse_id_def)
  next
    case (Call_Set_Permissions req)
    then show ?thesis
      using assms node by (cases "pu (sr_node_id req)") (auto simp: has_status_modify set_permissions_def parse_id_def)
  qed
qed

lemma calls_status:
  "has_status s n st \<Longrightarrow> \<exists>s'. has_status s' n (foldl (control_exec cr pu) st calls) \<and>
     (list_all (\<lambda>c. \<not> heals pu n c) calls \<longrightarrow> s' = s \<or> s' = Draining \<or> s' = Suspect \<and> list_ex (registers_as n) calls)"
proof (induction calls arbitrary: st s)
  case (Cons call calls)
  obtain s1 where s1: "has_status s1 n (control_exec cr pu st call)"
      "if heals pu n call then s1 = Healthy else s1 = s \<or> s1 = Draining \<or> s1 = Suspect \<and> registers_as n call"
    using call_status [OF Cons.prems] by blast
  show ?case using Cons.IH [OF s1(1)] s1(2) by auto
qed auto

lemma prepare_plan_refused:
  assumes "has_status s n st" and "s \<noteq> Healthy" and "pu (pl_node_id req) = Some n"
  shows "prepare_plan pu req st =
    (Ok \<lparr>pa_accepted = False, pa_rejection_reason = ''Node status: '' @ debug_status s,
       pa_estimated_load_time_ms = 0\<rparr>, st)"
  using assms by (auto simp: has_status_def prepare_plan_def parse_id_def)

section \<open>Properties\<close>

text \<open>
  C38.  Draining: after a drain of a known node, every plan for it is refused
  whatever calls of the service follow, as long as none of them is a heartbeat
  of the node or a successful probe of it; the reason names the status
  \<open>Draining\<close>, or \<open>Suspect\<close> if one of them registered under the same id.  And
  at every point after the drain, any heartbeat of the node and any successful
  probe of it makes it healthy: the drain lasts until the first of these, which
  a draining node, going on with its heartbeats, sends by itself.
\<close>
theorem drain_ends_with_heartbeat_or_probe:
  assumes "hm_get (cs_nodes st) n = Some node" and "pu node_text = Some n"
    and "drained = foldl (control_exec cr pu) (snd (drain pu \<lparr>dr_node_id = node_text, dr_emergency = emergency\<rparr> st)) calls"
  shows "(list_all (\<lambda>c. \<not> heals pu n c) calls \<longrightarrow>
      (\<exists>s. (s = Draining \<or> s = Suspect \<and> list_ex (registers_as n) calls) \<and>
        (\<forall>req. pu (pl_node_id req) = Some n \<longrightarrow>
          prepare_plan pu req drained = (Ok \<lparr>pa_accepted = False,
            pa_rejection_reason = ''Node status: '' @ debug_status s, pa_estimated_load_time_ms = 0\<rparr>, drained)))) \<and>
    (\<forall>call. heals pu n call \<longrightarrow> has_status Healthy n (control_exec cr pu drained call))"
proof -
  have "has_status Draining n (snd (drain pu \<lparr>dr_node_id = node_text, dr_emergency = emergency\<rparr> st))"
    using assms(1,2) by (simp add: has_status_def drain_def parse_id_def)
  then obtain s where s: "has_status s n drained" "list_all (\<lambda>c. \<not> heals pu n c) calls \<longrightarrow>
      s = Draining \<or> s = Suspect \<and> list_ex (registers_as n) calls"
    using calls_status [of Draining] unfolding assms(3) by blast
  have "has_status Healthy n (control_exec cr pu drained call)" if "heals pu n call" for call
    using call_status [OF s(1), of cr pu call] that by simp
  moreover have "prepare_plan pu req drained = (Ok \<lparr>pa_accepted = False,
      pa_rejection_reason = ''Node status: '' @ debug_status s, pa_estimated_load_time_ms = 0\<rparr>, drained)"
    if "list_all (\<lambda>c. \<not> heals pu n c) calls" and "pu (pl_node_id req) = Some n" for req
    using that s by (intro prepare_plan_refused) auto
  ultimately show ?thesis using s(2) by blast
qed

theorem drain_ends_with_heartbeat_or_probe_witness:
  "\<exists>refused. prepare_plan (\<lambda>_. Some 7) \<lparr>pl_node_id = ''7'', pl_model_id = ''m'', pl_shard_bytes = [1]\<rparr>
      (snd (drain (\<lambda>_. Some 7) \<lparr>dr_node_id = ''7'', dr_emergency = True\<rparr> sample_member_state)) = (Ok refused,
      snd (drain (\<lambda>_. Some 7) \<lparr>dr_node_id = ''7'', dr_emergency = True\<rparr> sample_member_state)) \<and>
    pa_rejection_reason refused = ''Node status: Draining'' \<and>
    has_status Healthy 7 (control_exec sample_crypto (\<lambda>_. Some 7)
      (snd (drain (\<lambda>_. Some 7) \<lparr>dr_node_id = ''7'', dr_emergency = True\<rparr> sample_member_state))
      (Call_Probe (Inr unknown_capabilities) ''7''))"
proof -
  have known: "hm_get (cs_nodes sample_member_state) 7 = Some (sample_node 7 Healthy [sample_gpu ''gpu0'' 1000])"
    by (simp add: sample_member_state_def hm_get_def)
  note drained = drain_ends_with_heartbeat_or_probe [OF known _ refl, where pu = "\<lambda>_. Some 7" and node_text = "''7''"
      and calls = "[Call_Commit ''s'', Call_Cancel ''s'']" and emergency = True and cr = sample_crypto, OF refl]
  show ?thesis
    using drained [THEN conjunct1] drained [THEN conjunct2, THEN spec, of "Call_Probe (Inr unknown_capabilities) ''7''"]
    by (simp add: commit_plan_def cancel_plan_def parse_id_def return_action_def)
qed

lemma unat_sum_list_mod: "unat (sum_list ws :: 'a::len word) = (\<Sum>w\<leftarrow>ws. unat w) mod 2 ^ LENGTH('a)"
  by (induction ws) (simp_all add: unat_word_ariths mod_add_right_eq)

text \<open>
  Plan admission: a healthy node accepts a plan exactly when the weights
  fit its device and host memory, both totals taken modulo \<open>2 ^ 64\<close>; so the
  decision is right when the totals fit 64 bits, and shards of \<open>2 ^ 64\<close> bytes
  are accepted by every healthy node.  The load time is a second for each full
  100 MiB, in 32-bit arithmetic.
\<close>
theorem plan_admission:
  assumes "pu (pl_node_id req) = Some n" and "hm_get (cs_nodes st) n = Some node" and "pn_status node = Healthy"
    and "weights = (\<Sum>b\<leftarrow>pl_shard_bytes req. unat b)"
    and "memory = node_vram (pn_capabilities node) + node_ram (pn_capabilities node)"
  shows "\<exists>answer. prepare_plan pu req st = (Ok answer, st) \<and>
    (pa_accepted answer \<longleftrightarrow> weights mod 2 ^ 64 \<le> memory mod 2 ^ 64) \<and>
    (pa_accepted answer \<longrightarrow> unat (pa_estimated_load_time_ms answer) =
       (weights mod 2 ^ 64 div 104857600) mod 2 ^ 32 * 1000 mod 2 ^ 32)"
proof -
  let ?caps = "pn_capabilities node"
  let ?total = "sum_list (pl_shard_bytes req)"
  let ?room = "sum_list (map gpu_vram_bytes (nc_gpus ?caps)) + mem_available_bytes (nc_memory ?caps)"
  have total_bytes: "unat ?total = weights mod 2 ^ 64"
    using unat_sum_list_mod [of "pl_shard_bytes req"] by (simp add: assms(4))
  have room: "unat ?room = memory mod 2 ^ 64"
    using unat_sum_list_mod [of "map gpu_vram_bytes (nc_gpus ?caps)"]
    by (simp add: assms(5) node_vram_def unat_word_ariths mod_add_left_eq o_def)
  have "unat ?total div 104857600 < 2 ^ 64" using unat_bound [of ?total] by simp
  then have "unat (ucast (?total div (100 * 1024 * 1024)) * 1000 :: u32) =
      (unat ?total div 104857600) mod 2 ^ 32 * 1000 mod 2 ^ 32"
    by (simp add: unat_word_ariths unsigned_ucast_eq take_bit_eq_mod unat_div)
  then show ?thesis
    using assms(1-3) by (simp add: prepare_plan_def parse_id_def Let_def word_less_nat_alt room total_bytes not_less)
qed

theorem plan_admission_witness:
  "\<exists>answer. prepare_plan (\<lambda>_. Some 7)
      \<lparr>pl_node_id = ''7'', pl_model_id = ''m'', pl_shard_bytes = [9223372036854775808, 9223372036854775808]\<rparr>
      sample_member_state = (Ok answer, sample_member_state) \<and> pa_accepted answer"
proof -
  have node: "hm_get (cs_nodes sample_member_state) 7 = Some (sample_node 7 Healthy [sample_gpu ''gpu0'' 1000])"
    by (simp add: sample_member_state_def hm_get_def)
  show ?thesis
    using plan_admission [OF _ node _ refl refl, where pu = "\<lambda>_. Some 7"
        and req = "\<lparr>pl_node_id = ''7'', pl_model_id = ''m'',
          pl_shard_bytes = [9223372036854775808, 9223372036854775808]\<rparr>"]
    by auto
qed

end
