(* ===== verification/Node_Agent.thy ===== *)
theory Node_Agent
  imports Coordinator "HOL-Library.Sublist"
begin

text \<open>
  The node agent, \<open>services/node-agent/src\<close>: its resource manager and runtime
  adapter, the HTTP client, registration, and the heartbeat loop with its
  reconnection attempts.

  The HTTP library is a parameter: a \<open>POST\<close> maps the state of the world behind
  it to an answer or an error text, and the state it leaves.  The coordinator's
  routes give one instance (\<open>coordinator_http\<close>), with requests and answers that
  may be lost; the properties are about the two programs together.  Both sides
  declare the same message fields, so the coordinator's records stand for both.
  Readings of \<open>sysinfo\<close> and the result of the hardware probe are arguments.
\<close>

section \<open>Resource manager and runtime adapter\<close>

record system_reading =
  sy_used_memory :: u64
  sy_cpu_usage :: f32

record resource_manager =
  rm_capabilities :: node_capabilities

definition default_capabilities :: node_capabilities where
  "default_capabilities = \<lparr>
     nc_cpu = \<lparr>cpu_architecture = ''unknown'', cpu_cores = 4, cpu_threads = 8,
       cpu_frequency_mhz = 3000, cpu_features = [], cpu_numa_nodes = 1\<rparr>,
     nc_gpus = [],
     nc_memory = \<lparr>mem_total_bytes = 16 * 1024 * 1024 * 1024,
       mem_available_bytes = 16 * 1024 * 1024 * 1024, mem_bandwidth_mbps = 25000\<rparr>,
     nc_storage = \<lparr>sto_total_bytes = 1024 * 1024 * 1024 * 1024,
       sto_available_bytes = 1024 * 1024 * 1024 * 1024,
       sto_read_throughput_mbps = 3500, sto_write_throughput_mbps = 3000\<rparr>,
     nc_network = \<lparr>net_interfaces = []\<rparr>,
     nc_supported_runtimes = [GGML, CPU]\<rparr>"

definition resource_manager_new :: "string + node_capabilities \<Rightarrow> resource_manager" where
  "resource_manager_new probe =
     \<lparr>rm_capabilities = (case probe of Inl _ \<Rightarrow> default_capabilities | Inr caps \<Rightarrow> caps)\<rparr>"

definition get_current_resources :: "system_reading \<Rightarrow> node_resources" where
  "get_current_resources sys = \<lparr>nr_cpu_usage_percent = sy_cpu_usage sys,
     nr_memory_used_bytes = sy_used_memory sys, nr_memory_committed_bytes = sy_used_memory sys,
     nr_gpu_usage = [], nr_network_tx_mbps = Fin 0, nr_network_rx_mbps = Fin 0,
     nr_temperature_celsius = None\<rparr>"

record runtime_adapter =
  ra_backend :: runtime_backend

record adapter_capabilities =
  ac_backend :: runtime_backend
  ac_supported_dtypes :: "string list"
  ac_max_tensor_size :: u64

definition runtime_adapter_new :: runtime_adapter where
  "runtime_adapter_new = \<lparr>ra_backend = GGML\<rparr>"

definition adapter_probe :: "runtime_adapter \<Rightarrow> adapter_capabilities" where
  "adapter_probe a = \<lparr>ac_backend = ra_backend a,
     ac_supported_dtypes = [''f32'', ''f16'', ''q4_k_m''],
     ac_max_tensor_size = 16 * 1024 * 1024 * 1024\<rparr>"

text \<open>Two placeholders: they look at neither the shard nor the tensor.\<close>

definition adapter_load_shard :: "runtime_adapter \<Rightarrow> model_shard_spec \<Rightarrow> (string, shard_handle) outcome" where
  "adapter_load_shard a spec = Ok \<lparr>sd_shard_id = 0, sd_backend = ra_backend a\<rparr>"

definition adapter_allocate_tensor :: "runtime_adapter \<Rightarrow> tensor_spec \<Rightarrow> (string, tensor_handle) outcome" where
  "adapter_allocate_tensor a spec =
     Ok \<lparr>th_tensor_id = ''placeholder'', th_device = ''cpu'', th_offset = 0, th_size = 0\<rparr>"

section \<open>The client of the coordinator\<close>

record 'w http_client =
  post_register :: "string \<Rightarrow> register_node_request \<Rightarrow> 'w \<Rightarrow> (string + register_node_response) \<times> 'w"
  post_heartbeat :: "string \<Rightarrow> heartbeat_request \<Rightarrow> 'w \<Rightarrow> (string + heartbeat_response) \<times> 'w"

datatype agent_error =
    Probe_Failed string
  | Request_Failed string
  | Registration_Failed string
  | Invalid_Node_Id string

record coordinator_client =
  cc_base_url :: string

definition client_connect :: "string \<Rightarrow> coordinator_client" where
  "client_connect addr = \<lparr>cc_base_url =
     (if prefix ''http://'' addr \<or> prefix ''https://'' addr then addr else ''http://'' @ addr)\<rparr>"

definition client_register ::
  "'w http_client \<Rightarrow> coordinator_client \<Rightarrow> register_node_request \<Rightarrow>
   ('w, agent_error, register_node_response) action" where
  "client_register http client request w =
     (case post_register http (cc_base_url client @ ''/api/nodes/register'') request w of
        (Inl e, w') \<Rightarrow> (Err (Request_Failed e), w')
      | (Inr response, w') \<Rightarrow> (Ok response, w'))"

definition client_send_heartbeat ::
  "(uuid \<Rightarrow> string) \<Rightarrow> 'w http_client \<Rightarrow> coordinator_client \<Rightarrow> node_id \<Rightarrow> u64 \<Rightarrow> node_resources \<Rightarrow>
   ('w, agent_error, heartbeat_response) action" where
  "client_send_heartbeat uuid_text http client node_id sequence resources w =
     (case post_heartbeat http (cc_base_url client @ ''/api/nodes/'' @ uuid_text node_id @ ''/heartbeat'')
         \<lparr>hq_sequence = sequence, hq_resources = resources\<rparr> w of
        (Inl e, w') \<Rightarrow> (Err (Request_Failed e), w')
      | (Inr response, w') \<Rightarrow> (Ok response, w'))"

section \<open>The agent\<close>

record 'k node_agent =
  na_node_id :: "node_id option"
  na_cluster_id :: cluster_id
  na_coordinator_addr :: string
  na_coordinator_client :: "coordinator_client option"
  na_pairing_manager :: "'k pairing_manager"
  na_resource_manager :: resource_manager
  na_runtime_adapter :: runtime_adapter
  na_permissions :: node_permissions

definition node_agent_new ::
  "'k \<Rightarrow> string + node_capabilities \<Rightarrow> cluster_id \<Rightarrow> string \<Rightarrow> 'k node_agent" where
  "node_agent_new key probe cluster addr = \<lparr>na_node_id = None, na_cluster_id = cluster,
     na_coordinator_addr = addr, na_coordinator_client = None,
     na_pairing_manager = new_node key cluster,
     na_resource_manager = resource_manager_new probe,
     na_runtime_adapter = runtime_adapter_new,
     na_permissions = \<lparr>np_max_cpu_percent = 80, np_max_cpu_threads = None,
       np_max_ram_bytes = 16 * 1024 * 1024 * 1024, np_gpu_enabled = True,
       np_max_vram_bytes = 8 * 1024 * 1024 * 1024, np_max_storage_bytes = 100 * 1024 * 1024 * 1024,
       np_allow_when_on_battery = False, np_pause_when_user_active = True, np_allowed_schedule = None\<rparr>\<rparr>"

text \<open>What one pass of the agent reads from outside: the network, the host name, the probe, \<open>sysinfo\<close>.\<close>

record 'w surroundings =
  su_http :: "'w http_client"
  su_hostname :: string
  su_probe :: "string + node_capabilities"
  su_system :: system_reading

definition agent_register ::
  "(string \<Rightarrow> uuid option) \<Rightarrow> (uuid \<Rightarrow> string) \<Rightarrow> 'w surroundings \<Rightarrow> string \<Rightarrow>
   ('k node_agent \<times> 'w, agent_error, unit) action" where
  "agent_register parse_uuid uuid_text env addr = (\<lambda>(agent, w).
     case su_probe env of
       Inl e \<Rightarrow> (Err (Probe_Failed e), (agent, w))
     | Inr capabilities \<Rightarrow>
         (let client = client_connect addr;
              request = \<lparr>rn_node_name = su_hostname env, rn_hostname = su_hostname env,
                rn_cluster_id = uuid_text (na_cluster_id agent), rn_capabilities = capabilities,
                rn_resources = get_current_resources (su_system env)\<rparr>
          in case client_register (su_http env) client request w of
               (Err e, w') \<Rightarrow> (Err e, (agent, w'))
             | (Panic p, w') \<Rightarrow> (Panic p, (agent, w'))
             | (Ok response, w') \<Rightarrow>
                 if \<not> rs_success response then
                   (Err (Registration_Failed (case rs_error_message response of
                      None \<Rightarrow> ''Unknown error'' | Some m \<Rightarrow> m)), (agent, w'))
                 else
                   (case parse_uuid (rs_node_id response) of
                      None \<Rightarrow> (Err (Invalid_Node_Id (rs_node_id response)), (agent, w'))
                    | Some n \<Rightarrow> (Ok (), (agent\<lparr>na_node_id := Some n, na_coordinator_client := Some client\<rparr>, w')))))"

section \<open>The heartbeat loop\<close>

text \<open>The local variables of the loop beside the agent.\<close>

record 'k heartbeat_loop =
  hl_agent :: "'k node_agent"
  hl_node_id :: node_id
  hl_sequence :: u64
  hl_reconnect_attempts :: u32

definition max_reconnect_attempts :: u32 where
  "max_reconnect_attempts = 5"

text \<open>How a pass ends: with a sleep of so many seconds, or with \<open>break\<close>.\<close>

datatype pass_end = Sleep u64 | Break

definition beat ::
  "(uuid \<Rightarrow> string) \<Rightarrow> 'w surroundings \<Rightarrow> coordinator_client \<Rightarrow>
   'k heartbeat_loop \<times> 'w \<Rightarrow> pass_end \<times> 'k heartbeat_loop \<times> 'w" where
  "beat uuid_text env client = (\<lambda>(l, w).
     case client_send_heartbeat uuid_text (su_http env) client (hl_node_id l) (hl_sequence l)
         (get_current_resources (su_system env)) w of
       (Ok _, w') \<Rightarrow> (Sleep 2, l\<lparr>hl_sequence := hl_sequence l + 1, hl_reconnect_attempts := 0\<rparr>, w')
     | (_, w') \<Rightarrow>
         (let l = l\<lparr>hl_agent := (hl_agent l)\<lparr>na_coordinator_client := None\<rparr>,
                hl_reconnect_attempts := hl_reconnect_attempts l + 1\<rparr>
          in (if max_reconnect_attempts \<le> hl_reconnect_attempts l then Break else Sleep 2, l, w')))"

definition heartbeat_pass ::
  "(string \<Rightarrow> uuid option) \<Rightarrow> (uuid \<Rightarrow> string) \<Rightarrow> 'w surroundings \<Rightarrow>
   'k heartbeat_loop \<times> 'w \<Rightarrow> pass_end \<times> 'k heartbeat_loop \<times> 'w" where
  "heartbeat_pass parse_uuid uuid_text env = (\<lambda>(l, w).
     case na_coordinator_client (hl_agent l) of
       Some client \<Rightarrow> beat uuid_text env client (l, w)
     | None \<Rightarrow>
         (case agent_register parse_uuid uuid_text env (na_coordinator_addr (hl_agent l)) (hl_agent l, w) of
            (Ok _, (agent, w')) \<Rightarrow>
              (case na_coordinator_client agent of
                 Some client \<Rightarrow> beat uuid_text env client (l\<lparr>hl_agent := agent, hl_reconnect_attempts := 0\<rparr>, w')
               | None \<Rightarrow> (Sleep 2, l\<lparr>hl_agent := agent, hl_reconnect_attempts := 0\<rparr>, w'))
          | (_, (agent, w')) \<Rightarrow>
              (let l = l\<lparr>hl_agent := agent, hl_reconnect_attempts := hl_reconnect_attempts l + 1\<rparr>
               in (if max_reconnect_attempts \<le> hl_reconnect_attempts l then Break
                   else Sleep (5 * ucast (hl_reconnect_attempts l)), l, w'))))"

text \<open>The start of the loop, which panics when the agent never registered.\<close>

definition heartbeat_loop_start :: "'k node_agent \<Rightarrow> (agent_error, 'k heartbeat_loop) outcome" where
  "heartbeat_loop_start agent =
     (case na_node_id agent of
        None \<Rightarrow> Panic Unwrap_On_None
      | Some n \<Rightarrow> Ok \<lparr>hl_agent = agent, hl_node_id = n, hl_sequence = 0, hl_reconnect_attempts = 0\<rparr>)"

text \<open>The passes over a sequence of surroundings: the sleeps between them and whether the loop is over.\<close>

fun heartbeat_passes ::
  "(string \<Rightarrow> uuid option) \<Rightarrow> (uuid \<Rightarrow> string) \<Rightarrow> 'w surroundings list \<Rightarrow>
   'k heartbeat_loop \<times> 'w \<Rightarrow> (u64 list \<times> bool) \<times> 'k heartbeat_loop \<times> 'w" where
  "heartbeat_passes parse_uuid uuid_text [] s = (([], False), s)"
| "heartbeat_passes parse_uuid uuid_text (env # envs) s =
     (case heartbeat_pass parse_uuid uuid_text env s of
        (Break, s') \<Rightarrow> (([], True), s')
      | (Sleep d, s') \<Rightarrow>
          (case heartbeat_passes parse_uuid uuid_text envs s' of
             ((ds, over), s'') \<Rightarrow> ((d # ds, over), s'')))"

section \<open>The agent and the coordinator\<close>

text \<open>The routes of the coordinator's server.\<close>

datatype route = Register_Route | Heartbeat_Route string

definition post_route :: "string \<Rightarrow> route option" where
  "post_route path =
     (if path = ''/api/nodes/register'' then Some Register_Route
      else if prefix ''/api/nodes/'' path \<and> suffix ''/heartbeat'' (drop 11 path) then
        (let segment = take (length path - 21) (drop 11 path)
         in if segment = [] \<or> CHR ''/'' \<in> set segment then None else Some (Heartbeat_Route segment))
      else None)"

text \<open>What the network does to a request and its answer.\<close>

datatype fate = Delivered | Request_Lost | Answer_Lost

definition serve ::
  "fate \<Rightarrow> string \<Rightarrow> string \<Rightarrow> (route \<Rightarrow> ('s \<Rightarrow> 'r \<times> 's) option) \<Rightarrow> 's \<Rightarrow> (string + 'r) \<times> 's" where
  "serve fate host url handler st =
     (if fate = Request_Lost \<or> \<not> prefix host url then (Inl ''Request failed'', st)
      else case Option.bind (post_route (drop (length host) url)) handler of
             None \<Rightarrow> (Inl ''Parse failed'', st)
           | Some h \<Rightarrow> (case h st of (response, st') \<Rightarrow>
               (if fate = Answer_Lost then Inl ''Request failed'' else Inr response, st')))"

definition coordinator_http ::
  "(string \<Rightarrow> uuid option) \<Rightarrow> (uuid \<Rightarrow> string) \<Rightarrow> string \<Rightarrow> fate \<Rightarrow> node_id \<Rightarrow> datetime \<Rightarrow>
   'k cluster_state http_client" where
  "coordinator_http parse_uuid uuid_text host fate fresh now = \<lparr>
     post_register = (\<lambda>url req. serve fate host url (\<lambda>route. case route of
        Register_Route \<Rightarrow> Some (register_node parse_uuid uuid_text fresh now req)
      | Heartbeat_Route _ \<Rightarrow> None)),
     post_heartbeat = (\<lambda>url req. serve fate host url (\<lambda>route. case route of
        Register_Route \<Rightarrow> None
      | Heartbeat_Route node \<Rightarrow> Some (send_heartbeat parse_uuid now node req)))\<rparr>"

text \<open>
  The two programs together: passes of one agent, each with the network's
  choice, the id the coordinator would draw and the agent's readings, between
  the coordinator's other events.
\<close>

datatype system_event =
    Agent_Pass fate node_id string "string + node_capabilities" system_reading
  | Elsewhere cluster_event

record ('a, 'k) system_state =
  ss_loop :: "'a heartbeat_loop"
  ss_running :: bool
  ss_cluster :: "'k cluster_state"

fun system_step ::
  "(string \<Rightarrow> uuid option) \<Rightarrow> (uuid \<Rightarrow> string) \<Rightarrow> string \<Rightarrow> datetime \<times> system_event \<Rightarrow>
   ('a, 'k) system_state \<Rightarrow> ('a, 'k) system_state" where
  "system_step parse_uuid uuid_text host (now, Agent_Pass fate fresh name probe reading) s =
     (if \<not> ss_running s then s
      else case heartbeat_pass parse_uuid uuid_text
          \<lparr>su_http = coordinator_http parse_uuid uuid_text host fate fresh now, su_hostname = name,
           su_probe = probe, su_system = reading\<rparr> (ss_loop s, ss_cluster s) of
        (e, l, st) \<Rightarrow> \<lparr>ss_loop = l, ss_running = (e \<noteq> Break), ss_cluster = st\<rparr>)"
| "system_step parse_uuid uuid_text host (now, Elsewhere e) s =
     s\<lparr>ss_cluster := cluster_step parse_uuid uuid_text (now, e) (ss_cluster s)\<rparr>"

definition system_run ::
  "(string \<Rightarrow> uuid option) \<Rightarrow> (uuid \<Rightarrow> string) \<Rightarrow> string \<Rightarrow> (datetime \<times> system_event) list \<Rightarrow>
   ('a, 'k) system_state \<Rightarrow> ('a, 'k) system_state" where
  "system_run parse_uuid uuid_text host events s =
     foldl (\<lambda>s e. system_step parse_uuid uuid_text host e s) s events"

text \<open>What is used of \<open>Uuid\<close>: its text is read back, is not empty and has no slash.\<close>

definition uuid_codec :: "(string \<Rightarrow> uuid option) \<Rightarrow> (uuid \<Rightarrow> string) \<Rightarrow> bool" where
  "uuid_codec parse_uuid uuid_text \<longleftrightarrow>
     (\<forall>u. parse_uuid (uuid_text u) = Some u \<and> uuid_text u \<noteq> [] \<and> CHR ''/'' \<notin> set (uuid_text u))"

section \<open>Lemmas\<close>

lemma post_route_register: "post_route ''/api/nodes/register'' = Some Register_Route"
  by (simp add: post_route_def)

lemma post_route_heartbeat:
  assumes "t \<noteq> []" and "CHR ''/'' \<notin> set t"
  shows "post_route (''/api/nodes/'' @ t @ ''/heartbeat'') = Some (Heartbeat_Route t)"
proof -
  have "CHR ''/'' \<in> set (t @ ''/heartbeat'')" "CHR ''/'' \<notin> set ''register''" by simp_all
  then have "t @ ''/heartbeat'' \<noteq> ''register''" by fastforce
  then have "''/api/nodes/'' @ t @ ''/heartbeat'' \<noteq> ''/api/nodes/register''" by simp
  then show ?thesis using assms by (simp add: post_route_def suffix_def)
qed

lemma heartbeat_delivered:
  assumes "uuid_codec parse_uuid uuid_text"
  shows "client_send_heartbeat uuid_text (coordinator_http parse_uuid uuid_text host Delivered fresh now)
      \<lparr>cc_base_url = host\<rparr> n seq res st =
    (Ok (fst (send_heartbeat parse_uuid now (uuid_text n) \<lparr>hq_sequence = seq, hq_resources = res\<rparr> st)),
     snd (send_heartbeat parse_uuid now (uuid_text n) \<lparr>hq_sequence = seq, hq_resources = res\<rparr> st))"
proof -
  have "post_route (''/api/nodes/'' @ uuid_text n @ ''/heartbeat'') = Some (Heartbeat_Route (uuid_text n))"
    using assms by (intro post_route_heartbeat) (simp_all add: uuid_codec_def)
  then show ?thesis
    by (simp add: client_send_heartbeat_def coordinator_http_def serve_def split: prod.split)
qed

lemma registration_delivered:
  "client_register (coordinator_http parse_uuid uuid_text host Delivered fresh now) \<lparr>cc_base_url = host\<rparr> req st =
    (Ok (fst (register_node parse_uuid uuid_text fresh now req st)),
     snd (register_node parse_uuid uuid_text fresh now req st))"
  using post_route_register
  by (simp add: client_register_def coordinator_http_def serve_def split: prod.split)

text \<open>A delivered pass of a connected agent is one heartbeat, taken for a success whatever the answer.\<close>

lemma pass_connected:
  assumes "uuid_codec parse_uuid uuid_text"
    and "na_coordinator_client (hl_agent l) = Some \<lparr>cc_base_url = host\<rparr>"
  shows "heartbeat_pass parse_uuid uuid_text
      \<lparr>su_http = coordinator_http parse_uuid uuid_text host Delivered fresh now, su_hostname = name,
       su_probe = probe, su_system = reading\<rparr> (l, st) =
    (Sleep 2, l\<lparr>hl_sequence := hl_sequence l + 1, hl_reconnect_attempts := 0\<rparr>,
     cluster_step parse_uuid uuid_text (now, Heartbeat (uuid_text (hl_node_id l))
       \<lparr>hq_sequence = hl_sequence l, hq_resources = get_current_resources reading\<rparr>) st)"
  by (simp add: heartbeat_pass_def beat_def assms(2) heartbeat_delivered [OF assms(1)])

text \<open>A delivered pass of an agent without a client registers, then beats for the id it had before.\<close>

definition connect_to :: "node_id \<Rightarrow> string \<Rightarrow> 'k node_agent \<Rightarrow> 'k node_agent" where
  "connect_to n host agent = agent\<lparr>na_node_id := Some n, na_coordinator_client := Some \<lparr>cc_base_url = host\<rparr>\<rparr>"

definition register_request ::
  "(uuid \<Rightarrow> string) \<Rightarrow> string \<Rightarrow> node_capabilities \<Rightarrow> system_reading \<Rightarrow> 'k node_agent \<Rightarrow> register_node_request" where
  "register_request uuid_text name capabilities reading agent =
     \<lparr>rn_node_name = name, rn_hostname = name, rn_cluster_id = uuid_text (na_cluster_id agent),
      rn_capabilities = capabilities, rn_resources = get_current_resources reading\<rparr>"

lemma client_connect_url: "client_connect addr = \<lparr>cc_base_url = cc_base_url (client_connect addr)\<rparr>"
  by simp

lemma agent_registers:
  assumes "uuid_codec parse_uuid uuid_text" and "client_connect addr = \<lparr>cc_base_url = host\<rparr>"
  shows "agent_register parse_uuid uuid_text
      \<lparr>su_http = coordinator_http parse_uuid uuid_text host Delivered fresh now, su_hostname = name,
       su_probe = Inr capabilities, su_system = reading\<rparr> addr (agent, st) =
    (Ok (), (connect_to fresh host agent,
     cluster_step parse_uuid uuid_text
       (now, Register fresh (register_request uuid_text name capabilities reading agent)) st))"
  using assms
  by (simp add: agent_register_def registration_delivered register_request_def connect_to_def
      register_node_def Let_def uuid_codec_def)

lemma pass_reconnects:
  assumes "uuid_codec parse_uuid uuid_text" and "na_coordinator_client (hl_agent l) = None"
    and "client_connect (na_coordinator_addr (hl_agent l)) = \<lparr>cc_base_url = host\<rparr>"
  shows "heartbeat_pass parse_uuid uuid_text
      \<lparr>su_http = coordinator_http parse_uuid uuid_text host Delivered fresh now, su_hostname = name,
       su_probe = Inr capabilities, su_system = reading\<rparr> (l, st) =
    (Sleep 2, l\<lparr>hl_agent := connect_to fresh host (hl_agent l), hl_sequence := hl_sequence l + 1,
       hl_reconnect_attempts := 0\<rparr>,
     cluster_run parse_uuid uuid_text
       [(now, Register fresh (register_request uuid_text name capabilities reading (hl_agent l))),
        (now, Heartbeat (uuid_text (hl_node_id l))
          \<lparr>hq_sequence = hl_sequence l, hq_resources = get_current_resources reading\<rparr>)] st)"
  using assms
  by (simp add: heartbeat_pass_def beat_def agent_registers heartbeat_delivered connect_to_def cluster_run_def)

text \<open>What the coordinator sees of a connected agent for \<open>n\<close> whose requests are all delivered.\<close>

fun coordinator_sees ::
  "(uuid \<Rightarrow> string) \<Rightarrow> node_id \<Rightarrow> u64 \<Rightarrow> (datetime \<times> system_event) list \<Rightarrow> (datetime \<times> cluster_event) list" where
  "coordinator_sees uuid_text n seq [] = []"
| "coordinator_sees uuid_text n seq ((now, Agent_Pass fate fresh name probe reading) # events) =
     (now, Heartbeat (uuid_text n) \<lparr>hq_sequence = seq, hq_resources = get_current_resources reading\<rparr>)
       # coordinator_sees uuid_text n (seq + 1) events"
| "coordinator_sees uuid_text n seq ((now, Elsewhere e) # events) =
     (now, e) # coordinator_sees uuid_text n seq events"

fun is_pass :: "datetime \<times> system_event \<Rightarrow> bool" where
  "is_pass (now, Agent_Pass fate fresh name probe reading) = True"
| "is_pass (now, Elsewhere e) = False"

fun delivered :: "datetime \<times> system_event \<Rightarrow> bool" where
  "delivered (now, Agent_Pass fate fresh name probe reading) = (fate = Delivered)"
| "delivered (now, Elsewhere e) = True"

text \<open>An event of the coordinator that does not come from the agent.\<close>

fun elsewhere :: "(cluster_event \<Rightarrow> bool) \<Rightarrow> datetime \<times> system_event \<Rightarrow> bool" where
  "elsewhere P (now, Agent_Pass fate fresh name probe reading) = True"
| "elsewhere P (now, Elsewhere e) = P e"

lemma system_run_connected:
  assumes "uuid_codec parse_uuid uuid_text"
    and "na_coordinator_client (hl_agent l) = Some \<lparr>cc_base_url = host\<rparr>"
    and "hl_reconnect_attempts l = 0" and "list_all delivered events"
  shows "system_run parse_uuid uuid_text host events \<lparr>ss_loop = l, ss_running = True, ss_cluster = st\<rparr> =
    \<lparr>ss_loop = l\<lparr>hl_sequence := hl_sequence l + word_of_nat (length (filter is_pass events))\<rparr>,
     ss_running = True,
     ss_cluster = cluster_run parse_uuid uuid_text (coordinator_sees uuid_text (hl_node_id l) (hl_sequence l) events) st\<rparr>"
  using assms(2-4)
proof (induction events arbitrary: l st)
  case Nil
  then show ?case by (simp add: system_run_def cluster_run_def)
next
  case (Cons ev events)
  obtain now e where ev: "ev = (now, e)" by (cases ev)
  show ?case
  proof (cases e)
    case (Agent_Pass fate fresh name probe reading)
    let ?l = "l\<lparr>hl_sequence := hl_sequence l + 1, hl_reconnect_attempts := 0\<rparr>"
    let ?st = "cluster_step parse_uuid uuid_text (now, Heartbeat (uuid_text (hl_node_id l))
       \<lparr>hq_sequence = hl_sequence l, hq_resources = get_current_resources reading\<rparr>) st"
    have "system_step parse_uuid uuid_text host ev \<lparr>ss_loop = l, ss_running = True, ss_cluster = st\<rparr> =
        \<lparr>ss_loop = ?l, ss_running = True, ss_cluster = ?st\<rparr>"
      using Cons.prems(3) by (simp add: ev Agent_Pass pass_connected [OF assms(1) Cons.prems(1)])
    then show ?thesis
      using Cons.IH [of ?l ?st] Cons.prems by (simp add: ev Agent_Pass system_run_def cluster_run_def)
  next
    case (Elsewhere e')
    then show ?thesis
      using Cons.IH [OF Cons.prems(1,2)] Cons.prems(3) by (simp add: ev system_run_def cluster_run_def)
  qed
qed

lemma sees_elsewhere:
  assumes "list_all (elsewhere P) events" and "\<And>req. P (Heartbeat (uuid_text n) req)"
  shows "list_all (\<lambda>(_, e). P e) (coordinator_sees uuid_text n seq events)"
  using assms(1)
proof (induction events arbitrary: seq)
  case (Cons ev events)
  then show ?case using assms(2) by (cases "(uuid_text, n, seq, ev # events)" rule: coordinator_sees.cases) auto
qed simp

lemma sees_tick: "(t, Elsewhere e) \<in> set events \<Longrightarrow> (t, e) \<in> set (coordinator_sees uuid_text n seq events)"
  by (induction uuid_text n seq events rule: coordinator_sees.induct) auto

text \<open>A network on which no request succeeds.\<close>

definition offline :: "'w surroundings \<Rightarrow> bool" where
  "offline env \<longleftrightarrow>
     (\<forall>url req w. \<exists>e w'. post_register (su_http env) url req w = (Inl e, w')) \<and>
     (\<forall>url req w. \<exists>e w'. post_heartbeat (su_http env) url req w = (Inl e, w'))"

definition give_up_or :: "u64 \<Rightarrow> u32 \<Rightarrow> pass_end" where
  "give_up_or d attempts = (if max_reconnect_attempts \<le> attempts then Break else Sleep d)"

lemma offline_heartbeat:
  assumes "offline env" and "na_coordinator_client (hl_agent l) = Some client"
  shows "\<exists>w'. heartbeat_pass parse_uuid uuid_text env (l, w) =
    (give_up_or 2 (hl_reconnect_attempts l + 1),
     l\<lparr>hl_agent := (hl_agent l)\<lparr>na_coordinator_client := None\<rparr>,
       hl_reconnect_attempts := hl_reconnect_attempts l + 1\<rparr>, w')"
proof -
  obtain e w' where "post_heartbeat (su_http env)
      (cc_base_url client @ ''/api/nodes/'' @ uuid_text (hl_node_id l) @ ''/heartbeat'')
      \<lparr>hq_sequence = hl_sequence l, hq_resources = get_current_resources (su_system env)\<rparr> w = (Inl e, w')"
    using assms(1) unfolding offline_def by blast
  then have "client_send_heartbeat uuid_text (su_http env) client (hl_node_id l) (hl_sequence l)
      (get_current_resources (su_system env)) w = (Err (Request_Failed e), w')"
    by (simp add: client_send_heartbeat_def)
  then show ?thesis by (simp add: heartbeat_pass_def beat_def assms(2) Let_def give_up_or_def)
qed

lemma offline_registration:
  assumes "offline env" and "na_coordinator_client (hl_agent l) = None"
  shows "\<exists>w'. heartbeat_pass parse_uuid uuid_text env (l, w) =
    (give_up_or (5 * ucast (hl_reconnect_attempts l + 1)) (hl_reconnect_attempts l + 1),
     l\<lparr>hl_reconnect_attempts := hl_reconnect_attempts l + 1\<rparr>, w')"
proof -
  let ?addr = "na_coordinator_addr (hl_agent l)"
  have "\<exists>e w'. agent_register parse_uuid uuid_text env ?addr (hl_agent l, w) = (Err e, (hl_agent l, w'))"
  proof (cases "su_probe env")
    case (Inr capabilities)
    let ?req = "\<lparr>rn_node_name = su_hostname env, rn_hostname = su_hostname env,
      rn_cluster_id = uuid_text (na_cluster_id (hl_agent l)), rn_capabilities = capabilities,
      rn_resources = get_current_resources (su_system env)\<rparr>"
    obtain e w' where "post_register (su_http env)
        (cc_base_url (client_connect ?addr) @ ''/api/nodes/register'') ?req w = (Inl e, w')"
      using assms(1) unfolding offline_def by blast
    then have "client_register (su_http env) (client_connect ?addr) ?req w = (Err (Request_Failed e), w')"
      by (simp add: client_register_def)
    then show ?thesis by (simp add: agent_register_def Inr)
  qed (simp add: agent_register_def)
  then obtain e w' where "agent_register parse_uuid uuid_text env ?addr (hl_agent l, w) =
      (Err e, (hl_agent l, w'))" by blast
  then show ?thesis by (simp add: heartbeat_pass_def assms(2) Let_def give_up_or_def)
qed

lemma give_up_attempts:
  assumes "Suc a < 5"
  shows "give_up_or (5 * ucast (word_of_nat (Suc a) :: u32)) (word_of_nat (Suc a)) = Sleep (5 * word_of_nat (Suc a))"
proof -
  from assms consider "a = 0" | "a = 1" | "a = 2" | "a = 3" by linarith
  then show ?thesis by cases (simp_all add: give_up_or_def max_reconnect_attempts_def word_le_nat_alt)
qed

text \<open>The passes left to an agent without a client, by the attempts it has made.\<close>

lemma offline_passes:
  assumes "list_all offline envs" and "na_coordinator_client (hl_agent l) = None"
    and "hl_reconnect_attempts l = word_of_nat a" and "a < 5" and "5 - a \<le> length envs"
  shows "fst (heartbeat_passes parse_uuid uuid_text envs (l, w)) = (map (\<lambda>i. 5 * word_of_nat i) [Suc a..<5], True)"
  using assms
proof (induction envs arbitrary: a l w)
  case (Cons env envs)
  obtain w' where pass: "heartbeat_pass parse_uuid uuid_text env (l, w) =
      (give_up_or (5 * ucast (hl_reconnect_attempts l + 1)) (hl_reconnect_attempts l + 1),
       l\<lparr>hl_reconnect_attempts := hl_reconnect_attempts l + 1\<rparr>, w')"
    using offline_registration [of env l] Cons.prems(1,2) by fastforce
  let ?l = "l\<lparr>hl_reconnect_attempts := hl_reconnect_attempts l + 1\<rparr>"
  have attempts: "hl_reconnect_attempts l + 1 = word_of_nat (Suc a)" using Cons.prems(3) by simp
  show ?case
  proof (cases "a = 4")
    case True
    then show ?thesis using pass attempts by (simp add: give_up_or_def max_reconnect_attempts_def)
  next
    case False
    then have a: "Suc a < 5" using Cons.prems(4) by simp
    have rest: "fst (heartbeat_passes parse_uuid uuid_text envs (?l, w')) =
        (map (\<lambda>i. 5 * word_of_nat i) [Suc (Suc a)..<5], True)"
      using Cons.prems a attempts by (intro Cons.IH) simp_all
    have "give_up_or (5 * ucast (hl_reconnect_attempts l + 1)) (hl_reconnect_attempts l + 1) =
        Sleep (5 * word_of_nat (Suc a))"
      unfolding attempts by (rule give_up_attempts [OF a])
    moreover have "[Suc a..<5] = Suc a # [Suc (Suc a)..<5]" using a by (rule upt_conv_Cons)
    ultimately show ?thesis
      using pass rest by (cases "heartbeat_passes parse_uuid uuid_text envs (?l, w')") auto
  qed
qed simp

section \<open>Properties\<close>

text \<open>
  Registration: an agent that reaches the coordinator gets the fresh id, is
  listed as a healthy node with the host name and capabilities it reported, and
  can start its heartbeat loop, which panics before.  It is listed under its own
  cluster id, which \<open>main\<close> draws at random, and not under the coordinator's.
\<close>
theorem registration_joins:
  fixes st :: "'k cluster_state" and key :: 'a and probe cluster addr
  defines "agent \<equiv> node_agent_new key probe cluster addr"
  assumes "uuid_codec parse_uuid uuid_text"
  shows "heartbeat_loop_start agent = Panic Unwrap_On_None \<and>
    (\<exists>agent' st' node. agent_register parse_uuid uuid_text
        \<lparr>su_http = coordinator_http parse_uuid uuid_text (cc_base_url (client_connect addr)) Delivered fresh now,
         su_hostname = name, su_probe = Inr capabilities, su_system = reading\<rparr> addr (agent, st) =
        (Ok (), (agent', st')) \<and>
      heartbeat_loop_start agent' = Ok \<lparr>hl_agent = agent', hl_node_id = fresh, hl_sequence = 0, hl_reconnect_attempts = 0\<rparr> \<and>
      member_view st' fresh = Some (now, False) \<and> hm_get (cs_nodes st') fresh = Some node \<and>
      pn_hostname node = name \<and> pn_capabilities node = capabilities \<and> pn_cluster_id node = cluster \<and>
      (\<forall>n. n \<noteq> fresh \<longrightarrow> hm_get (cs_nodes st') n = hm_get (cs_nodes st) n))"
  using assms(2) agent_registers [OF assms(2) client_connect_url, of addr fresh now name capabilities reading agent st]
  by (simp add: agent_def node_agent_new_def heartbeat_loop_start_def connect_to_def member_view_def
      register_node_def register_request_def uuid_codec_def Let_def)

definition sample_uuid_text :: "uuid \<Rightarrow> string" where
  "sample_uuid_text u = digits (unat u)"

definition sample_parse_uuid :: "string \<Rightarrow> uuid option" where
  "sample_parse_uuid s = Some (word_of_nat (digits_value s))"

lemma sample_uuid_codec: "uuid_codec sample_parse_uuid sample_uuid_text"
  using digits_no_char [of "CHR ''/''"]
  by (simp add: uuid_codec_def sample_parse_uuid_def sample_uuid_text_def)

lemma sample_parse_text [simp]: "sample_parse_uuid (sample_uuid_text u) = Some u"
  using sample_uuid_codec by (simp add: uuid_codec_def)

definition sample_reading :: system_reading where
  "sample_reading = \<lparr>sy_used_memory = 1000, sy_cpu_usage = Fin 5\<rparr>"

theorem registration_joins_witness:
  "heartbeat_loop_start (node_agent_new [] (Inl []) 42 ''localhost:8080'' :: u8 list node_agent) = Panic Unwrap_On_None"
  using registration_joins [OF sample_uuid_codec, of "[]" "Inl []" 42 "''localhost:8080''"] by blast

text \<open>
  C11.  A connected agent whose requests arrive, less than eleven seconds before
  each pass of the coordinator's monitor, stays a healthy member, whatever else
  happens to the coordinator.
\<close>
theorem connected_agent_stays_member:
  assumes "uuid_codec parse_uuid uuid_text"
    and "na_coordinator_client (hl_agent l) = Some \<lparr>cc_base_url = host\<rparr>" and "hl_reconnect_attempts l = 0"
    and "list_all delivered events" and "hm_ok (cs_nodes st)"
    and "member_view st (hl_node_id l) = Some (heard, False)"
    and "on_time parse_uuid (hl_node_id l) heard (coordinator_sees uuid_text (hl_node_id l) (hl_sequence l) events)"
  shows "\<exists>h s'. system_run parse_uuid uuid_text host events \<lparr>ss_loop = l, ss_running = True, ss_cluster = st\<rparr> = s' \<and>
    ss_running s' \<and> na_coordinator_client (hl_agent (ss_loop s')) = Some \<lparr>cc_base_url = host\<rparr> \<and>
    member_view (ss_cluster s') (hl_node_id l) = Some (h, False)"
  using system_run_connected [OF assms(1-4), of st] detector_on_time [OF assms(7)] assms(2,6)
    cluster_run_refines [OF assms(5), of parse_uuid uuid_text _ "hl_node_id l"]
  by simp

definition sample_loop :: "u8 list heartbeat_loop" where
  "sample_loop = \<lparr>hl_agent = connect_to 7 ''http://localhost:8080''
       (node_agent_new [] (Inl []) 42 ''localhost:8080''),
     hl_node_id = 7, hl_sequence = 0, hl_reconnect_attempts = 0\<rparr>"

definition sample_pass :: "datetime \<Rightarrow> node_id \<Rightarrow> datetime \<times> system_event" where
  "sample_pass now fresh = (now, Agent_Pass Delivered fresh ''worker'' (Inr default_capabilities) sample_reading)"

lemma sample_loop_connected:
  "na_coordinator_client (hl_agent sample_loop) = Some \<lparr>cc_base_url = ''http://localhost:8080''\<rparr>"
  "hl_reconnect_attempts sample_loop = 0" "hl_node_id sample_loop = 7" "hl_sequence sample_loop = 0"
  by (simp_all add: sample_loop_def connect_to_def)

theorem connected_agent_stays_member_witness:
  "\<exists>h. member_view (ss_cluster (system_run sample_parse_uuid sample_uuid_text ''http://localhost:8080''
      [sample_pass 2000000000 1, sample_pass 4000000000 2, (10000000000, Elsewhere Monitor_Tick),
       sample_pass 12000000000 3, (20000000000, Elsewhere Monitor_Tick)]
      \<lparr>ss_loop = sample_loop, ss_running = True, ss_cluster = sample_member_state\<rparr>)) 7 = Some (h, False)"
  using connected_agent_stays_member [OF sample_uuid_codec sample_loop_connected(1,2), of
      "[sample_pass 2000000000 1, sample_pass 4000000000 2, (10000000000, Elsewhere Monitor_Tick),
       sample_pass 12000000000 3, (20000000000, Elsewhere Monitor_Tick)]" sample_member_state 0]
  by (simp add: sample_loop_connected(3,4) sample_pass_def sample_member_view)
text \<open>
  C7.  An agent that lost its membership never returns, though every request
  arrives.  When its client is gone it registers under a fresh id, but the loop
  goes on beating for the id it started with, takes the answer "Node not found"
  for a success and never registers again: the old id stays unknown, and the
  new one, never heard of again, is removed by any pass of the monitor 31
  seconds or more after the registration.
\<close>
theorem reconnected_agent_drops_out:
  fixes st :: "'k cluster_state" and l :: "'a heartbeat_loop"
  defines "n \<equiv> hl_node_id l"
  assumes "uuid_codec parse_uuid uuid_text"
    and "na_coordinator_client (hl_agent l) = None"
    and "client_connect (na_coordinator_addr (hl_agent l)) = \<lparr>cc_base_url = host\<rparr>"
    and "hm_ok (cs_nodes st)" and "member_view st n = None" and "fresh \<noteq> n"
    and "list_all delivered events"
    and "list_all (elsewhere (\<lambda>e. \<not> registers n e \<and> \<not> contacts parse_uuid fresh e)) events"
    and "(t, Elsewhere Monitor_Tick) \<in> set events" and "now + 31000000000 \<le> t"
  shows "\<exists>s'. system_run parse_uuid uuid_text host
      ((now, Agent_Pass Delivered fresh name (Inr capabilities) reading) # events)
      \<lparr>ss_loop = l, ss_running = True, ss_cluster = st\<rparr> = s' \<and>
    ss_running s' \<and> na_node_id (hl_agent (ss_loop s')) = Some fresh \<and>
    hl_sequence (ss_loop s') = hl_sequence l + 1 + word_of_nat (length (filter is_pass events)) \<and>
    member_view (ss_cluster s') n = None \<and> member_view (ss_cluster s') fresh = None"
proof -
  let ?l = "l\<lparr>hl_agent := connect_to fresh host (hl_agent l), hl_sequence := hl_sequence l + 1,
      hl_reconnect_attempts := 0\<rparr>"
  let ?first = "[(now, Register fresh (register_request uuid_text name capabilities reading (hl_agent l))),
      (now, Heartbeat (uuid_text n) \<lparr>hq_sequence = hl_sequence l, hq_resources = get_current_resources reading\<rparr>)]"
  let ?st = "cluster_run parse_uuid uuid_text ?first st"
  let ?seen = "coordinator_sees uuid_text n (hl_sequence l + 1) events"
  have parse: "parse_uuid (uuid_text n) = Some n" using assms(2) by (simp add: uuid_codec_def)
  have ok: "hm_ok (cs_nodes ?st)" using cluster_run_refines [OF assms(5)] by blast
  have first: "system_step parse_uuid uuid_text host (now, Agent_Pass Delivered fresh name (Inr capabilities) reading)
      \<lparr>ss_loop = l, ss_running = True, ss_cluster = st\<rparr> = \<lparr>ss_loop = ?l, ss_running = True, ss_cluster = ?st\<rparr>"
    by (simp add: n_def pass_reconnects [OF assms(2-4)])
  have run: "system_run parse_uuid uuid_text host
      ((now, Agent_Pass Delivered fresh name (Inr capabilities) reading) # events)
      \<lparr>ss_loop = l, ss_running = True, ss_cluster = st\<rparr> =
    system_run parse_uuid uuid_text host events \<lparr>ss_loop = ?l, ss_running = True, ss_cluster = ?st\<rparr>"
    unfolding system_run_def foldl_Cons first ..
  have views: "member_view ?st n = None" "member_view ?st fresh = Some (now, False)"
    using cluster_run_refines [OF assms(5), of parse_uuid uuid_text ?first] assms(6,7) parse by simp_all
  have quiet: "list_all (\<lambda>(_, e). \<not> registers n e \<and> \<not> contacts parse_uuid fresh e) ?seen"
    using assms(7) parse by (intro sees_elsewhere [OF assms(9)]) simp
  then have "member_view (cluster_run parse_uuid uuid_text ?seen ?st) n = None"
    using cluster_run_refines [OF ok] detector_absent [of n ?seen] views(1) by (simp add: list_all_iff split_beta)
  moreover have "member_view (cluster_run parse_uuid uuid_text ?seen ?st) fresh = None"
    using quiet cluster_run_refines [OF ok] views(2) detector_silent [of parse_uuid fresh ?seen t now]
      sees_tick [OF assms(10)] assms(11)
    by (simp add: list_all_iff split_beta)
  ultimately show ?thesis
    using system_run_connected [OF assms(2) _ _ assms(8), of ?l host ?st] unfolding run
    by (simp add: connect_to_def n_def)
qed

theorem reconnected_agent_drops_out_witness:
  "member_view (ss_cluster (system_run sample_parse_uuid sample_uuid_text ''http://localhost:8080''
      [sample_pass 1000000000 9, sample_pass 3000000000 1, sample_pass 30000000000 2,
       (33000000000, Elsewhere Monitor_Tick)]
      \<lparr>ss_loop = sample_loop\<lparr>hl_agent := node_agent_new [] (Inl []) 42 ''localhost:8080'', hl_node_id := 8\<rparr>,
       ss_running = True, ss_cluster = sample_member_state\<rparr>)) 9 = None"
proof -
  let ?l = "sample_loop\<lparr>hl_agent := node_agent_new [] (Inl []) 42 ''localhost:8080'', hl_node_id := 8\<rparr>"
  let ?events = "[sample_pass 3000000000 1, sample_pass 30000000000 2, (33000000000, Elsewhere Monitor_Tick)]"
  have lost: "na_coordinator_client (hl_agent ?l) = None"
    "client_connect (na_coordinator_addr (hl_agent ?l)) = \<lparr>cc_base_url = ''http://localhost:8080''\<rparr>"
    "member_view sample_member_state (hl_node_id ?l) = None" "9 \<noteq> hl_node_id ?l"
    by (simp_all add: node_agent_new_def client_connect_def sample_member_view)
  have events: "list_all delivered ?events"
    "list_all (elsewhere (\<lambda>e. \<not> registers (hl_node_id ?l) e \<and> \<not> contacts sample_parse_uuid 9 e)) ?events"
    "(33000000000, Elsewhere Monitor_Tick) \<in> set ?events" "1000000000 + 31000000000 \<le> (33000000000 :: int)"
    by (simp_all add: sample_pass_def)
  show ?thesis
    using reconnected_agent_drops_out [OF sample_uuid_codec lost(1,2) sample_member_view(1) lost(3,4) events]
    unfolding sample_pass_def [of 1000000000 9] by blast
qed

text \<open>
  C36.  The loop ends: without an answer to any request a connected agent makes
  one heartbeat and four registrations, with pauses of 2, 10, 15 and 20 seconds
  between them, and stops; an agent without a client makes five registrations.
\<close>
theorem loop_gives_up:
  assumes "list_all offline envs" and "5 \<le> length envs" and "hl_reconnect_attempts l = 0"
  shows "fst (heartbeat_passes parse_uuid uuid_text envs (l, w)) =
    (if na_coordinator_client (hl_agent l) = None then [5, 10, 15, 20] else [2, 10, 15, 20], True)"
proof (cases "na_coordinator_client (hl_agent l)")
  case None
  then show ?thesis
    using offline_passes [OF assms(1) None, of 0 parse_uuid uuid_text w] assms(2,3) by (simp add: upt_rec)
next
  case (Some client)
  obtain env rest where envs: "envs = env # rest" using assms(2) by (cases envs) auto
  let ?l = "l\<lparr>hl_agent := (hl_agent l)\<lparr>na_coordinator_client := None\<rparr>, hl_reconnect_attempts := 1\<rparr>"
  obtain w' where "heartbeat_pass parse_uuid uuid_text env (l, w) = (Sleep 2, ?l, w')"
    using offline_heartbeat [of env l client parse_uuid uuid_text w] assms Some
    by (auto simp: envs give_up_or_def max_reconnect_attempts_def word_le_nat_alt)
  moreover have "fst (heartbeat_passes parse_uuid uuid_text rest (?l, w')) = ([10, 15, 20], True)"
    using offline_passes [of rest ?l 1 parse_uuid uuid_text w'] assms by (simp add: envs upt_rec)
  ultimately show ?thesis
    using Some by (cases "heartbeat_passes parse_uuid uuid_text rest (?l, w')") (simp add: envs)
qed

theorem loop_gives_up_witness:
  "fst (heartbeat_passes sample_parse_uuid sample_uuid_text
      (replicate 5 \<lparr>su_http = \<lparr>post_register = (\<lambda>_ _ w. (Inl ''refused'', w)),
           post_heartbeat = (\<lambda>_ _ w. (Inl ''refused'', w))\<rparr>,
         su_hostname = ''worker'', su_probe = Inr default_capabilities, su_system = sample_reading\<rparr>)
      (sample_loop, ())) = ([2, 10, 15, 20], True)"
  using loop_gives_up [of "replicate 5 \<lparr>su_http = \<lparr>post_register = (\<lambda>_ _ w. (Inl ''refused'', w)),
           post_heartbeat = (\<lambda>_ _ w. (Inl ''refused'', w))\<rparr>,
         su_hostname = ''worker'', su_probe = Inr default_capabilities, su_system = sample_reading\<rparr>"
      sample_loop sample_parse_uuid sample_uuid_text "()"]
  by (simp add: sample_loop_connected list_all_iff offline_def)

end
