(* ===== verification/Gguf.thy ===== *)
theory Gguf
  imports Bytes
begin

text \<open>
  The GGUF parser, \<open>crates/model-format/src/lib.rs\<close>, as readers over the bytes
  of the file: every read takes bytes off the front, a short file is
  \<open>UnexpectedEof\<close>, a bad tag or bad UTF-8 an error.  Rust's failures beyond
  errors are kept: a vector larger than the allocator can serve and an array
  nested deeper than the stack allows end the process.

  Every reader is \<open>framed\<close>: on success it depends only on the bytes it took,
  and every truncation of them fails with \<open>UnexpectedEof\<close>.  An encoder gives
  the round trip.
\<close>

section \<open>Values and models\<close>

text \<open>Floats are kept as their bits, signed integers as two's complement words.\<close>

datatype gguf_value =
    Uint8 u8
  | GInt8 u8
  | Uint16 "16 word"
  | GInt16 "16 word"
  | Uint32 u32
  | GInt32 u32
  | Float32 u32
  | GBool bool
  | GString "u8 list"
  | GArray "gguf_value list"
  | Uint64 u64
  | GInt64 u64
  | Float64 u64

record gguf_tensor =
  gt_name :: "u8 list"
  gt_shape :: "u64 list"
  gt_dtype :: string
  gt_offset :: u64

record gguf_model =
  gm_version :: u32
  gm_metadata :: "(u8 list, gguf_value) hash_map"
  gm_tensors :: "gguf_tensor list"

datatype gguf_error =
    UnexpectedEof
  | InvalidMagic
  | FromUtf8
  | UnknownValueType u32
  | UnknownTypeId u32

definition gguf_magic :: u32 where
  "gguf_magic = 0x46554747"

fun as_string :: "gguf_value \<Rightarrow> u8 list option" where
  "as_string (GString s) = Some s"
| "as_string _ = None"

fun as_u64 :: "gguf_value \<Rightarrow> u64 option" where
  "as_u64 (Uint8 v) = Some (ucast v)"
| "as_u64 (Uint16 v) = Some (ucast v)"
| "as_u64 (Uint32 v) = Some (ucast v)"
| "as_u64 (Uint64 v) = Some v"
| "as_u64 _ = None"

fun as_i64 :: "gguf_value \<Rightarrow> u64 option" where
  "as_i64 (GInt8 v) = Some (scast v)"
| "as_i64 (GInt16 v) = Some (scast v)"
| "as_i64 (GInt32 v) = Some (scast v)"
| "as_i64 (GInt64 v) = Some v"
| "as_i64 _ = None"

fun as_f32 :: "gguf_value \<Rightarrow> u32 option" where
  "as_f32 (Float32 v) = Some v"
| "as_f32 _ = None"

fun as_bool :: "gguf_value \<Rightarrow> bool option" where
  "as_bool (GBool v) = Some v"
| "as_bool _ = None"

section \<open>Readers\<close>

text \<open>
  The machine: the largest allocation served, the sizes of a value and of a
  tensor entry in memory, and how many nested arrays fit on the stack.
\<close>

record machine =
  mc_alloc_limit :: nat
  mc_value_size :: nat
  mc_tensor_size :: nat
  mc_stack :: nat

type_synonym 'a reader = "(u8 list, gguf_error, 'a) action"

definition read_bytes :: "nat \<Rightarrow> u8 list reader" where
  "read_bytes n s =
     (if n \<le> length s then (Ok (take n s), drop n s) else (Err UnexpectedEof, []))"

definition read_uint :: "nat \<Rightarrow> ('a::len word) reader" where
  "read_uint n = bind_action (read_bytes n) (\<lambda>bs. return_action (word_of_nat (le_nat bs)))"

abbreviation read_u8 :: "u8 reader" where "read_u8 \<equiv> read_uint 1"
abbreviation read_u16 :: "16 word reader" where "read_u16 \<equiv> read_uint 2"
abbreviation read_u32 :: "u32 reader" where "read_u32 \<equiv> read_uint 4"
abbreviation read_u64 :: "u64 reader" where "read_u64 \<equiv> read_uint 8"

text \<open>\<open>Vec::with_capacity(n)\<close> and \<open>vec![0; n]\<close> for elements of a size.\<close>

definition allocate :: "machine \<Rightarrow> nat \<Rightarrow> nat \<Rightarrow> unit reader" where
  "allocate mc n sz =
     lift_outcome (if n * sz \<le> mc_alloc_limit mc then Ok () else Panic Capacity_Overflow)"

definition read_string :: "machine \<Rightarrow> u8 list reader" where
  "read_string mc =
     bind_action read_u64 (\<lambda>n.
     bind_action (allocate mc (unat n) 1) (\<lambda>_.
     bind_action (read_bytes (unat n)) (\<lambda>bytes.
       if utf8_valid bytes then return_action bytes else fail_action FromUtf8)))"

text \<open>The loop \<open>for _ in 0..n { v.push(read()?) }\<close>.\<close>

fun read_many :: "'a reader \<Rightarrow> nat \<Rightarrow> 'a list reader" where
  "read_many m 0 = return_action []"
| "read_many m (Suc n) =
     bind_action m (\<lambda>x. bind_action (read_many m n) (\<lambda>xs. return_action (x # xs)))"

definition read_array :: "machine \<Rightarrow> (u32 \<Rightarrow> gguf_value reader) \<Rightarrow> gguf_value list reader" where
  "read_array mc read_element =
     bind_action read_u32 (\<lambda>element_type.
     bind_action read_u64 (\<lambda>n.
     bind_action (allocate mc (unat n) (mc_value_size mc)) (\<lambda>_.
       read_many (read_element element_type) (unat n))))"

text \<open>The arms of \<open>read_value\<close> other than arrays.\<close>

definition read_scalar :: "machine \<Rightarrow> u32 \<Rightarrow> gguf_value reader" where
  "read_scalar mc t =
     (if t = 0 then bind_action read_u8 (\<lambda>v. return_action (Uint8 v))
      else if t = 1 then bind_action read_u8 (\<lambda>v. return_action (GInt8 v))
      else if t = 2 then bind_action read_u16 (\<lambda>v. return_action (Uint16 v))
      else if t = 3 then bind_action read_u16 (\<lambda>v. return_action (GInt16 v))
      else if t = 4 then bind_action read_u32 (\<lambda>v. return_action (Uint32 v))
      else if t = 5 then bind_action read_u32 (\<lambda>v. return_action (GInt32 v))
      else if t = 6 then bind_action read_u32 (\<lambda>v. return_action (Float32 v))
      else if t = 7 then bind_action read_u8 (\<lambda>v. return_action (GBool (v \<noteq> 0)))
      else if t = 8 then bind_action (read_string mc) (\<lambda>v. return_action (GString v))
      else if t = 10 then bind_action read_u64 (\<lambda>v. return_action (Uint64 v))
      else if t = 11 then bind_action read_u64 (\<lambda>v. return_action (GInt64 v))
      else if t = 12 then bind_action read_u64 (\<lambda>v. return_action (Float64 v))
      else fail_action (UnknownValueType t))"

text \<open>\<open>read_value\<close>, with the number of array frames left on the stack.\<close>

fun read_value :: "machine \<Rightarrow> nat \<Rightarrow> u32 \<Rightarrow> gguf_value reader" where
  "read_value mc 0 t =
     (if t = 9 then lift_outcome (Panic Stack_Overflow) else read_scalar mc t)"
| "read_value mc (Suc frames) t =
     (if t = 9 then bind_action (read_array mc (read_value mc frames)) (\<lambda>v. return_action (GArray v))
      else read_scalar mc t)"

definition read_kv_pair :: "machine \<Rightarrow> (u8 list \<times> gguf_value) reader" where
  "read_kv_pair mc =
     bind_action (read_string mc) (\<lambda>key.
     bind_action read_u32 (\<lambda>value_type.
     bind_action (read_value mc (mc_stack mc) value_type) (\<lambda>value.
       return_action (key, value))))"

definition dtype_from_id :: "u32 \<Rightarrow> (gguf_error, string) outcome" where
  "dtype_from_id t =
     (if t = 0 then Ok ''f32'' else if t = 1 then Ok ''f16''
      else if t = 2 then Ok ''q4_0'' else if t = 3 then Ok ''q4_1''
      else if t = 6 then Ok ''q5_0'' else if t = 7 then Ok ''q5_1''
      else if t = 8 then Ok ''q8_0'' else if t = 9 then Ok ''q8_1''
      else if t = 10 then Ok ''i8'' else if t = 11 then Ok ''i16'' else if t = 12 then Ok ''i32''
      else Err (UnknownTypeId t))"

definition read_tensor_info :: "machine \<Rightarrow> gguf_tensor reader" where
  "read_tensor_info mc =
     bind_action (read_string mc) (\<lambda>name.
     bind_action read_u32 (\<lambda>n_dims.
     bind_action (allocate mc (unat n_dims) 8) (\<lambda>_.
     bind_action (read_many read_u64 (unat n_dims)) (\<lambda>shape.
     bind_action read_u32 (\<lambda>type_id.
     bind_action read_u64 (\<lambda>offset.
     bind_action (lift_outcome (dtype_from_id type_id)) (\<lambda>dtype.
       return_action \<lparr>gt_name = name, gt_shape = shape, gt_dtype = dtype, gt_offset = offset\<rparr>)))))))"

definition insert_all :: "('k \<times> 'v) list \<Rightarrow> ('k, 'v) hash_map" where
  "insert_all kvs = foldl (\<lambda>m (k, v). hm_insert k v m) hm_new kvs"

definition read_model :: "machine \<Rightarrow> gguf_model reader" where
  "read_model mc =
     bind_action read_u32 (\<lambda>magic.
       if magic \<noteq> gguf_magic then fail_action InvalidMagic
       else
         bind_action read_u32 (\<lambda>version.
         bind_action read_u64 (\<lambda>tensor_count.
         bind_action read_u64 (\<lambda>metadata_kv_count.
         bind_action (read_many (read_kv_pair mc) (unat metadata_kv_count)) (\<lambda>kvs.
         bind_action (allocate mc (unat tensor_count) (mc_tensor_size mc)) (\<lambda>_.
         bind_action (read_many (read_tensor_info mc) (unat tensor_count)) (\<lambda>tensors.
           return_action \<lparr>gm_version = version, gm_metadata = insert_all kvs,
             gm_tensors = tensors\<rparr>)))))))"

definition parse :: "machine \<Rightarrow> u8 list \<Rightarrow> (gguf_error, gguf_model) outcome" where
  "parse mc file = fst (read_model mc file)"

section \<open>Queries\<close>

definition get_architecture :: "gguf_model \<Rightarrow> u8 list option" where
  "get_architecture m =
     Option.bind (hm_get (gm_metadata m) (ascii ''general.architecture'')) as_string"

definition get_parameter_count :: "gguf_model \<Rightarrow> u64 option" where
  "get_parameter_count m =
     Option.bind (hm_get (gm_metadata m) (ascii ''llama.block_count'')) as_u64"

definition get_context_length :: "gguf_model \<Rightarrow> u64 option" where
  "get_context_length m =
     Option.bind (hm_get (gm_metadata m) (ascii ''llama.context_length'')) as_u64"

definition dtype_bytes :: "string \<Rightarrow> u64 option" where
  "dtype_bytes dtype =
     (if dtype = ''f32'' then Some 4
      else if dtype = ''f16'' then Some 2
      else if dtype = ''q4_0'' \<or> dtype = ''q4_1'' then Some 1
      else if dtype = ''q5_0'' \<or> dtype = ''q5_1'' then Some 1
      else if dtype = ''q8_0'' \<or> dtype = ''q8_1'' then Some 1
      else if dtype = ''i8'' then Some 1
      else if dtype = ''i16'' then Some 2
      else if dtype = ''i32'' then Some 4
      else None)"

definition calculate_size :: "gguf_model \<Rightarrow> u64" where
  "calculate_size m =
     (\<Sum>t\<leftarrow>gm_tensors m. prod_list (gt_shape t) *
        (case dtype_bytes (gt_dtype t) of Some b \<Rightarrow> b | None \<Rightarrow> 4))"

section \<open>Framed readers\<close>

text \<open>
  What a reader took on success determines its result, whatever follows, and
  every strict prefix of it is a truncated file.
\<close>

definition framed :: "'a reader \<Rightarrow> bool" where
  "framed m \<longleftrightarrow>
     (\<forall>s v rest. m s = (Ok v, rest) \<longrightarrow>
        (\<exists>taken. s = taken @ rest \<and> (\<forall>rest'. m (taken @ rest') = (Ok v, rest')) \<and>
           (\<forall>p q. taken = p @ q \<longrightarrow> q \<noteq> [] \<longrightarrow> m p = (Err UnexpectedEof, []))))"

lemma framedI:
  assumes "\<And>s v rest. m s = (Ok v, rest) \<Longrightarrow>
    \<exists>taken. s = taken @ rest \<and> (\<forall>rest'. m (taken @ rest') = (Ok v, rest')) \<and>
      (\<forall>p q. taken = p @ q \<longrightarrow> q \<noteq> [] \<longrightarrow> m p = (Err UnexpectedEof, []))"
  shows "framed m"
  using assms unfolding framed_def by blast

lemma framedE:
  assumes "framed m" and "m s = (Ok v, rest)"
  obtains taken where "s = taken @ rest" "\<And>rest'. m (taken @ rest') = (Ok v, rest')"
    "\<And>p q. taken = p @ q \<Longrightarrow> q \<noteq> [] \<Longrightarrow> m p = (Err UnexpectedEof, [])"
  using assms unfolding framed_def by blast

lemma framed_return [simp]: "framed (return_action v)"
  by (auto simp: framed_def return_action_def)

lemma framed_lift [simp]: "framed (lift_outcome r)"
  by (auto simp: framed_def lift_outcome_def)

lemma framed_fail [simp]: "framed (fail_action e)"
  by (auto simp: framed_def fail_action_def)

lemma framed_allocate [simp]: "framed (allocate mc n sz)"
  by (simp add: allocate_def)

lemma framed_read_bytes [simp]: "framed (read_bytes n)"
proof (rule framedI)
  fix s v rest
  assume "read_bytes n s = (Ok v, rest)"
  then have n: "n \<le> length s" and v: "v = take n s" "rest = drop n s"
    by (auto simp: read_bytes_def split: if_splits)
  have "read_bytes n p = (Err UnexpectedEof, [])" if "take n s = p @ q" "q \<noteq> []" for p q
  proof -
    have "length (take n s) = length p + length q" by (simp only: that length_append)
    with n \<open>q \<noteq> []\<close> have "length p < n" by (cases q) auto
    then show ?thesis by (simp add: read_bytes_def)
  qed
  then show "\<exists>taken. s = taken @ rest \<and> (\<forall>rest'. read_bytes n (taken @ rest') = (Ok v, rest')) \<and>
      (\<forall>p q. taken = p @ q \<longrightarrow> q \<noteq> [] \<longrightarrow> read_bytes n p = (Err UnexpectedEof, []))"
    using n v by (intro exI [of _ "take n s"]) (auto simp: read_bytes_def)
qed

lemma framed_bind:
  assumes m: "framed m" and f: "\<And>v. framed (f v)"
  shows "framed (bind_action m f)"
proof (rule framedI)
  fix s w rest
  assume "bind_action m f s = (Ok w, rest)"
  then obtain v mid where one: "m s = (Ok v, mid)" and two: "f v mid = (Ok w, rest)"
    by (rule bind_action_OkE)
  obtain xs where xs: "s = xs @ mid" "\<And>r. m (xs @ r) = (Ok v, r)"
    "\<And>p q. xs = p @ q \<Longrightarrow> q \<noteq> [] \<Longrightarrow> m p = (Err UnexpectedEof, [])"
    using framedE [OF m one] by blast
  obtain ys where ys: "mid = ys @ rest" "\<And>r. f v (ys @ r) = (Ok w, r)"
    "\<And>p q. ys = p @ q \<Longrightarrow> q \<noteq> [] \<Longrightarrow> f v p = (Err UnexpectedEof, [])"
    using framedE [OF f two] by blast
  have "bind_action m f p = (Err UnexpectedEof, [])" if split: "xs @ ys = p @ q" "q \<noteq> []" for p q
  proof -
    from split(1) consider us where "xs = p @ us" "us @ ys = q" | us where "xs @ us = p" "ys = us @ q"
      by (auto simp: append_eq_append_conv2)
    then show ?thesis
    proof cases
      case 1
      show ?thesis
      proof (cases "us = []")
        case True
        with 1 have p: "p = xs @ []" and "ys = [] @ q" by simp_all
        with split(2) have "f v [] = (Err UnexpectedEof, [])" using ys(3) by blast
        then show ?thesis using xs(2) [of "[]"] p by simp
      next
        case False
        then show ?thesis using xs(3) 1 by simp
      qed
    next
      case 2
      then show ?thesis using xs(2) [of us] ys(3) split(2) by auto
    qed
  qed
  then show "\<exists>taken. s = taken @ rest \<and> (\<forall>rest'. bind_action m f (taken @ rest') = (Ok w, rest')) \<and>
      (\<forall>p q. taken = p @ q \<longrightarrow> q \<noteq> [] \<longrightarrow> bind_action m f p = (Err UnexpectedEof, []))"
    using xs ys by (intro exI [of _ "xs @ ys"]) auto
qed

lemma framed_if [intro]: "framed a \<Longrightarrow> framed b \<Longrightarrow> framed (if c then a else b)"
  by simp

lemma framed_read_uint [simp]: "framed (read_uint n :: 'a::len word reader)"
  by (simp add: read_uint_def framed_bind)

lemma framed_read_many: "framed m \<Longrightarrow> framed (read_many m n)"
  by (induction n) (auto intro!: framed_bind)

lemma framed_read_string [simp]: "framed (read_string mc)"
  unfolding read_string_def by (intro framed_bind framed_if) simp_all

lemma framed_read_scalar [simp]: "framed (read_scalar mc t)"
  unfolding read_scalar_def by (intro framed_if framed_bind) simp_all

lemma framed_read_value [simp]: "framed (read_value mc frames t)"
proof (induction frames arbitrary: t)
  case (Suc frames)
  then show ?case
    by (auto simp: read_array_def intro!: framed_bind framed_read_many)
qed simp

lemma framed_read_kv_pair [simp]: "framed (read_kv_pair mc)"
  unfolding read_kv_pair_def by (intro framed_bind) simp_all

lemma framed_read_tensor_info [simp]: "framed (read_tensor_info mc)"
  unfolding read_tensor_info_def by (intro framed_bind framed_read_many) simp_all

lemma framed_read_model: "framed (read_model mc)"
  unfolding read_model_def by (intro framed_bind framed_if framed_read_many) simp_all

section \<open>The encoder\<close>

fun type_id :: "gguf_value \<Rightarrow> u32" where
  "type_id (Uint8 _) = 0"
| "type_id (GInt8 _) = 1"
| "type_id (Uint16 _) = 2"
| "type_id (GInt16 _) = 3"
| "type_id (Uint32 _) = 4"
| "type_id (GInt32 _) = 5"
| "type_id (Float32 _) = 6"
| "type_id (GBool _) = 7"
| "type_id (GString _) = 8"
| "type_id (GArray _) = 9"
| "type_id (Uint64 _) = 10"
| "type_id (GInt64 _) = 11"
| "type_id (Float64 _) = 12"

definition element_type :: "gguf_value list \<Rightarrow> u32" where
  "element_type vs = (case vs of [] \<Rightarrow> 0 | v # _ \<Rightarrow> type_id v)"

definition encode_uint :: "nat \<Rightarrow> 'a::len word \<Rightarrow> u8 list" where
  "encode_uint n w = le_bytes n (unat w)"

definition encode_length :: "'a list \<Rightarrow> u8 list" where
  "encode_length xs = le_bytes 8 (length xs)"

definition encode_string :: "u8 list \<Rightarrow> u8 list" where
  "encode_string s = encode_length s @ s"

fun encode_value :: "gguf_value \<Rightarrow> u8 list" where
  "encode_value (Uint8 v) = encode_uint 1 v"
| "encode_value (GInt8 v) = encode_uint 1 v"
| "encode_value (Uint16 v) = encode_uint 2 v"
| "encode_value (GInt16 v) = encode_uint 2 v"
| "encode_value (Uint32 v) = encode_uint 4 v"
| "encode_value (GInt32 v) = encode_uint 4 v"
| "encode_value (Float32 v) = encode_uint 4 v"
| "encode_value (GBool v) = [if v then 1 else 0]"
| "encode_value (GString v) = encode_string v"
| "encode_value (GArray vs) =
     encode_uint 4 (element_type vs) @ encode_length vs @ concat (map encode_value vs)"
| "encode_value (Uint64 v) = encode_uint 8 v"
| "encode_value (GInt64 v) = encode_uint 8 v"
| "encode_value (Float64 v) = encode_uint 8 v"

definition encode_kv :: "u8 list \<times> gguf_value \<Rightarrow> u8 list" where
  "encode_kv kv = encode_string (fst kv) @ encode_uint 4 (type_id (snd kv)) @ encode_value (snd kv)"

definition dtype_id :: "string \<Rightarrow> u32" where
  "dtype_id d =
     (if d = ''f32'' then 0 else if d = ''f16'' then 1 else if d = ''q4_0'' then 2
      else if d = ''q4_1'' then 3 else if d = ''q5_0'' then 6 else if d = ''q5_1'' then 7
      else if d = ''q8_0'' then 8 else if d = ''q8_1'' then 9 else if d = ''i8'' then 10
      else if d = ''i16'' then 11 else 12)"

definition encode_tensor :: "gguf_tensor \<Rightarrow> u8 list" where
  "encode_tensor t = encode_string (gt_name t) @ le_bytes 4 (length (gt_shape t)) @
     concat (map (encode_uint 8) (gt_shape t)) @ encode_uint 4 (dtype_id (gt_dtype t)) @
     encode_uint 8 (gt_offset t)"

definition encode_model :: "gguf_model \<Rightarrow> u8 list" where
  "encode_model m = encode_uint 4 gguf_magic @ encode_uint 4 (gm_version m) @
     encode_length (gm_tensors m) @ encode_length (gm_metadata m) @
     concat (map encode_kv (gm_metadata m)) @ concat (map encode_tensor (gm_tensors m))"

text \<open>The models a file can hold for a given machine.\<close>

definition fits_length :: "machine \<Rightarrow> 'a list \<Rightarrow> nat \<Rightarrow> bool" where
  "fits_length mc xs sz \<longleftrightarrow> length xs < 2 ^ 64 \<and> length xs * sz \<le> mc_alloc_limit mc"

definition fits_string :: "machine \<Rightarrow> u8 list \<Rightarrow> bool" where
  "fits_string mc s \<longleftrightarrow> utf8_valid s \<and> fits_length mc s 1"

fun fits_value :: "machine \<Rightarrow> nat \<Rightarrow> gguf_value \<Rightarrow> bool" where
  "fits_value mc frames (GString s) = fits_string mc s"
| "fits_value mc frames (GArray vs) =
     (0 < frames \<and> fits_length mc vs (mc_value_size mc) \<and>
      (\<forall>v \<in> set vs. type_id v = element_type vs \<and> fits_value mc (frames - 1) v))"
| "fits_value mc frames v = True"

definition fits_tensor :: "machine \<Rightarrow> gguf_tensor \<Rightarrow> bool" where
  "fits_tensor mc t \<longleftrightarrow> fits_string mc (gt_name t) \<and> length (gt_shape t) < 2 ^ 32 \<and>
     fits_length mc (gt_shape t) 8 \<and> dtype_bytes (gt_dtype t) \<noteq> None"

definition fits_model :: "machine \<Rightarrow> gguf_model \<Rightarrow> bool" where
  "fits_model mc m \<longleftrightarrow> hm_ok (gm_metadata m) \<and> length (gm_metadata m) < 2 ^ 64 \<and>
     (\<forall>(k, v) \<in> set (gm_metadata m). fits_string mc k \<and> fits_value mc (mc_stack mc) v) \<and>
     fits_length mc (gm_tensors m) (mc_tensor_size mc) \<and> (\<forall>t \<in> set (gm_tensors m). fits_tensor mc t)"

section \<open>Reading back what was encoded\<close>

lemma read_uint_encoded:
  assumes "LENGTH('a) \<le> 8 * n"
  shows "read_uint n (encode_uint n (w :: 'a::len word) @ rest) = (Ok w, rest)"
proof -
  have "unat w < 2 ^ (8 * n)"
    using unat_bound [of w] assms by (meson less_le_trans one_le_numeral power_increasing)
  then have "unat w < 256 ^ n" by (simp add: power_mult)
  then show ?thesis
    by (simp add: read_uint_def encode_uint_def read_bytes_def bind_action_def return_action_def le_nat_bytes)
qed

lemma read_uint_encoded_simps [simp]:
  "read_u8 (encode_uint 1 v8 @ rest) = (Ok v8, rest)"
  "read_u16 (encode_uint 2 v16 @ rest) = (Ok v16, rest)"
  "read_u32 (encode_uint 4 v32 @ rest) = (Ok v32, rest)"
  "read_u64 (encode_uint 8 v64 @ rest) = (Ok v64, rest)"
  by (rule read_uint_encoded; simp)+

lemma read_encoded_length [simp]:
  assumes "length xs < 2 ^ 64"
  shows "read_u64 (encode_length xs @ rest) = (Ok (word_of_nat (length xs)), rest)"
    and "unat (word_of_nat (length xs) :: u64) = length xs"
proof -
  show u: "unat (word_of_nat (length xs) :: u64) = length xs"
    using assms by (intro unat_of_nat_exact) simp
  have "encode_length xs = encode_uint 8 (word_of_nat (length xs) :: u64)"
    unfolding encode_length_def encode_uint_def u by (rule refl)
  then show "read_u64 (encode_length xs @ rest) = (Ok (word_of_nat (length xs)), rest)"
    by simp
qed

lemma read_encoded_string:
  "fits_string mc s \<Longrightarrow> read_string mc (encode_string s @ rest) = (Ok s, rest)"
  by (simp add: read_string_def encode_string_def fits_string_def fits_length_def allocate_def
      read_bytes_def return_action_def)

lemma read_encoded_many:
  assumes "\<And>x rest. x \<in> set xs \<Longrightarrow> m (enc x @ rest) = (Ok x, rest)"
  shows "read_many m (length xs) (concat (map enc xs) @ rest) = (Ok xs, rest)"
  using assms by (induction xs) (auto simp: return_action_def)

lemma read_u8_Cons [simp]: "read_uint (Suc 0) (b # rest) = (Ok (b :: u8), rest)"
  by (simp add: read_uint_def read_bytes_def bind_action_def return_action_def)

lemma read_encoded_value:
  "fits_value mc frames v \<Longrightarrow> read_value mc frames (type_id v) (encode_value v @ rest) = (Ok v, rest)"
proof (induction v arbitrary: frames rest)
  case (GArray vs)
  obtain f where f: "frames = Suc f" using GArray.prems by (cases frames) auto
  have "read_many (read_value mc f (element_type vs)) (length vs) (concat (map encode_value vs) @ rest)
      = (Ok vs, rest)"
  proof (rule read_encoded_many)
    fix v rest assume v: "v \<in> set vs"
    with GArray.prems have "type_id v = element_type vs" "fits_value mc f v" by (auto simp: f)
    with GArray.IH [OF v] show "read_value mc f (element_type vs) (encode_value v @ rest) = (Ok v, rest)"
      by metis
  qed
  then show ?case
    using GArray.prems by (simp add: f read_array_def fits_length_def allocate_def return_action_def)
next
  case (GBool v)
  then show ?case
    by (cases frames) (simp_all add: read_scalar_def return_action_def)
next
  case (GString s)
  then show ?case
    by (cases frames) (simp_all add: read_scalar_def read_encoded_string return_action_def)
qed (case_tac [!] frames, simp_all add: read_scalar_def return_action_def del: One_nat_def)

lemma read_encoded_kv:
  "fits_string mc (fst kv) \<Longrightarrow> fits_value mc (mc_stack mc) (snd kv) \<Longrightarrow>
   read_kv_pair mc (encode_kv kv @ rest) = (Ok kv, rest)"
  by (simp add: read_kv_pair_def encode_kv_def read_encoded_string read_encoded_value return_action_def)

lemma dtype_roundtrip: "dtype_bytes d \<noteq> None \<Longrightarrow> dtype_from_id (dtype_id d) = Ok d"
  by (auto simp: dtype_bytes_def dtype_from_id_def dtype_id_def split: if_splits)

lemma read_encoded_tensor:
  assumes "fits_tensor mc t"
  shows "read_tensor_info mc (encode_tensor t @ rest) = (Ok t, rest)"
proof -
  have shape: "length (gt_shape t) < 2 ^ 32" using assms by (simp add: fits_tensor_def)
  then have u: "unat (word_of_nat (length (gt_shape t)) :: u32) = length (gt_shape t)"
    by (intro unat_of_nat_exact) simp
  have "le_bytes 4 (length (gt_shape t)) = encode_uint 4 (word_of_nat (length (gt_shape t)) :: u32)"
    unfolding encode_uint_def u by (rule refl)
  moreover have "read_many read_u64 (length (gt_shape t)) (concat (map (encode_uint 8) (gt_shape t)) @ more)
      = (Ok (gt_shape t), more)" for more
    by (rule read_encoded_many) simp
  ultimately show ?thesis
    using assms u by (simp add: read_tensor_info_def encode_tensor_def fits_tensor_def fits_length_def
        read_encoded_string allocate_def dtype_roundtrip return_action_def)
qed

lemma insert_all_distinct:
  assumes "hm_ok kvs"
  shows "insert_all kvs = kvs"
proof -
  have "foldl (\<lambda>m (k, v). hm_insert k v m) m kvs = m @ kvs" if "distinct (map fst (m @ kvs))" for m
    using that
  proof (induction kvs arbitrary: m)
    case (Cons kv kvs)
    obtain k v where kv: "kv = (k, v)" by force
    then have "hm_get m k = None" using Cons.prems by (auto simp: hm_get_keys hm_keys_def)
    then have "hm_insert k v m = m @ [(k, v)]" by (rule hm_insert_absent)
    with Cons show ?case by (simp add: kv)
  qed simp
  from this [of "[]"] assms show ?thesis
    by (simp add: insert_all_def hm_ok_def hm_new_def)
qed

lemma read_encoded_model:
  assumes "fits_model mc m"
  shows "read_model mc (encode_model m @ rest) = (Ok m, rest)"
proof -
  have kvs: "read_many (read_kv_pair mc) (length (gm_metadata m))
      (concat (map encode_kv (gm_metadata m)) @ more) = (Ok (gm_metadata m), more)" for more
    by (rule read_encoded_many)
      (use assms in \<open>auto simp: fits_model_def intro!: read_encoded_kv dest!: bspec\<close>)
  have tensors: "read_many (read_tensor_info mc) (length (gm_tensors m))
      (concat (map encode_tensor (gm_tensors m)) @ more) = (Ok (gm_tensors m), more)" for more
    by (rule read_encoded_many) (use assms in \<open>auto simp: fits_model_def intro: read_encoded_tensor\<close>)
  show ?thesis
    using assms kvs tensors insert_all_distinct [of "gm_metadata m"]
    by (simp add: read_model_def encode_model_def fits_model_def fits_length_def allocate_def return_action_def)
qed

section \<open>Properties of the parser\<close>

definition sample_machine :: machine where
  "sample_machine = \<lparr>mc_alloc_limit = 2 ^ 63 - 1, mc_value_size = 32, mc_tensor_size = 80, mc_stack = 10000\<rparr>"

definition sample_model :: gguf_model where
  "sample_model = \<lparr>gm_version = 3,
     gm_metadata = [(ascii ''general.architecture'', GString (ascii ''llama'')),
       (ascii ''llama.block_count'', Uint32 80),
       (ascii ''tokens'', GArray [GString (ascii ''a''), GString [0xC3, 0xA9]])],
     gm_tensors = [\<lparr>gt_name = ascii ''output.weight'', gt_shape = [4096, 32000], gt_dtype = ''f16'',
       gt_offset = 0\<rparr>]\<rparr>"

lemma sample_model_fits: "fits_model sample_machine sample_model"
proof -
  have "utf8_valid [0xC3, 0xA9]"
    by (simp add: utf8_valid.simps [of "[0xC3, 0xA9]"] utf8_step_def utf8_chunk_def byte_at_def continuation_def)
  moreover have "\<forall>b \<in> set (ascii s). b < 0x80 \<Longrightarrow> utf8_valid (ascii s)" for s
    by (rule utf8_valid_ascii)
  ultimately show ?thesis
    by (simp add: fits_model_def sample_model_def sample_machine_def hm_ok_def fits_string_def
        fits_length_def fits_tensor_def ascii_def element_type_def dtype_bytes_def utf8_valid_ascii)
qed

text \<open>
  C3.  Round trip: every model the machine can hold (well-formed strings,
  homogeneous arrays nested no deeper than the stack, known tensor types)
  is read back exactly from its encoding, whatever bytes follow it.
\<close>

theorem parse_encoded_model:
  assumes "fits_model mc m"
  shows "parse mc (encode_model m @ rest) = Ok m"
  using read_encoded_model [OF assms] by (simp add: parse_def)

theorem parse_encoded_model_witness:
  "parse sample_machine (encode_model sample_model @ [1, 2, 3]) = Ok sample_model"
  by (rule parse_encoded_model [OF sample_model_fits])

text \<open>
  C30.  Truncation is always detected: whenever a file parses, the bytes that
  were read determine the model whatever follows them, and the file cut
  anywhere inside those bytes is refused with \<open>UnexpectedEof\<close>, never read as
  another model and never a panic.
\<close>

theorem truncated_file_refused:
  assumes "parse mc file = Ok m"
  shows "\<exists>taken rest. file = taken @ rest \<and> (\<forall>rest'. parse mc (taken @ rest') = Ok m) \<and>
    (\<forall>n < length taken. parse mc (take n file) = Err UnexpectedEof)"
proof -
  obtain rest where "read_model mc file = (Ok m, rest)"
    using assms by (cases "read_model mc file") (simp add: parse_def)
  from framedE [OF framed_read_model this] obtain taken where taken: "file = taken @ rest"
    "\<And>rest'. read_model mc (taken @ rest') = (Ok m, rest')"
    "\<And>p q. taken = p @ q \<Longrightarrow> q \<noteq> [] \<Longrightarrow> read_model mc p = (Err UnexpectedEof, [])"
    by blast
  have "parse mc (take n file) = Err UnexpectedEof" if "n < length taken" for n
    using taken(3) [of "take n taken" "drop n taken"] that by (simp add: parse_def taken(1))
  then show ?thesis
    using taken(1,2) by (auto simp: parse_def)
qed

theorem truncated_file_refused_witness:
  "\<exists>taken rest. encode_model sample_model = taken @ rest \<and>
    (\<forall>rest'. parse sample_machine (taken @ rest') = Ok sample_model) \<and>
    (\<forall>n < length taken. parse sample_machine (take n (encode_model sample_model)) = Err UnexpectedEof)"
proof -
  have "parse sample_machine (encode_model sample_model) = Ok sample_model"
    using read_encoded_model [OF sample_model_fits, of "[]"] by (simp add: parse_def)
  then show ?thesis by (rule truncated_file_refused)
qed

text \<open>What the dtypes of a parsed model can be.\<close>

lemma read_many_all:
  assumes "\<forall>s v rest. m s = (Ok v, rest) \<longrightarrow> P v" and "read_many m n s = (Ok xs, rest)"
  shows "\<forall>x \<in> set xs. P x"
  using assms(2)
proof (induction n arbitrary: s xs rest)
  case (Suc n)
  from Suc.prems obtain x t ys where "m s = (Ok x, t)" "read_many m n t = (Ok ys, rest)" "xs = x # ys"
    by (auto elim!: bind_action_OkE)
  moreover from this have "P x" using assms(1) by blast
  ultimately show ?case using Suc.IH by simp
qed simp

lemma dtype_from_id_known: "dtype_from_id t = Ok d \<Longrightarrow> dtype_bytes d \<noteq> None"
  by (auto simp: dtype_from_id_def dtype_bytes_def split: if_splits)

lemma read_tensor_known: "read_tensor_info mc s = (Ok t, rest) \<Longrightarrow> dtype_bytes (gt_dtype t) \<noteq> None"
  unfolding read_tensor_info_def by (auto elim!: bind_action_OkE dest: dtype_from_id_known [OF sym])

lemma parsed_tensors_known:
  assumes "parse mc file = Ok m"
  shows "\<forall>t \<in> set (gm_tensors m). dtype_bytes (gt_dtype t) \<noteq> None"
proof -
  obtain rest where "read_model mc file = (Ok m, rest)"
    using assms by (cases "read_model mc file") (simp add: parse_def)
  then obtain n s s' where "read_many (read_tensor_info mc) n s = (Ok (gm_tensors m), s')"
    unfolding read_model_def by (auto elim!: bind_action_OkE split: if_splits)
  then show ?thesis
    by (rule read_many_all [rotated]) (intro allI impI read_tensor_known)
qed

definition tensor_bytes :: "gguf_tensor \<Rightarrow> nat" where
  "tensor_bytes t = prod_list (map unat (gt_shape t)) * unat (the (dtype_bytes (gt_dtype t)))"

lemma word_prod_list: "(prod_list ws :: 'a::len word) = word_of_nat (prod_list (map unat ws))"
  by (induction ws) simp_all

lemma calculate_size_sum:
  "\<forall>t \<in> set ts. dtype_bytes (gt_dtype t) \<noteq> None \<Longrightarrow>
   (\<Sum>t\<leftarrow>ts. prod_list (gt_shape t) * (case dtype_bytes (gt_dtype t) of Some b \<Rightarrow> b | None \<Rightarrow> 4))
     = word_of_nat (\<Sum>t\<leftarrow>ts. tensor_bytes t)"
  by (induction ts) (auto simp: tensor_bytes_def word_prod_list)

text \<open>
  The size of a parsed model: every tensor type a file can carry has a
  known width, so the fallback of 4 bytes is never used, and the computed size
  is the sum over the tensors of the product of the dimensions times the
  width, modulo \<open>2 ^ 64\<close> (exact when that sum is below it).
\<close>

theorem size_of_parsed_model:
  assumes "parse mc file = Ok m"
  shows "(\<forall>t \<in> set (gm_tensors m). dtype_bytes (gt_dtype t) \<noteq> None) \<and>
    unat (calculate_size m) = (\<Sum>t\<leftarrow>gm_tensors m. tensor_bytes t) mod 2 ^ 64"
  using parsed_tensors_known [OF assms] calculate_size_sum [of "gm_tensors m"]
  by (simp add: calculate_size_def unsigned_of_nat take_bit_nat_def)

theorem size_of_parsed_model_witness:
  "unat (calculate_size sample_model) = 262144000"
proof -
  have "parse sample_machine (encode_model sample_model) = Ok sample_model"
    using read_encoded_model [OF sample_model_fits, of "[]"] by (simp add: parse_def)
  from size_of_parsed_model [OF this] show ?thesis
    by (simp add: sample_model_def tensor_bytes_def dtype_bytes_def)
qed

text \<open>A file of one metadata entry with an empty key: arrays in arrays.\<close>

fun nested_arrays :: "nat \<Rightarrow> u8 list" where
  "nested_arrays 0 = []"
| "nested_arrays (Suc n) = encode_uint 4 (9 :: u32) @ encode_uint 8 (1 :: u64) @ nested_arrays n"

definition deep_file :: "nat \<Rightarrow> u8 list" where
  "deep_file n = encode_uint 4 gguf_magic @ encode_uint 4 (3 :: u32) @ encode_uint 8 (0 :: u64) @
     encode_uint 8 (1 :: u64) @ encode_uint 8 (0 :: u64) @ encode_uint 4 (9 :: u32) @ nested_arrays n"

definition huge_key_file :: "u8 list" where
  "huge_key_file = encode_uint 4 gguf_magic @ encode_uint 4 (3 :: u32) @ encode_uint 8 (0 :: u64) @
     encode_uint 8 (1 :: u64) @ encode_uint 8 (- 1 :: u64)"

lemma nested_arrays_length: "length (nested_arrays n) = 12 * n"
  by (induction n) (simp_all add: encode_uint_def)

lemma nested_arrays_overflow:
  "mc_value_size mc \<le> mc_alloc_limit mc \<Longrightarrow>
   \<exists>rest. read_value mc n 9 (nested_arrays n) = (Panic Stack_Overflow, rest)"
proof (induction n)
  case (Suc n)
  then obtain rest where "read_value mc n 9 (nested_arrays n) = (Panic Stack_Overflow, rest)" by blast
  with Suc.prems show ?case
    by (simp add: read_array_def allocate_def)
qed (simp add: lift_outcome_def)

text \<open>
  Crafted files end the process: for any stack depth there is a file of
  36 bytes plus 12 per stack frame whose nested arrays overflow the stack, and,
  for any allocator, a file of 32 bytes whose key length makes the vector
  allocation panic; neither is refused with an error.
\<close>

theorem crafted_files_panic:
  assumes "mc_value_size mc \<le> mc_alloc_limit mc" and "mc_alloc_limit mc < 2 ^ 64 - 1"
  shows "length (deep_file (mc_stack mc)) = 36 + 12 * mc_stack mc \<and>
    parse mc (deep_file (mc_stack mc)) = Panic Stack_Overflow \<and>
    length huge_key_file = 32 \<and> parse mc huge_key_file = Panic Capacity_Overflow"
proof -
  obtain rest where "read_value mc (mc_stack mc) 9 (nested_arrays (mc_stack mc)) = (Panic Stack_Overflow, rest)"
    using nested_arrays_overflow [OF assms(1)] by blast
  then have "parse mc (deep_file (mc_stack mc)) = Panic Stack_Overflow"
    by (simp add: parse_def deep_file_def read_model_def read_kv_pair_def read_string_def allocate_def
        read_bytes_def return_action_def)
  moreover have "unat (- 1 :: u64) = 2 ^ 64 - 1"
    by (simp add: unsigned_minus_1_eq_mask mask_eq_exp_minus_1)
  then have "\<not> unat (- 1 :: u64) \<le> mc_alloc_limit mc" using assms(2) by simp
  then have "parse mc huge_key_file = Panic Capacity_Overflow"
    using read_uint_encoded_simps(4) [of "- 1" "[]"]
    by (simp add: parse_def huge_key_file_def read_model_def read_kv_pair_def read_string_def allocate_def
        del: unsigned_minus_1_eq_mask)
  ultimately show ?thesis
    by (simp add: deep_file_def huge_key_file_def nested_arrays_length encode_uint_def)
qed

theorem crafted_files_panic_witness:
  "parse sample_machine (deep_file 10000) = Panic Stack_Overflow"
  using crafted_files_panic [of sample_machine] by (simp add: sample_machine_def)

end
