(* ===== verification/Model_Registry.thy ===== *)
theory Model_Registry
  imports Pairing Gguf "HOL-Library.Sublist"
begin

text \<open>
  The model registry, \<open>services/model-registry/src/lib.rs\<close>: models parsed from
  GGUF files (\<open>Gguf\<close>), copied into a content-addressed cache, and the nodes
  that hold a copy.

  A method that touches files is an action on the registry and a file system:
  files with their contents and existing directories, paths being strings
  joined as \<open>PathBuf::join\<close> does.  SHA-256 and hexadecimal are the fields of
  \<open>crypto\<close>.
\<close>

section \<open>Paths and files\<close>

type_synonym path = string

definition path_join :: "path \<Rightarrow> path \<Rightarrow> path" where
  "path_join base p =
     (if p \<noteq> [] \<and> hd p = CHR ''/'' then p
      else if base = [] \<or> last base = CHR ''/'' then base @ p
      else base @ CHR ''/'' # p)"

text \<open>The directory of a path that has a slash.\<close>

definition path_parent :: "path \<Rightarrow> path" where
  "path_parent p =
     (let q = rev (tl (dropWhile (\<lambda>c. c \<noteq> CHR ''/'') (rev p)))
      in if q = [] \<and> p \<noteq> [] \<and> hd p = CHR ''/'' then ''/'' else q)"

record file_system =
  fs_files :: "(path, u8 list) hash_map"
  fs_dirs :: "path list"

datatype io_error = Io_Not_Found

definition path_exists :: "path \<Rightarrow> file_system \<Rightarrow> bool" where
  "path_exists p fs \<longleftrightarrow> hm_get (fs_files fs) p \<noteq> None \<or> p \<in> set (fs_dirs fs)"

definition fs_read :: "path \<Rightarrow> file_system \<Rightarrow> (io_error, u8 list) outcome" where
  "fs_read p fs = ok_or Io_Not_Found (hm_get (fs_files fs) p)"

text \<open>\<open>std::fs::copy\<close>: the directory of the destination has to exist.\<close>

definition fs_copy :: "path \<Rightarrow> path \<Rightarrow> (file_system, io_error, unit) action" where
  "fs_copy src dst fs =
     (case hm_get (fs_files fs) src of
        None \<Rightarrow> (Err Io_Not_Found, fs)
      | Some content \<Rightarrow>
          if path_parent dst \<in> set (fs_dirs fs)
          then (Ok (), fs\<lparr>fs_files := hm_insert dst content (fs_files fs)\<rparr>)
          else (Err Io_Not_Found, fs))"

text \<open>\<open>create_dir_all\<close> makes a path and its ancestors, unless one of them is a file.\<close>

definition path_ancestors :: "path \<Rightarrow> path list" where
  "path_ancestors p = p # [take i p. i \<leftarrow> [1..<length p], p ! i = CHR ''/'']"

definition fs_create_dir_all :: "path \<Rightarrow> file_system \<Rightarrow> file_system" where
  "fs_create_dir_all p fs =
     (if list_ex (\<lambda>q. hm_get (fs_files fs) q \<noteq> None) (path_ancestors p) then fs
      else fs\<lparr>fs_dirs := path_ancestors p @ fs_dirs fs\<rparr>)"

text \<open>\<open>&s[..n]\<close> on a string: the cut has to fall between characters.\<close>

definition str_slice_to :: "nat \<Rightarrow> string \<Rightarrow> ('e, string) outcome" where
  "str_slice_to n s =
     (if n = length s \<or> (n < length s \<and> \<not> continuation (ascii s ! n)) then Ok (take n s)
      else Panic Slice_Out_Of_Range)"

definition text_of_bytes :: "u8 list \<Rightarrow> string" where
  "text_of_bytes bs = map (\<lambda>b. char_of (unat b)) bs"

text \<open>\<open>s.split(c).last()\<close>: what follows the last separator.\<close>

definition last_segment :: "char \<Rightarrow> string \<Rightarrow> string" where
  "last_segment c s = rev (takeWhile (\<lambda>d. d \<noteq> c) (rev s))"

section \<open>State\<close>

record registry_model =
  mm_model_id :: model_id
  mm_name :: string
  mm_architecture :: string
  mm_parameter_count :: u64
  mm_context_length :: u64
  mm_quantization :: string
  mm_file_size_bytes :: u64
  mm_checksum :: string
  mm_file_path :: path
  mm_cached_nodes :: "node_id list"
  mm_registered_at :: datetime
  mm_last_accessed :: datetime

record model_registry =
  mr_models :: "(model_id, registry_model) hash_map"
  mr_cache_dir :: path

datatype registry_error =
    Registry_Io io_error
  | Registry_Parse gguf_error
  | Model_Not_Found model_id

record registry_stats =
  gs_total_models :: nat
  gs_total_size_bytes :: u64
  gs_total_cache_nodes :: nat

section \<open>Operations\<close>

definition registry_new :: "path \<Rightarrow> file_system \<Rightarrow> model_registry \<times> file_system" where
  "registry_new cache_dir fs =
     (\<lparr>mr_models = hm_new, mr_cache_dir = cache_dir\<rparr>, fs_create_dir_all cache_dir fs)"

fun map_error :: "('e \<Rightarrow> 'f) \<Rightarrow> ('e, 'a) outcome \<Rightarrow> ('f, 'a) outcome" where
  "map_error f (Ok a) = Ok a"
| "map_error f (Err e) = Err (f e)"
| "map_error f (Panic p) = Panic p"

definition cache_path :: "model_registry \<Rightarrow> string \<Rightarrow> (registry_error, path) outcome" where
  "cache_path reg checksum =
     bind_outcome (str_slice_to 2 checksum) (\<lambda>prefix.
       Ok (path_join (path_join (mr_cache_dir reg) prefix) checksum))"

definition calculate_checksum :: "'k crypto \<Rightarrow> u8 list \<Rightarrow> string" where
  "calculate_checksum cr content = cr_hex cr (cr_sha256 cr content)"

text \<open>What \<open>register_model\<close> computes before it touches the cache.\<close>

definition describe_model ::
  "'k crypto \<Rightarrow> machine \<Rightarrow> datetime \<Rightarrow> datetime \<Rightarrow> path \<Rightarrow> string \<Rightarrow> model_registry \<Rightarrow> file_system \<Rightarrow>
   (registry_error, registry_model) outcome" where
  "describe_model cr mc registered accessed file_path name reg fs =
     bind_outcome (map_error Registry_Io (fs_read file_path fs)) (\<lambda>content.
     bind_outcome (map_error Registry_Parse (parse mc content)) (\<lambda>model.
       let architecture = (case get_architecture model of None \<Rightarrow> ''unknown'' | Some a \<Rightarrow> text_of_bytes a);
           parameter_count = (case get_parameter_count model of None \<Rightarrow> 0 | Some n \<Rightarrow> n);
           context_length = (case get_context_length model of None \<Rightarrow> 2048 | Some n \<Rightarrow> n);
           checksum = calculate_checksum cr content
       in bind_outcome (str_slice_to 16 checksum) (\<lambda>short.
          bind_outcome (cache_path reg checksum) (\<lambda>cached_path.
            Ok \<lparr>mm_model_id = architecture @ ''-'' @ short, mm_name = name,
               mm_architecture = architecture, mm_parameter_count = parameter_count,
               mm_context_length = context_length, mm_quantization = ''q4_k_m'',
               mm_file_size_bytes = word_of_nat (length content), mm_checksum = checksum,
               mm_file_path = cached_path, mm_cached_nodes = [],
               mm_registered_at = registered, mm_last_accessed = accessed\<rparr>))))"

definition register_model ::
  "'k crypto \<Rightarrow> machine \<Rightarrow> datetime \<Rightarrow> datetime \<Rightarrow> path \<Rightarrow> string \<Rightarrow>
   (model_registry \<times> file_system, registry_error, registry_model) action" where
  "register_model cr mc registered accessed file_path name = (\<lambda>(reg, fs).
     case describe_model cr mc registered accessed file_path name reg fs of
       Panic p \<Rightarrow> (Panic p, (reg, fs))
     | Err e \<Rightarrow> (Err e, (reg, fs))
     | Ok metadata \<Rightarrow>
         let (copied, fs) =
           (if path_exists (mm_file_path metadata) fs then (Ok (), fs)
            else fs_copy file_path (mm_file_path metadata) fs)
         in case copied of
              Panic p \<Rightarrow> (Panic p, (reg, fs))
            | Err e \<Rightarrow> (Err (Registry_Io e), (reg, fs))
            | Ok _ \<Rightarrow>
                (Ok metadata,
                 (reg\<lparr>mr_models := hm_insert (mm_model_id metadata) metadata (mr_models reg)\<rparr>, fs)))"

definition get_model :: "datetime \<Rightarrow> model_id \<Rightarrow> model_registry \<Rightarrow> registry_model option \<times> model_registry" where
  "get_model now model_id reg =
     (let models = hm_modify model_id (\<lambda>m. m\<lparr>mm_last_accessed := now\<rparr>) (mr_models reg)
      in (hm_get models model_id, reg\<lparr>mr_models := models\<rparr>))"

definition list_models :: "model_registry \<Rightarrow> registry_model list" where
  "list_models reg = hm_values (mr_models reg)"

definition mark_cached :: "model_id \<Rightarrow> node_id \<Rightarrow> (model_registry, registry_error, unit) action" where
  "mark_cached model_id node_id reg =
     (case hm_get (mr_models reg) model_id of
        None \<Rightarrow> (Err (Model_Not_Found model_id), reg)
      | Some _ \<Rightarrow>
          (Ok (), reg\<lparr>mr_models := hm_modify model_id
             (\<lambda>m. if node_id \<in> set (mm_cached_nodes m) then m
                   else m\<lparr>mm_cached_nodes := mm_cached_nodes m @ [node_id]\<rparr>) (mr_models reg)\<rparr>))"

definition unmark_cached :: "model_id \<Rightarrow> node_id \<Rightarrow> (model_registry, registry_error, unit) action" where
  "unmark_cached model_id node_id reg =
     (case hm_get (mr_models reg) model_id of
        None \<Rightarrow> (Err (Model_Not_Found model_id), reg)
      | Some _ \<Rightarrow>
          (Ok (), reg\<lparr>mr_models := hm_modify model_id
             (\<lambda>m. m\<lparr>mm_cached_nodes := filter (\<lambda>n. n \<noteq> node_id) (mm_cached_nodes m)\<rparr>) (mr_models reg)\<rparr>))"

text \<open>\<open>split\<close> always yields a segment, so the option is never \<open>None\<close>.\<close>

definition get_cached_path :: "model_id \<Rightarrow> model_registry \<Rightarrow> (registry_error, path option) outcome" where
  "get_cached_path model_id reg =
     bind_outcome (cache_path reg (last_segment (CHR ''-'') model_id)) (\<lambda>p. Ok (Some p))"

definition is_cached_on_node :: "model_id \<Rightarrow> node_id \<Rightarrow> model_registry \<Rightarrow> bool" where
  "is_cached_on_node model_id node_id reg =
     (case hm_get (mr_models reg) model_id of None \<Rightarrow> False | Some m \<Rightarrow> node_id \<in> set (mm_cached_nodes m))"

definition get_models_on_node :: "node_id \<Rightarrow> model_registry \<Rightarrow> registry_model list" where
  "get_models_on_node node_id reg = filter (\<lambda>m. node_id \<in> set (mm_cached_nodes m)) (hm_values (mr_models reg))"

text \<open>The result of removing the cached file is only logged.\<close>

definition unregister_model ::
  "model_id \<Rightarrow> (model_registry \<times> file_system, registry_error, unit) action" where
  "unregister_model model_id = (\<lambda>(reg, fs).
     case hm_get (mr_models reg) model_id of
       None \<Rightarrow> (Err (Model_Not_Found model_id), (reg, fs))
     | Some metadata \<Rightarrow>
         (Ok (), (reg\<lparr>mr_models := hm_remove model_id (mr_models reg)\<rparr>,
            fs\<lparr>fs_files := hm_remove (mm_file_path metadata) (fs_files fs)\<rparr>)))"

definition registry_get_stats :: "model_registry \<Rightarrow> registry_stats" where
  "registry_get_stats reg = \<lparr>
     gs_total_models = hm_len (mr_models reg),
     gs_total_size_bytes = (\<Sum>m\<leftarrow>hm_values (mr_models reg). mm_file_size_bytes m),
     gs_total_cache_nodes = (\<Sum>m\<leftarrow>hm_values (mr_models reg). length (mm_cached_nodes m))\<rparr>"

section \<open>Lemmas on paths\<close>

text \<open>What is used of the digest: 32 bytes, written as 64 plain characters.\<close>

definition digest_text :: "'k crypto \<Rightarrow> bool" where
  "digest_text cr \<longleftrightarrow> (\<forall>bs. length (cr_sha256 cr bs) = 32 \<and> length (cr_hex cr bs) = 2 * length bs \<and>
     (\<forall>c \<in> set (cr_hex cr bs). of_char c < (128 :: nat) \<and> c \<noteq> CHR ''/'' \<and> c \<noteq> CHR ''-''))"

definition plain_dir :: "path \<Rightarrow> bool" where
  "plain_dir d \<longleftrightarrow> d \<noteq> [] \<and> last d \<noteq> CHR ''/''"

lemma str_slice_to_ascii:
  assumes "n \<le> length s" and "\<forall>c \<in> set s. of_char c < (128 :: nat)"
  shows "str_slice_to n s = Ok (take n s)"
proof -
  have "\<not> continuation (ascii s ! n)" if "n < length s"
  proof -
    have "of_char (s ! n) < (128 :: nat)" using assms(2) that by simp
    then have "unat (ascii s ! n) < 128" using that by (simp add: ascii_def unat_of_nat_exact)
    then show ?thesis by (simp add: continuation_def word_le_nat_alt)
  qed
  with assms(1) show ?thesis by (auto simp: str_slice_to_def)
qed

lemma path_join_plain: "plain_dir d \<Longrightarrow> c \<noteq> [] \<Longrightarrow> hd c \<noteq> CHR ''/'' \<Longrightarrow> path_join d c = d @ CHR ''/'' # c"
  by (simp add: plain_dir_def path_join_def)

lemma path_parent_join:
  assumes "d \<noteq> []" and "CHR ''/'' \<notin> set c"
  shows "path_parent (d @ CHR ''/'' # c) = d"
proof -
  have "dropWhile (\<lambda>x. x \<noteq> CHR ''/'') (rev c @ CHR ''/'' # rev d) = CHR ''/'' # rev d"
    using assms(2) by (simp add: dropWhile_append)
  with assms(1) show ?thesis by (simp add: path_parent_def)
qed

lemma last_segment_id:
  assumes "c \<notin> set s"
  shows "last_segment c (p @ c # s) = s"
proof -
  have all: "takeWhile (\<lambda>d. d \<noteq> c) (rev s) = rev s" using assms by (auto simp: takeWhile_eq_all_conv)
  show ?thesis by (simp add: last_segment_def takeWhile_tail all)
qed

lemma checksum_facts:
  assumes "digest_text cr"
  shows "length (calculate_checksum cr content) = 64"
    and "\<forall>c \<in> set (calculate_checksum cr content). of_char c < (128 :: nat) \<and> c \<noteq> CHR ''/'' \<and> c \<noteq> CHR ''-''"
  using assms by (simp_all add: digest_text_def calculate_checksum_def)

text \<open>The place of a checksum in the cache.\<close>

definition cache_slot :: "path \<Rightarrow> string \<Rightarrow> path" where
  "cache_slot d checksum = d @ CHR ''/'' # take 2 checksum @ CHR ''/'' # checksum"

lemma cache_path_plain:
  assumes "plain_dir (mr_cache_dir reg)" and "2 \<le> length checksum"
    and "\<forall>c \<in> set checksum. of_char c < (128 :: nat) \<and> c \<noteq> CHR ''/''"
  shows "cache_path reg checksum = Ok (cache_slot (mr_cache_dir reg) checksum)"
proof -
  let ?d = "mr_cache_dir reg"
  have "hd checksum \<in> set checksum" using assms(2) by (intro hd_in_set) auto
  then have "hd checksum \<noteq> CHR ''/''" using assms(3) by blast
  moreover have "checksum \<noteq> []" "hd (take 2 checksum) = hd checksum" using assms(2) by (auto simp: hd_take)
  ultimately have hd: "checksum \<noteq> []" "take 2 checksum \<noteq> []" "hd checksum \<noteq> CHR ''/''"
    "hd (take 2 checksum) \<noteq> CHR ''/''"
    by simp_all
  have "last (take 2 checksum) \<in> set checksum" using hd(2) last_in_set in_set_takeD by metis
  then have "last (take 2 checksum) \<noteq> CHR ''/''" using assms(3) by blast
  then have "plain_dir (?d @ CHR ''/'' # take 2 checksum)"
    using hd(2) by (simp add: plain_dir_def)
  with hd assms show ?thesis
    by (simp add: cache_path_def str_slice_to_ascii path_join_plain cache_slot_def)
qed

lemma cache_slot_parent:
  assumes "d \<noteq> []" and "CHR ''/'' \<notin> set checksum"
  shows "path_parent (cache_slot d checksum) = d @ CHR ''/'' # take 2 checksum"
  using path_parent_join [of "d @ CHR ''/'' # take 2 checksum" checksum] assms
  by (simp add: cache_slot_def)

section \<open>Registration\<close>

text \<open>A description that succeeds, and the four ways it ends otherwise.\<close>

lemma describe_model_Ok:
  assumes "digest_text cr" and "plain_dir (mr_cache_dir reg)"
    and "hm_get (fs_files fs) file_path = Some content" and "parse mc content = Ok model"
  obtains metadata where
    "describe_model cr mc registered accessed file_path name reg fs = Ok metadata"
    "mm_checksum metadata = calculate_checksum cr content"
    "mm_file_path metadata = cache_slot (mr_cache_dir reg) (calculate_checksum cr content)"
    "mm_model_id metadata = mm_architecture metadata @ CHR ''-'' # take 16 (calculate_checksum cr content)"
    "mm_name metadata = name" "mm_cached_nodes metadata = []"
    "mm_file_size_bytes metadata = word_of_nat (length content)"
    "mm_architecture metadata =
       (case get_architecture model of None \<Rightarrow> ''unknown'' | Some a \<Rightarrow> text_of_bytes a)"
  using assms checksum_facts [OF assms(1), of content] that
  by (simp add: describe_model_def fs_read_def Let_def str_slice_to_ascii cache_path_plain)

lemma describe_model_not_Ok:
  assumes "digest_text cr" and "plain_dir (mr_cache_dir reg)"
    and "\<nexists>content model. hm_get (fs_files fs) file_path = Some content \<and> parse mc content = Ok model"
  shows "\<not> is_ok (describe_model cr mc registered accessed file_path name reg fs)"
proof (cases "hm_get (fs_files fs) file_path")
  case None
  then show ?thesis by (simp add: describe_model_def fs_read_def)
next
  case (Some content)
  with assms(3) show ?thesis
    by (cases "parse mc content") (simp_all add: describe_model_def fs_read_def)
qed

lemma register_model_refused:
  assumes "digest_text cr" and "plain_dir (mr_cache_dir reg)"
    and "\<And>p. prefix (mr_cache_dir reg @ ''/'') p \<Longrightarrow> \<not> path_exists p fs"
  shows "snd (register_model cr mc registered accessed file_path name (reg, fs)) = (reg, fs) \<and>
    \<not> is_ok (fst (register_model cr mc registered accessed file_path name (reg, fs)))"
proof (cases "\<exists>content model. hm_get (fs_files fs) file_path = Some content \<and> parse mc content = Ok model")
  case False
  with describe_model_not_Ok [OF assms(1,2) this, of registered accessed name]
  show ?thesis
    by (cases "describe_model cr mc registered accessed file_path name reg fs") (auto simp: register_model_def)
next
  case True
  then obtain content model where
    content: "hm_get (fs_files fs) file_path = Some content" "parse mc content = Ok model" by blast
  let ?c = "calculate_checksum cr content"
  obtain metadata where describe: "describe_model cr mc registered accessed file_path name reg fs = Ok metadata"
    "mm_file_path metadata = cache_slot (mr_cache_dir reg) ?c"
    using describe_model_Ok [OF assms(1,2) content] by metis
  have "CHR ''/'' \<notin> set ?c" using checksum_facts(2) [OF assms(1), of content] by blast
  then have "path_parent (mm_file_path metadata) = mr_cache_dir reg @ CHR ''/'' # take 2 ?c"
    using assms(2) by (simp add: describe(2) cache_slot_parent plain_dir_def)
  moreover have "\<not> path_exists (mr_cache_dir reg @ CHR ''/'' # take 2 ?c) fs"
    "\<not> path_exists (mm_file_path metadata) fs"
    unfolding describe(2) cache_slot_def by (rule assms(3), simp add: prefix_def)+
  ultimately show ?thesis
    using content describe(1) by (simp add: register_model_def fs_copy_def path_exists_def)
qed

text \<open>The operations that change the registry or the files.\<close>

datatype registry_op =
    Op_Register datetime datetime path string
  | Op_Get datetime model_id
  | Op_Mark model_id node_id
  | Op_Unmark model_id node_id
  | Op_Unregister model_id

fun registry_exec ::
  "'k crypto \<Rightarrow> machine \<Rightarrow> model_registry \<times> file_system \<Rightarrow> registry_op \<Rightarrow> model_registry \<times> file_system" where
  "registry_exec cr mc st (Op_Register registered accessed file_path name) =
     snd (register_model cr mc registered accessed file_path name st)"
| "registry_exec cr mc st (Op_Get now model_id) = apfst (\<lambda>reg. snd (get_model now model_id reg)) st"
| "registry_exec cr mc st (Op_Mark model_id node_id) = apfst (\<lambda>reg. snd (mark_cached model_id node_id reg)) st"
| "registry_exec cr mc st (Op_Unmark model_id node_id) = apfst (\<lambda>reg. snd (unmark_cached model_id node_id reg)) st"
| "registry_exec cr mc st (Op_Unregister model_id) = snd (unregister_model model_id st)"

lemma empty_registry_kept:
  assumes "digest_text cr" and "plain_dir d"
    and "\<And>p. prefix (d @ ''/'') p \<Longrightarrow> \<not> path_exists p fs"
  shows "foldl (registry_exec cr mc) (\<lparr>mr_models = [], mr_cache_dir = d\<rparr>, fs) ops =
    (\<lparr>mr_models = [], mr_cache_dir = d\<rparr>, fs)"
proof (induction ops)
  case (Cons op ops)
  have "registry_exec cr mc (\<lparr>mr_models = [], mr_cache_dir = d\<rparr>, fs) op = (\<lparr>mr_models = [], mr_cache_dir = d\<rparr>, fs)"
  proof (cases op)
    case (Op_Register registered accessed file_path name)
    then show ?thesis
      using register_model_refused [OF assms(1), of "\<lparr>mr_models = [], mr_cache_dir = d\<rparr>" fs] assms(2,3) by simp
  qed (simp_all add: get_model_def mark_cached_def unmark_cached_def unregister_model_def hm_get_def
      hm_modify_def)
  with Cons.IH show ?case by simp
qed simp

lemma path_ancestors_length: "q \<in> set (path_ancestors p) \<Longrightarrow> length q \<le> length p"
  by (auto simp: path_ancestors_def)

lemma sample_digest_text: "digest_text sample_crypto"
proof -
  have plain: "of_char c < (128 :: nat) \<and> c \<noteq> CHR ''/'' \<and> c \<noteq> CHR ''-''"
    if "c \<in> set (sample_hex bs)" for c bs
  proof -
    have "\<exists>b :: u8. c = char_of (97 + unat b div 16) \<or> c = char_of (97 + unat b mod 16)"
      using that by (auto simp: sample_hex_def)
    then obtain b :: u8 where "c = char_of (97 + unat b div 16) \<or> c = char_of (97 + unat b mod 16)" ..
    moreover have "unat b div 16 < 16" "unat b mod 16 < 16" using unat_bound [of b] by simp_all
    ultimately obtain d :: nat where d: "d < 16" "c = char_of (97 + d)" by metis
    then have "of_char c = 97 + d" using of_char_nibble by simp
    with d(1) show ?thesis by auto
  qed
  have "length (sample_hex bs) = 2 * length bs" for bs
    unfolding sample_hex_def by (induction bs) simp_all
  with plain show ?thesis by (simp add: digest_text_def sample_crypto_def min_def)
qed

section \<open>Properties\<close>

text \<open>
  C14.  A registry on a fresh cache directory can never register a model: the
  constructor makes the directory, but registration copies into a directory
  named after the checksum that nothing creates, so every call fails, whatever
  is tried before, and the registry stays empty.
\<close>
theorem fresh_cache_refuses_models:
  assumes "digest_text cr" and "plain_dir d"
    and "\<forall>p. path_exists p fs \<longrightarrow> \<not> prefix (d @ ''/'') p"
  shows "foldl (registry_exec cr mc) (registry_new d fs) ops = registry_new d fs \<and>
    mr_models (fst (registry_new d fs)) = [] \<and>
    \<not> is_ok (fst (register_model cr mc registered accessed file_path name
      (foldl (registry_exec cr mc) (registry_new d fs) ops)))"
proof -
  let ?fs = "fs_create_dir_all d fs"
  have new: "registry_new d fs = (\<lparr>mr_models = [], mr_cache_dir = d\<rparr>, ?fs)"
    by (simp add: registry_new_def hm_new_def)
  have empty: "\<not> path_exists p ?fs" if "prefix (d @ ''/'') p" for p
  proof
    assume "path_exists p ?fs"
    then have "path_exists p fs \<or> p \<in> set (path_ancestors d)"
      by (auto simp: path_exists_def fs_create_dir_all_def split: if_splits)
    with assms(3) that have "length p \<le> length d" using path_ancestors_length by blast
    with that show False by (auto dest: prefix_length_le)
  qed
  show ?thesis
    using empty_registry_kept [OF assms(1,2) empty, where ops = ops]
      register_model_refused [OF assms(1) _ empty, of "\<lparr>mr_models = [], mr_cache_dir = d\<rparr>"] assms(2)
    by (simp add: new)
qed

theorem fresh_cache_refuses_models_witness:
  "\<not> is_ok (fst (register_model sample_crypto sample_machine 0 0 ''/m.gguf'' ''m''
     (registry_new ''/cache'' \<lparr>fs_files = [(''/m.gguf'', encode_model sample_model)], fs_dirs = [''/'']\<rparr>)))"
proof -
  let ?fs = "\<lparr>fs_files = [(''/m.gguf'', encode_model sample_model)], fs_dirs = [''/'']\<rparr>"
  have "\<forall>p. path_exists p ?fs \<longrightarrow> \<not> prefix (''/cache'' @ ''/'') p"
    by (auto simp: path_exists_def hm_get_def split: if_splits)
  from fresh_cache_refuses_models [OF sample_digest_text _ this, where ops = "[]"]
  show ?thesis by (simp add: plain_dir_def)
qed

text \<open>
  C34.  Where the checksum's directory exists, a model file is registered: the
  description comes from the file, a copy with the same content is in the cache,
  and the model is found under its id.  But the path \<open>get_cached_path\<close> gives
  for that id is another one, since the id holds only 16 characters of the
  checksum.
\<close>
theorem register_stores_model:
  assumes "digest_text cr" and "plain_dir (mr_cache_dir reg)"
    and "hm_get (fs_files fs) file_path = Some content" and "parse mc content = Ok model"
    and "checksum = calculate_checksum cr content"
    and "mr_cache_dir reg @ CHR ''/'' # take 2 checksum \<in> set (fs_dirs fs)"
    and "\<not> path_exists (cache_slot (mr_cache_dir reg) checksum) fs"
  shows "\<exists>metadata reg' fs'.
    register_model cr mc registered accessed file_path name (reg, fs) = (Ok metadata, (reg', fs')) \<and>
    mm_name metadata = name \<and> mm_checksum metadata = checksum \<and>
    mm_file_size_bytes metadata = word_of_nat (length content) \<and>
    hm_get (fs_files fs') (mm_file_path metadata) = Some content \<and>
    fst (get_model now (mm_model_id metadata) reg') = Some (metadata\<lparr>mm_last_accessed := now\<rparr>) \<and>
    (\<forall>p. get_cached_path (mm_model_id metadata) reg' = Ok (Some p) \<longrightarrow> p \<noteq> mm_file_path metadata) \<and>
    get_cached_path (mm_model_id metadata) reg' = Ok (Some (cache_slot (mr_cache_dir reg) (take 16 checksum)))"
proof -
  obtain metadata where describe: "describe_model cr mc registered accessed file_path name reg fs = Ok metadata"
    and path: "mm_file_path metadata = cache_slot (mr_cache_dir reg) checksum"
    and id: "mm_model_id metadata = mm_architecture metadata @ CHR ''-'' # take 16 checksum"
    and fields: "mm_name metadata = name" "mm_checksum metadata = checksum"
      "mm_file_size_bytes metadata = word_of_nat (length content)"
    using describe_model_Ok [OF assms(1-4), of registered accessed name] unfolding assms(5) by metis
  note facts = checksum_facts [OF assms(1), of content, folded assms(5)]
  have no_slash: "CHR ''/'' \<notin> set checksum" and no_dash: "CHR ''-'' \<notin> set (take 16 checksum)"
    using facts(2) by (auto dest: in_set_takeD)
  define reg' where "reg' = reg\<lparr>mr_models := hm_insert (mm_model_id metadata) metadata (mr_models reg)\<rparr>"
  define fs' where "fs' = fs\<lparr>fs_files := hm_insert (mm_file_path metadata) content (fs_files fs)\<rparr>"
  have "path_parent (mm_file_path metadata) \<in> set (fs_dirs fs)"
    using assms(2,6) no_slash by (simp add: path cache_slot_parent plain_dir_def)
  then have register: "register_model cr mc registered accessed file_path name (reg, fs) = (Ok metadata, (reg', fs'))"
    using assms(3,7) describe by (simp add: register_model_def fs_copy_def path reg'_def fs'_def)
  have short: "get_cached_path (mm_model_id metadata) reg' = Ok (Some (cache_slot (mr_cache_dir reg) (take 16 checksum)))"
    using cache_path_plain [of reg' "take 16 checksum"] facts assms(2)
    by (simp add: get_cached_path_def id last_segment_id [OF no_dash] reg'_def) (auto dest: in_set_takeD)
  have "length (cache_slot (mr_cache_dir reg) (take 16 checksum)) \<noteq> length (cache_slot (mr_cache_dir reg) checksum)"
    using facts(1) by (simp add: cache_slot_def)
  then have "cache_slot (mr_cache_dir reg) (take 16 checksum) \<noteq> mm_file_path metadata" unfolding path by metis
  with register short fields show ?thesis
    by (intro exI [of _ metadata] exI [of _ reg'] exI [of _ fs']) (simp add: get_model_def reg'_def fs'_def)
qed

theorem register_stores_model_witness:
  "\<exists>metadata reg' fs'. register_model sample_crypto sample_machine 0 0 ''/m.gguf'' ''m''
      (\<lparr>mr_models = [], mr_cache_dir = ''/cache''\<rparr>,
       \<lparr>fs_files = [(''/m.gguf'', encode_model sample_model)],
        fs_dirs = [''/cache/'' @ take 2 (calculate_checksum sample_crypto (encode_model sample_model))]\<rparr>)
      = (Ok metadata, (reg', fs')) \<and>
    hm_get (fs_files fs') (mm_file_path metadata) = Some (encode_model sample_model)"
proof -
  let ?content = "encode_model sample_model"
  let ?checksum = "calculate_checksum sample_crypto ?content"
  let ?reg = "\<lparr>mr_models = [], mr_cache_dir = ''/cache''\<rparr>"
  let ?fs = "\<lparr>fs_files = [(''/m.gguf'', ?content)], fs_dirs = [''/cache/'' @ take 2 ?checksum]\<rparr>"
  have parses: "parse sample_machine ?content = Ok sample_model"
    using read_encoded_model [OF sample_model_fits, of "[]"] by (simp add: parse_def)
  have "length (cache_slot ''/cache'' ?checksum) = 74"
    using checksum_facts(1) [OF sample_digest_text, of ?content] by (simp add: cache_slot_def)
  moreover have "length ''/m.gguf'' \<noteq> 74" "length (''/cache/'' @ take 2 ?checksum) \<noteq> 74" by simp_all
  ultimately have "cache_slot ''/cache'' ?checksum \<noteq> ''/m.gguf''"
    "cache_slot ''/cache'' ?checksum \<noteq> ''/cache/'' @ take 2 ?checksum"
    by metis+
  then have "\<not> path_exists (cache_slot (mr_cache_dir ?reg) ?checksum) ?fs"
    by (simp add: path_exists_def hm_get_def)
  from register_stores_model [OF sample_digest_text _ _ parses refl _ this, where file_path = "''/m.gguf''"
      and registered = 0 and accessed = 0 and now = 0 and name = "''m''"]
  show ?thesis by (auto simp: plain_dir_def hm_get_def)
qed

end
