(* ===== verification/Fine_Tuning.thy ===== *)
theory Fine_Tuning
  imports Model_Registry
begin

text \<open>
  The fine-tuning service, \<open>services/fine-tuning/src/lib.rs\<close>: a table of jobs,
  the calls that move them through their life cycle, and the training tasks
  that \<open>start_job\<close> spawns.

  The training task is a state machine of its own, one step between two waits.
  It holds the read lock of the job table for as long as it waits for a paused
  job to be resumed (the guard of the outer check is still in scope), so a step
  that writes the table is possible only while no task waits (\<open>jobs_free\<close>).
\<close>

section \<open>State\<close>

record fine_tuning_config =
  fc_base_model :: string
  fc_dataset_path :: path
  fc_output_path :: path
  fc_epochs :: u32
  fc_batch_size :: u32
  fc_learning_rate :: f32
  fc_lora_rank :: "u32 option"
  fc_lora_alpha :: "f32 option"

datatype job_status =
    JobPending
  | JobRunning
  | JobPaused
  | JobCompleted
  | JobFailed
  | JobCancelled

record fine_tuning_job =
  fj_id :: uuid
  fj_config :: fine_tuning_config
  fj_status :: job_status
  fj_progress :: f32
  fj_epoch :: u32
  fj_total_epochs :: u32
  fj_loss :: f32
  fj_created_at :: datetime
  fj_started_at :: "datetime option"
  fj_completed_at :: "datetime option"
  fj_error :: "string option"

text \<open>
  Where a training task stands: before the check of an epoch, waiting for a
  resume (with the read lock), in the simulated epoch, after the last epoch,
  returned.
\<close>

datatype trainer_phase =
    Check_Epoch u32
  | Wait_Resume u32
  | Train_Epoch u32
  | Finish_Training
  | Returned

record trainer =
  tr_job_id :: uuid
  tr_config :: fine_tuning_config
  tr_phase :: trainer_phase

record fine_tuning_service =
  ft_jobs :: "(uuid, fine_tuning_job) hash_map"
  ft_model_registry :: model_registry
  ft_trainers :: "trainer list"

datatype fine_tuning_error =
    FtModelNotFound string
  | FtDatasetNotFound path
  | FtJobNotFound uuid
  | FtInvalidState job_status

record service_stats =
  fs_total_jobs :: nat
  fs_running_jobs :: nat
  fs_completed_jobs :: nat
  fs_failed_jobs :: nat

definition fine_tuning_new :: "model_registry \<Rightarrow> fine_tuning_service" where
  "fine_tuning_new registry = \<lparr>ft_jobs = hm_new, ft_model_registry = registry, ft_trainers = []\<rparr>"

section \<open>Calls\<close>

definition new_job :: "uuid \<Rightarrow> datetime \<Rightarrow> fine_tuning_config \<Rightarrow> fine_tuning_job" where
  "new_job job_id now config = \<lparr>fj_id = job_id, fj_config = config, fj_status = JobPending,
     fj_progress = Fin 0, fj_epoch = 0, fj_total_epochs = fc_epochs config, fj_loss = Fin 0,
     fj_created_at = now, fj_started_at = None, fj_completed_at = None, fj_error = None\<rparr>"

text \<open>The look-up of the base model touches the registry, whatever comes after.\<close>

definition create_job ::
  "(path \<Rightarrow> bool) \<Rightarrow> uuid \<Rightarrow> datetime \<Rightarrow> datetime \<Rightarrow> fine_tuning_config \<Rightarrow>
   (fine_tuning_service, fine_tuning_error, uuid) action" where
  "create_job exists job_id access now config s =
     (let (found, registry) = get_model access (fc_base_model config) (ft_model_registry s);
          s = s\<lparr>ft_model_registry := registry\<rparr>
      in case found of
           None \<Rightarrow> (Err (FtModelNotFound (fc_base_model config)), s)
         | Some _ \<Rightarrow>
             if \<not> exists (fc_dataset_path config) then (Err (FtDatasetNotFound (fc_dataset_path config)), s)
             else (Ok job_id, s\<lparr>ft_jobs := hm_insert job_id (new_job job_id now config) (ft_jobs s)\<rparr>))"

text \<open>
  The calls on one job: refused when it does not exist or is in the wrong
  state, otherwise an update of its entry.
\<close>

definition on_job ::
  "uuid \<Rightarrow> (job_status \<Rightarrow> bool) \<Rightarrow> (fine_tuning_job \<Rightarrow> fine_tuning_job) \<Rightarrow>
   (fine_tuning_service, fine_tuning_error, fine_tuning_job) action" where
  "on_job job_id allowed change s =
     (case hm_get (ft_jobs s) job_id of
        None \<Rightarrow> (Err (FtJobNotFound job_id), s)
      | Some job \<Rightarrow>
          if \<not> allowed (fj_status job) then (Err (FtInvalidState (fj_status job)), s)
          else (Ok job, s\<lparr>ft_jobs := hm_modify job_id change (ft_jobs s)\<rparr>))"

definition first_phase :: "u32 \<Rightarrow> trainer_phase" where
  "first_phase epochs = (if 1 \<le> epochs then Check_Epoch 1 else Finish_Training)"

definition start_job :: "datetime \<Rightarrow> uuid \<Rightarrow> (fine_tuning_service, fine_tuning_error, unit) action" where
  "start_job now job_id =
     bind_action
       (on_job job_id (\<lambda>st. st = JobPending \<or> st = JobPaused)
         (\<lambda>job. job\<lparr>fj_status := JobRunning, fj_started_at := Some now\<rparr>))
       (\<lambda>job s. (Ok (), s\<lparr>ft_trainers := ft_trainers s @
          [\<lparr>tr_job_id = job_id, tr_config = fj_config job, tr_phase = first_phase (fc_epochs (fj_config job))\<rparr>]\<rparr>))"

definition pause_job :: "uuid \<Rightarrow> (fine_tuning_service, fine_tuning_error, unit) action" where
  "pause_job job_id =
     bind_action (on_job job_id (\<lambda>st. st = JobRunning) (\<lambda>job. job\<lparr>fj_status := JobPaused\<rparr>))
       (\<lambda>_. return_action ())"

definition resume_job :: "uuid \<Rightarrow> (fine_tuning_service, fine_tuning_error, unit) action" where
  "resume_job job_id =
     bind_action (on_job job_id (\<lambda>st. st = JobPaused) (\<lambda>job. job\<lparr>fj_status := JobRunning\<rparr>))
       (\<lambda>_. return_action ())"

definition cancel_job :: "uuid \<Rightarrow> (fine_tuning_service, fine_tuning_error, unit) action" where
  "cancel_job job_id =
     bind_action
       (on_job job_id (\<lambda>st. \<not> (st = JobCompleted \<or> st = JobCancelled)) (\<lambda>job. job\<lparr>fj_status := JobCancelled\<rparr>))
       (\<lambda>_. return_action ())"

definition get_job :: "uuid \<Rightarrow> fine_tuning_service \<Rightarrow> (fine_tuning_error, fine_tuning_job) outcome" where
  "get_job job_id s = ok_or (FtJobNotFound job_id) (hm_get (ft_jobs s) job_id)"

definition list_jobs :: "fine_tuning_service \<Rightarrow> fine_tuning_job list" where
  "list_jobs s = hm_values (ft_jobs s)"

definition delete_job :: "uuid \<Rightarrow> (fine_tuning_service, fine_tuning_error, unit) action" where
  "delete_job job_id s =
     (case hm_get (ft_jobs s) job_id of
        None \<Rightarrow> (Err (FtJobNotFound job_id), s)
      | Some job \<Rightarrow>
          if fj_status job = JobRunning then (Err (FtInvalidState (fj_status job)), s)
          else (Ok (), s\<lparr>ft_jobs := hm_remove job_id (ft_jobs s)\<rparr>))"

definition fine_tuning_get_stats :: "fine_tuning_service \<Rightarrow> service_stats" where
  "fine_tuning_get_stats s =
     (let with_status = (\<lambda>st. length (filter (\<lambda>j. fj_status j = st) (hm_values (ft_jobs s))))
      in \<lparr>fs_total_jobs = hm_len (ft_jobs s), fs_running_jobs = with_status JobRunning,
          fs_completed_jobs = with_status JobCompleted, fs_failed_jobs = with_status JobFailed\<rparr>)"

section \<open>The training task\<close>

text \<open>The check at the start of an epoch, and the check after each second of waiting.\<close>

definition check_epoch :: "(uuid, fine_tuning_job) hash_map \<Rightarrow> uuid \<Rightarrow> u32 \<Rightarrow> trainer_phase" where
  "check_epoch jobs job_id epoch =
     (case hm_get jobs job_id of
        None \<Rightarrow> Train_Epoch epoch
      | Some job \<Rightarrow>
          if fj_status job = JobCancelled then Returned
          else if fj_status job = JobPaused then Wait_Resume epoch
          else Train_Epoch epoch)"

definition check_resume :: "(uuid, fine_tuning_job) hash_map \<Rightarrow> uuid \<Rightarrow> u32 \<Rightarrow> trainer_phase" where
  "check_resume jobs job_id epoch =
     (case hm_get jobs job_id of
        None \<Rightarrow> Wait_Resume epoch
      | Some job \<Rightarrow>
          if fj_status job = JobRunning then Train_Epoch epoch
          else if fj_status job = JobCancelled then Returned
          else Wait_Resume epoch)"

definition epoch_fraction :: "u32 \<Rightarrow> u32 \<Rightarrow> f32" where
  "epoch_fraction epoch epochs = fl_div binary32 (f32_of epoch) (f32_of epochs)"

definition record_epoch :: "u32 \<Rightarrow> u32 \<Rightarrow> fine_tuning_job \<Rightarrow> fine_tuning_job" where
  "record_epoch epoch epochs job = job\<lparr>fj_epoch := epoch,
     fj_progress := fl_mul binary32 (epoch_fraction epoch epochs) (Fin 100),
     fj_loss := fl_mul binary32 (Fin 2) (fl_sub binary32 (Fin 1) (epoch_fraction epoch epochs))\<rparr>"

definition next_phase :: "u32 \<Rightarrow> u32 \<Rightarrow> trainer_phase" where
  "next_phase epoch epochs = (if epoch < epochs then Check_Epoch (epoch + 1) else Finish_Training)"

definition finish_job :: "datetime \<Rightarrow> fine_tuning_job \<Rightarrow> fine_tuning_job" where
  "finish_job now job = job\<lparr>fj_status := JobCompleted, fj_progress := Fin 100, fj_completed_at := Some now\<rparr>"

text \<open>One step of a task: the jobs it leaves and its next phase.\<close>

definition run_training ::
  "datetime \<Rightarrow> trainer \<Rightarrow> (uuid, fine_tuning_job) hash_map \<Rightarrow> (uuid, fine_tuning_job) hash_map \<times> trainer" where
  "run_training now t jobs =
     (let job_id = tr_job_id t; epochs = fc_epochs (tr_config t)
      in case tr_phase t of
           Check_Epoch epoch \<Rightarrow> (jobs, t\<lparr>tr_phase := check_epoch jobs job_id epoch\<rparr>)
         | Wait_Resume epoch \<Rightarrow> (jobs, t\<lparr>tr_phase := check_resume jobs job_id epoch\<rparr>)
         | Train_Epoch epoch \<Rightarrow>
             (hm_modify job_id (record_epoch epoch epochs) jobs, t\<lparr>tr_phase := next_phase epoch epochs\<rparr>)
         | Finish_Training \<Rightarrow> (hm_modify job_id (finish_job now) jobs, t\<lparr>tr_phase := Returned\<rparr>)
         | Returned \<Rightarrow> (jobs, t))"

definition trainer_step :: "datetime \<Rightarrow> nat \<Rightarrow> fine_tuning_service \<Rightarrow> fine_tuning_service" where
  "trainer_step now i s =
     (let (jobs, t) = run_training now (ft_trainers s ! i) (ft_jobs s)
      in s\<lparr>ft_jobs := jobs, ft_trainers := (ft_trainers s)[i := t]\<rparr>)"

section \<open>Runs\<close>

definition waiting :: "trainer \<Rightarrow> bool" where
  "waiting t \<longleftrightarrow> (case tr_phase t of Wait_Resume _ \<Rightarrow> True | _ \<Rightarrow> False)"

definition writes :: "trainer \<Rightarrow> bool" where
  "writes t \<longleftrightarrow> (case tr_phase t of Train_Epoch _ \<Rightarrow> True | Finish_Training \<Rightarrow> True | _ \<Rightarrow> False)"

text \<open>No task holds the read lock of the table.\<close>

definition jobs_free :: "fine_tuning_service \<Rightarrow> bool" where
  "jobs_free s \<longleftrightarrow> \<not> list_ex waiting (ft_trainers s)"

text \<open>A new \<open>Uuid\<close> is one no job and no task has.\<close>

definition fresh_job_id :: "uuid \<Rightarrow> fine_tuning_service \<Rightarrow> bool" where
  "fresh_job_id job_id s \<longleftrightarrow> hm_get (ft_jobs s) job_id = None \<and>
     list_all (\<lambda>t. tr_job_id t \<noteq> job_id) (ft_trainers s)"

inductive service_step :: "fine_tuning_service \<Rightarrow> fine_tuning_service \<Rightarrow> bool" where
  create: "create_job exists job_id access now config s = (Ok r, s') \<Longrightarrow> fresh_job_id job_id s \<Longrightarrow>
    jobs_free s \<Longrightarrow> service_step s s'"
| create_refused: "create_job exists job_id access now config s = (Err e, s') \<Longrightarrow> service_step s s'"
| start: "start_job now job_id s = (r, s') \<Longrightarrow> jobs_free s \<Longrightarrow> service_step s s'"
| pause: "pause_job job_id s = (r, s') \<Longrightarrow> jobs_free s \<Longrightarrow> service_step s s'"
| resume: "resume_job job_id s = (r, s') \<Longrightarrow> jobs_free s \<Longrightarrow> service_step s s'"
| cancel: "cancel_job job_id s = (r, s') \<Longrightarrow> jobs_free s \<Longrightarrow> service_step s s'"
| delete: "delete_job job_id s = (r, s') \<Longrightarrow> jobs_free s \<Longrightarrow> service_step s s'"
| train: "i < length (ft_trainers s) \<Longrightarrow> (writes (ft_trainers s ! i) \<Longrightarrow> jobs_free s) \<Longrightarrow>
    service_step s (trainer_step now i s)"

section \<open>Progress and loss\<close>

lemma fl_of_nat_Fin32: "n < 2 ^ 32 \<Longrightarrow> fl_of_nat binary32 n = Fin (round_rat 24 (-149) (of_nat n))"
proof -
  assume "n < 2 ^ 32"
  then have "(of_nat n :: rat) < 2 ^ 32" by (metis of_nat_less_iff of_nat_numeral of_nat_power)
  then show ?thesis unfolding fl_of_nat_def by (subst fl_round_Fin [of _ 32]) auto
qed

lemma quotient_of_counts:
  assumes "1 \<le> m" and "m \<le> n" and "n < 2 ^ 32"
  shows "(\<exists>q. fl_div binary32 (fl_of_nat binary32 m) (fl_of_nat binary32 n) = Fin q \<and> 0 \<le> q \<and> q \<le> 1) \<and>
    fl_div binary32 (fl_of_nat binary32 n) (fl_of_nat binary32 n) = Fin 1"
proof -
  define a b :: rat where "a = round_rat 24 (-149) (of_nat m)" and "b = round_rat 24 (-149) (of_nat n)"
  have fin: "fl_of_nat binary32 m = Fin a" "fl_of_nat binary32 n = Fin b"
    using assms fl_of_nat_Fin32 [of m] fl_of_nat_Fin32 [of n] by (simp_all add: a_def b_def)
  have "a \<le> b" unfolding a_def b_def using assms(1,2) by (intro round_rat_mono) auto
  moreover have "round_rat 24 (-149) (of_nat 1) \<le> a"
    unfolding a_def using assms(1) by (intro round_rat_mono) auto
  then have "1 \<le> a" using r32.rnd_nat [of 1] by simp
  ultimately have ab: "0 \<le> a / b" "a / b \<le> 1" "b \<noteq> 0" by auto
  have "fl_round binary32 1 = Fin 1" using fl_of_nat_exact32 [of 1] by (simp add: fl_of_nat_def)
  then show ?thesis
    using fl_round_range32 [of "a / b" 1] ab by (simp add: fin)
qed

lemma epoch_fraction_range:
  assumes "1 \<le> epoch" and "epoch \<le> epochs"
  shows "(\<exists>q. epoch_fraction epoch epochs = Fin q \<and> 0 \<le> q \<and> q \<le> 1) \<and> epoch_fraction epochs epochs = Fin 1"
  using quotient_of_counts [of "unat epoch" "unat epochs"] assms unat_bound [of epochs]
  by (simp add: epoch_fraction_def f32_of_def word_le_nat_alt)

lemma record_epoch_ranges:
  assumes "1 \<le> epoch" and "epoch \<le> epochs"
  shows "\<exists>x. fj_progress (record_epoch epoch epochs job) = Fin x \<and> 0 \<le> x \<and> x \<le> 100"
    and "\<exists>l. fj_loss (record_epoch epoch epochs job) = Fin l \<and> 0 \<le> l \<and> l \<le> 2"
proof -
  obtain q where q: "epoch_fraction epoch epochs = Fin q" "0 \<le> q" "q \<le> 1"
    using epoch_fraction_range [OF assms] by blast
  then show "\<exists>x. fj_progress (record_epoch epoch epochs job) = Fin x \<and> 0 \<le> x \<and> x \<le> 100"
    using fl_round_range32 [of "q * 100" 100] by (simp add: record_epoch_def)
  obtain r where r: "fl_round binary32 (1 - q) = Fin r" "0 \<le> r" "r \<le> 1"
    using fl_round_range32 [of "1 - q" 1] q by auto
  then show "\<exists>l. fj_loss (record_epoch epoch epochs job) = Fin l \<and> 0 \<le> l \<and> l \<le> 2"
    using fl_round_range32 [of "2 * r" 2] q by (simp add: record_epoch_def fl_sub_def)
qed

lemma record_last_epoch:
  assumes "1 \<le> epochs"
  shows "fj_progress (record_epoch epochs epochs job) = Fin 100" "fj_loss (record_epoch epochs epochs job) = Fin 0"
  using epoch_fraction_range [OF assms order_refl] fl_of_nat_exact32 [of 100] fl_of_nat_exact32 [of 0]
  by (simp_all add: record_epoch_def fl_sub_def fl_of_nat_def)

section \<open>The invariant\<close>

definition job_ok :: "uuid \<Rightarrow> fine_tuning_job \<Rightarrow> bool" where
  "job_ok job_id job \<longleftrightarrow> fj_id job = job_id \<and>
     fj_total_epochs job = fc_epochs (fj_config job) \<and> fj_epoch job \<le> fj_total_epochs job \<and>
     (\<exists>x. fj_progress job = Fin x \<and> 0 \<le> x \<and> x \<le> 100) \<and> (\<exists>l. fj_loss job = Fin l \<and> 0 \<le> l \<and> l \<le> 2) \<and>
     fj_status job \<noteq> JobFailed \<and> fj_error job = None \<and>
     (fj_started_at job = None \<longrightarrow> fj_status job = JobPending \<or> fj_status job = JobCancelled) \<and>
     (fj_status job = JobCompleted \<longrightarrow> fj_completed_at job \<noteq> None)"

definition phase_ok :: "trainer \<Rightarrow> bool" where
  "phase_ok t \<longleftrightarrow> (case tr_phase t of
       Check_Epoch e \<Rightarrow> 1 \<le> e \<and> e \<le> fc_epochs (tr_config t)
     | Wait_Resume e \<Rightarrow> 1 \<le> e \<and> e \<le> fc_epochs (tr_config t)
     | Train_Epoch e \<Rightarrow> 1 \<le> e \<and> e \<le> fc_epochs (tr_config t)
     | _ \<Rightarrow> True)"

text \<open>A task agrees with its job while the job exists, and waits only on a paused job.\<close>

definition task_ok :: "(uuid, fine_tuning_job) hash_map \<Rightarrow> trainer \<Rightarrow> bool" where
  "task_ok jobs t \<longleftrightarrow> phase_ok t \<and>
     (\<forall>job. hm_get jobs (tr_job_id t) = Some job \<longrightarrow> fj_config job = tr_config t \<and> fj_started_at job \<noteq> None) \<and>
     (waiting t \<longrightarrow> (\<exists>job. hm_get jobs (tr_job_id t) = Some job \<and> fj_status job = JobPaused))"

definition fine_tuning_inv :: "fine_tuning_service \<Rightarrow> bool" where
  "fine_tuning_inv s \<longleftrightarrow>
     (\<forall>job_id job. hm_get (ft_jobs s) job_id = Some job \<longrightarrow> job_ok job_id job) \<and>
     (\<forall>t \<in> set (ft_trainers s). task_ok (ft_jobs s) t)"

lemma fine_tuning_inv_new: "fine_tuning_inv (fine_tuning_new registry)"
  by (simp add: fine_tuning_inv_def fine_tuning_new_def)

text \<open>An update of one job that keeps what the tasks rely on.\<close>

lemma task_ok_modify:
  assumes "task_ok jobs t" and "\<not> waiting t"
    and "\<And>job. fj_config (f job) = fj_config job"
    and "\<And>job. fj_started_at job \<noteq> None \<Longrightarrow> fj_started_at (f job) \<noteq> None"
  shows "task_ok (hm_modify job_id f jobs) t"
  using assms by (auto simp: task_ok_def)

lemma fine_tuning_inv_modify:
  assumes "fine_tuning_inv s" and "jobs_free s"
    and "\<And>job. hm_get (ft_jobs s) job_id = Some job \<Longrightarrow> job_ok job_id job \<Longrightarrow> job_ok job_id (f job)"
    and "\<And>job. fj_config (f job) = fj_config job"
    and "\<And>job. fj_started_at job \<noteq> None \<Longrightarrow> fj_started_at (f job) \<noteq> None"
  shows "fine_tuning_inv (s\<lparr>ft_jobs := hm_modify job_id f (ft_jobs s)\<rparr>)"
proof -
  have "task_ok (hm_modify job_id f (ft_jobs s)) t" if "t \<in> set (ft_trainers s)" for t
    using that assms by (intro task_ok_modify) (auto simp: fine_tuning_inv_def jobs_free_def list_ex_iff)
  moreover have "job_ok k job" if "hm_get (hm_modify job_id f (ft_jobs s)) k = Some job" for k job
    using that assms(1,3) by (auto simp: fine_tuning_inv_def split: if_splits)
  ultimately show ?thesis by (simp add: fine_tuning_inv_def)
qed

lemma on_job_inv:
  assumes "fine_tuning_inv s" and "jobs_free s" and "on_job job_id allowed f s = (r, s')"
    and "\<And>job. job_ok job_id job \<Longrightarrow> allowed (fj_status job) \<Longrightarrow> job_ok job_id (f job)"
    and "\<And>job. fj_config (f job) = fj_config job"
    and "\<And>job. fj_started_at job \<noteq> None \<Longrightarrow> fj_started_at (f job) \<noteq> None"
  shows "fine_tuning_inv s'"
proof (cases "\<exists>job. hm_get (ft_jobs s) job_id = Some job \<and> allowed (fj_status job)")
  case True
  then have "s' = s\<lparr>ft_jobs := hm_modify job_id f (ft_jobs s)\<rparr>"
    using assms(3) by (auto simp: on_job_def)
  moreover have "fine_tuning_inv (s\<lparr>ft_jobs := hm_modify job_id f (ft_jobs s)\<rparr>)"
    using assms True by (intro fine_tuning_inv_modify) auto
  ultimately show ?thesis by simp
next
  case False
  then have "s' = s" using assms(3) by (auto simp: on_job_def split: option.splits if_splits)
  with assms(1) show ?thesis by simp
qed

lemma bind_return_state:
  "bind_action m (\<lambda>_. return_action ()) s = (r, s') \<Longrightarrow> snd (m s) = s'"
  by (auto simp: bind_action_def return_action_def split: prod.splits outcome.splits)

lemma start_job_inv:
  assumes "fine_tuning_inv s" and "jobs_free s" and "start_job now job_id s = (r, s')"
  shows "fine_tuning_inv s'"
proof -
  let ?start = "\<lambda>job. job\<lparr>fj_status := JobRunning, fj_started_at := Some now\<rparr>"
  let ?allowed = "\<lambda>st. st = JobPending \<or> st = JobPaused"
  obtain q s1 where on: "on_job job_id ?allowed ?start s = (q, s1)" by fastforce
  have inv: "fine_tuning_inv s1"
    by (rule on_job_inv [OF assms(1,2) on]) (auto simp: job_ok_def)
  show ?thesis
  proof (cases q)
    case (Ok job)
    then have job: "hm_get (ft_jobs s) job_id = Some job"
      and s1: "s1 = s\<lparr>ft_jobs := hm_modify job_id ?start (ft_jobs s)\<rparr>"
      using on by (auto simp: on_job_def split: option.splits if_splits)
    let ?t = "\<lparr>tr_job_id = job_id, tr_config = fj_config job, tr_phase = first_phase (fc_epochs (fj_config job))\<rparr>"
    have "s' = s1\<lparr>ft_trainers := ft_trainers s1 @ [?t]\<rparr>"
      using assms(3) on Ok by (simp add: start_job_def)
    moreover have "task_ok (ft_jobs s1) ?t"
      using job by (auto simp: s1 task_ok_def phase_ok_def waiting_def first_phase_def)
    ultimately show ?thesis using inv by (auto simp: fine_tuning_inv_def)
  next
    case (Err e)
    with assms(3) on inv show ?thesis by (simp add: start_job_def)
  next
    case (Panic p)
    with assms(3) on inv show ?thesis by (simp add: start_job_def)
  qed
qed

lemma create_job_cases:
  assumes "create_job exists job_id access now config s = (r, s')"
  obtains (Ok) registry where "r = Ok job_id"
      "s' = s\<lparr>ft_model_registry := registry, ft_jobs := hm_insert job_id (new_job job_id now config) (ft_jobs s)\<rparr>"
  | (Err) registry e where "r = Err e" "s' = s\<lparr>ft_model_registry := registry\<rparr>"
  using assms by (auto simp: create_job_def Let_def split: prod.splits option.splits if_splits)

lemma create_job_inv:
  assumes "fine_tuning_inv s" and "fresh_job_id job_id s"
    and "create_job exists job_id access now config s = (r, s')"
  shows "fine_tuning_inv s'"
  using assms(3)
proof (cases rule: create_job_cases)
  case (Ok registry)
  have "task_ok (hm_insert job_id (new_job job_id now config) (ft_jobs s)) t" if "t \<in> set (ft_trainers s)" for t
    using that assms(1,2) by (auto simp: fine_tuning_inv_def task_ok_def fresh_job_id_def list_all_iff)
  moreover have "job_ok job_id (new_job job_id now config)"
    by (simp add: job_ok_def new_job_def)
  ultimately show ?thesis using assms(1) by (auto simp: Ok fine_tuning_inv_def split: if_splits)
next
  case (Err registry e)
  with assms(1) show ?thesis by (simp add: fine_tuning_inv_def)
qed

lemma delete_job_inv:
  assumes "fine_tuning_inv s" and "jobs_free s" and "delete_job job_id s = (r, s')"
  shows "fine_tuning_inv s'"
proof -
  have "task_ok (hm_remove job_id (ft_jobs s)) t" if "t \<in> set (ft_trainers s)" for t
    using that assms(1,2) by (auto simp: fine_tuning_inv_def task_ok_def jobs_free_def list_ex_iff)
  then have "fine_tuning_inv (s\<lparr>ft_jobs := hm_remove job_id (ft_jobs s)\<rparr>)"
    using assms(1) by (auto simp: fine_tuning_inv_def split: if_splits)
  with assms(1,3) show ?thesis by (auto simp: delete_job_def split: option.splits if_splits)
qed

lemma next_phase_ok: "phase_ok (t\<lparr>tr_phase := next_phase epoch (fc_epochs (tr_config t))\<rparr>)"
proof (cases "epoch < fc_epochs (tr_config t)")
  case True
  then have "unat epoch < unat (fc_epochs (tr_config t))" by (simp add: word_less_nat_alt)
  moreover from this have "unat (epoch + 1) = unat epoch + 1"
    using unat_bound [of "fc_epochs (tr_config t)"] unat_plus_exact [of epoch 1] by simp
  ultimately show ?thesis using True by (simp add: phase_ok_def next_phase_def word_le_nat_alt)
next
  case False
  then show ?thesis by (simp add: phase_ok_def next_phase_def)
qed

text \<open>A task's step: its phase stays in range, and a write keeps the jobs well formed.\<close>

lemma trainer_step_inv:
  assumes inv: "fine_tuning_inv s" and i: "i < length (ft_trainers s)"
    and free: "writes (ft_trainers s ! i) \<Longrightarrow> jobs_free s"
  shows "fine_tuning_inv (trainer_step now i s)"
proof -
  let ?t = "ft_trainers s ! i"
  have task: "task_ok (ft_jobs s) ?t" using inv i by (simp add: fine_tuning_inv_def)
  have replace: "fine_tuning_inv (s1\<lparr>ft_trainers := (ft_trainers s1)[i := t']\<rparr>)"
    if "fine_tuning_inv s1" "task_ok (ft_jobs s1) t'" for s1 t'
    using that by (auto simp: fine_tuning_inv_def dest!: set_update_subset_insert [THEN subsetD])
  show ?thesis
  proof (cases "tr_phase ?t")
    case (Check_Epoch e)
    have "task_ok (ft_jobs s) (?t\<lparr>tr_phase := check_epoch (ft_jobs s) (tr_job_id ?t) e\<rparr>)"
      using task by (auto simp: task_ok_def check_epoch_def phase_ok_def waiting_def Check_Epoch split: option.split)
    with replace [OF inv] Check_Epoch show ?thesis by (simp add: trainer_step_def run_training_def)
  next
    case (Wait_Resume e)
    have "task_ok (ft_jobs s) (?t\<lparr>tr_phase := check_resume (ft_jobs s) (tr_job_id ?t) e\<rparr>)"
      using task by (auto simp: task_ok_def check_resume_def phase_ok_def waiting_def Wait_Resume split: option.split)
    with replace [OF inv] Wait_Resume show ?thesis by (simp add: trainer_step_def run_training_def)
  next
    case (Train_Epoch e)
    let ?f = "record_epoch e (fc_epochs (tr_config ?t))"
    let ?s1 = "s\<lparr>ft_jobs := hm_modify (tr_job_id ?t) ?f (ft_jobs s)\<rparr>"
    have range: "1 \<le> e" "e \<le> fc_epochs (tr_config ?t)"
      using task by (simp_all add: task_ok_def phase_ok_def Train_Epoch)
    have "job_ok (tr_job_id ?t) (?f job)" if "hm_get (ft_jobs s) (tr_job_id ?t) = Some job" "job_ok (tr_job_id ?t) job" for job
      using that task record_epoch_ranges [OF range, of job] range(2)
      by (simp add: job_ok_def task_ok_def) (simp add: record_epoch_def)
    then have "fine_tuning_inv ?s1"
      using free by (intro fine_tuning_inv_modify [OF inv]) (simp_all add: writes_def Train_Epoch record_epoch_def)
    moreover have "task_ok (ft_jobs ?s1) (?t\<lparr>tr_phase := next_phase e (fc_epochs (tr_config ?t))\<rparr>)"
      using task next_phase_ok [where t = ?t and epoch = e]
      by (auto simp: task_ok_def record_epoch_def waiting_def next_phase_def)
    ultimately show ?thesis
      using replace [of ?s1] Train_Epoch by (simp add: trainer_step_def run_training_def Let_def)
  next
    case Finish_Training
    let ?s1 = "s\<lparr>ft_jobs := hm_modify (tr_job_id ?t) (finish_job now) (ft_jobs s)\<rparr>"
    have "job_ok (tr_job_id ?t) (finish_job now job)"
      if "hm_get (ft_jobs s) (tr_job_id ?t) = Some job" "job_ok (tr_job_id ?t) job" for job
      using that task by (auto simp: job_ok_def task_ok_def finish_job_def)
    then have "fine_tuning_inv ?s1"
      using free by (intro fine_tuning_inv_modify [OF inv]) (simp_all add: writes_def Finish_Training finish_job_def)
    moreover have "task_ok (ft_jobs ?s1) (?t\<lparr>tr_phase := Returned\<rparr>)"
      using task by (auto simp: task_ok_def finish_job_def waiting_def phase_ok_def)
    ultimately show ?thesis
      using replace [of ?s1] Finish_Training by (simp add: trainer_step_def run_training_def Let_def)
  next
    case Returned
    with inv show ?thesis by (simp add: trainer_step_def run_training_def)
  qed
qed

text \<open>The three calls that only change the status.\<close>

lemma status_call_inv:
  assumes "fine_tuning_inv s" and "jobs_free s"
    and "bind_action (on_job job_id allowed f) (\<lambda>_. return_action ()) s = (r, s')"
    and "\<And>job. job_ok job_id job \<Longrightarrow> allowed (fj_status job) \<Longrightarrow> job_ok job_id (f job)"
    and "\<And>job. fj_config (f job) = fj_config job"
    and "\<And>job. fj_started_at job \<noteq> None \<Longrightarrow> fj_started_at (f job) \<noteq> None"
  shows "fine_tuning_inv s'"
  using on_job_inv [OF assms(1,2) _ assms(4-6)] bind_return_state [OF assms(3)]
  by (metis prod.collapse)

lemma service_step_inv: "service_step s s' \<Longrightarrow> fine_tuning_inv s \<Longrightarrow> fine_tuning_inv s'"
proof (induction rule: service_step.induct)
  case (create_refused exists job_id access now config s e s')
  then show ?case by (elim create_job_cases) (simp_all add: fine_tuning_inv_def)
next
  case (pause job_id s r s')
  show ?case
    by (rule status_call_inv [OF pause(3,2,1) [unfolded pause_job_def]]) (auto simp: job_ok_def)
next
  case (resume job_id s r s')
  show ?case
    by (rule status_call_inv [OF resume(3,2,1) [unfolded resume_job_def]]) (auto simp: job_ok_def)
next
  case (cancel job_id s r s')
  show ?case
    by (rule status_call_inv [OF cancel(3,2,1) [unfolded cancel_job_def]]) (auto simp: job_ok_def)
qed (blast intro: create_job_inv start_job_inv delete_job_inv trainer_step_inv)+

lemma reachable_fine_tuning_inv:
  "service_step\<^sup>*\<^sup>* (fine_tuning_new registry) s \<Longrightarrow> fine_tuning_inv s"
  by (induction rule: rtranclp_induct) (auto intro: fine_tuning_inv_new service_step_inv)

section \<open>A noticed pause\<close>

inductive_cases service_stepE: "service_step s s'"

lemma frozen_step:
  assumes "service_step s s'" and "fine_tuning_inv s" and "\<not> jobs_free s"
  shows "ft_jobs s' = ft_jobs s \<and> \<not> jobs_free s'"
  using assms(1)
proof cases
  case (create_refused exists job_id access now config e)
  then show ?thesis using assms(3) by (elim create_job_cases) (simp_all add: jobs_free_def)
next
  case (train i now)
  let ?t = "ft_trainers s ! i"
  have quiet: "\<not> writes ?t" using train assms(3) by blast
  then have jobs: "ft_jobs s' = ft_jobs s"
    unfolding train(1) by (simp add: trainer_step_def run_training_def writes_def Let_def split: trainer_phase.splits)
  obtain j where j: "j < length (ft_trainers s)" "waiting (ft_trainers s ! j)"
    using assms(3) by (auto simp: jobs_free_def list_ex_iff in_set_conv_nth)
  have "waiting (ft_trainers s' ! j)"
  proof (cases "i = j")
    case True
    then obtain job where "hm_get (ft_jobs s) (tr_job_id ?t) = Some job" "fj_status job = JobPaused"
      using assms(2) j by (auto simp: fine_tuning_inv_def task_ok_def)
    with True j show ?thesis
      unfolding train(1)
      by (auto simp: trainer_step_def run_training_def waiting_def check_resume_def Let_def split: trainer_phase.splits)
  next
    case False
    with j show ?thesis unfolding train(1) by (simp add: trainer_step_def split: prod.split)
  qed
  moreover have "j < length (ft_trainers s')" using j unfolding train(1) by (simp add: trainer_step_def split: prod.split)
  ultimately show ?thesis using jobs by (auto simp: jobs_free_def list_ex_iff)
qed (use assms(3) in auto)

section \<open>An undisturbed training run\<close>

definition trainer_runs :: "datetime \<Rightarrow> nat \<Rightarrow> nat \<Rightarrow> fine_tuning_service \<Rightarrow> fine_tuning_service" where
  "trainer_runs now i n s = (trainer_step now i ^^ n) s"

lemma trainer_runs_Suc: "trainer_runs now i (Suc n) s = trainer_step now i (trainer_runs now i n s)"
  by (simp add: trainer_runs_def)

text \<open>Task \<open>i\<close> works on the job with the given entry, at the given phase.\<close>

definition at_phase :: "nat \<Rightarrow> uuid \<Rightarrow> u32 \<Rightarrow> trainer_phase \<Rightarrow> fine_tuning_job \<Rightarrow> fine_tuning_service \<Rightarrow> bool" where
  "at_phase i job_id epochs phase job s \<longleftrightarrow>
     i < length (ft_trainers s) \<and> tr_job_id (ft_trainers s ! i) = job_id \<and>
     fc_epochs (tr_config (ft_trainers s ! i)) = epochs \<and> tr_phase (ft_trainers s ! i) = phase \<and>
     hm_get (ft_jobs s) job_id = Some job"

lemma at_phase_check:
  "at_phase i job_id epochs (Check_Epoch e) job s \<Longrightarrow> fj_status job = JobRunning \<Longrightarrow>
   at_phase i job_id epochs (Train_Epoch e) job (trainer_step now i s)"
  by (simp add: at_phase_def trainer_step_def run_training_def check_epoch_def)

lemma at_phase_train:
  "at_phase i job_id epochs (Train_Epoch e) job s \<Longrightarrow>
   at_phase i job_id epochs (next_phase e epochs) (record_epoch e epochs job) (trainer_step now i s)"
  by (simp add: at_phase_def trainer_step_def run_training_def Let_def)

lemma at_phase_finish:
  "at_phase i job_id epochs Finish_Training job s \<Longrightarrow>
   at_phase i job_id epochs Returned (finish_job now job) (trainer_step now i s)"
  by (simp add: at_phase_def trainer_step_def run_training_def Let_def)

lemma record_epoch_again: "record_epoch a n (record_epoch b n job) = record_epoch a n job"
  by (simp add: record_epoch_def)

text \<open>Two steps per epoch: after \<open>2 * k\<close> steps the check of epoch \<open>k + 1\<close> is next.\<close>

lemma trainer_reaches_epoch:
  assumes "at_phase i job_id epochs (Check_Epoch 1) job s" and "fj_status job = JobRunning"
    and "k < unat epochs"
  shows "\<exists>job'. at_phase i job_id epochs (Check_Epoch (word_of_nat (Suc k))) job' (trainer_runs now i (2 * k) s) \<and>
    fj_status job' = JobRunning \<and>
    (\<forall>e. record_epoch e epochs job' = record_epoch e epochs job)"
  using assms(3)
proof (induction k)
  case 0
  then show ?case using assms(1,2) by (auto simp: trainer_runs_def)
next
  case (Suc k)
  then obtain job' where job':
    "at_phase i job_id epochs (Check_Epoch (word_of_nat (Suc k))) job' (trainer_runs now i (2 * k) s)"
    "fj_status job' = JobRunning" "\<forall>e. record_epoch e epochs job' = record_epoch e epochs job"
    by auto
  let ?e = "word_of_nat (Suc k) :: u32"
  have "unat ?e = Suc k" using Suc.prems unat_bound [of epochs] by (intro unat_of_nat_exact) simp
  then have next_check: "next_phase ?e epochs = Check_Epoch (word_of_nat (Suc (Suc k)))"
    using Suc.prems by (simp add: next_phase_def word_less_nat_alt add.commute)
  have runs: "trainer_runs now i (2 * Suc k) s = trainer_step now i (trainer_step now i (trainer_runs now i (2 * k) s))"
    by (simp add: trainer_runs_def)
  have "at_phase i job_id epochs (Check_Epoch (word_of_nat (Suc (Suc k)))) (record_epoch ?e epochs job')
      (trainer_runs now i (2 * Suc k) s)"
    using at_phase_train [OF at_phase_check [OF job'(1,2), of now], of now] by (simp only: next_check runs)
  moreover have "fj_status (record_epoch ?e epochs job') = JobRunning" using job'(2) by (simp add: record_epoch_def)
  ultimately show ?case using job'(3) by (metis record_epoch_again)
qed

lemma trainer_reaches_last_epoch:
  assumes "at_phase i job_id epochs (Check_Epoch 1) job s" and "fj_status job = JobRunning" and "1 \<le> epochs"
  shows "\<exists>job'. at_phase i job_id epochs (Train_Epoch epochs) job' (trainer_runs now i (2 * unat epochs - 1) s) \<and>
    fj_status job' = JobRunning"
proof -
  have pos: "1 \<le> unat epochs" using assms(3) by (simp add: word_le_nat_alt)
  then obtain job' where job':
    "at_phase i job_id epochs (Check_Epoch (word_of_nat (Suc (unat epochs - 1)))) job'
      (trainer_runs now i (2 * (unat epochs - 1)) s)" "fj_status job' = JobRunning"
    using trainer_reaches_epoch [OF assms(1,2), of "unat epochs - 1" now] by auto
  have "2 * unat epochs - 1 = Suc (2 * (unat epochs - 1))" using pos by simp
  then have "trainer_runs now i (2 * unat epochs - 1) s = trainer_step now i (trainer_runs now i (2 * (unat epochs - 1)) s)"
    by (simp only: trainer_runs_Suc)
  with at_phase_check [OF job', of now] job'(2) pos show ?thesis by auto
qed

lemma trainer_completes:
  assumes "at_phase i job_id epochs (Train_Epoch epochs) job s"
  shows "at_phase i job_id epochs Returned (finish_job now (record_epoch epochs epochs job)) (trainer_runs now i 2 s)"
  using at_phase_finish [of i job_id epochs _ "trainer_step now i s" now] at_phase_train [OF assms, of now]
  by (simp add: trainer_runs_def numeral_2_eq_2 next_phase_def)

lemma start_job_at_phase:
  assumes "hm_get (ft_jobs s) job_id = Some job" and "fj_status job = JobPending"
    and "start_job now job_id s = (r, s1)"
  shows "r = Ok ()"
    and "at_phase (length (ft_trainers s)) job_id (fc_epochs (fj_config job)) (first_phase (fc_epochs (fj_config job)))
      (job\<lparr>fj_status := JobRunning, fj_started_at := Some now\<rparr>) s1"
  using assms by (auto simp: start_job_def on_job_def bind_action_def at_phase_def)

lemma cancel_at_phase:
  assumes "at_phase i job_id epochs phase job s" and "fj_status job = JobRunning"
  shows "\<exists>s'. cancel_job job_id s = (Ok (), s') \<and>
    at_phase i job_id epochs phase (job\<lparr>fj_status := JobCancelled\<rparr>) s'"
  using assms by (simp add: cancel_job_def on_job_def bind_action_def return_action_def at_phase_def)

section \<open>A sample run\<close>

definition sample_config :: fine_tuning_config where
  "sample_config = \<lparr>fc_base_model = ''m'', fc_dataset_path = ''/data'', fc_output_path = ''/out'', fc_epochs = 2,
     fc_batch_size = 8, fc_learning_rate = Fin (1 / 1024), fc_lora_rank = None, fc_lora_alpha = None\<rparr>"

definition sample_registry :: model_registry where
  "sample_registry = \<lparr>mr_models = [(''m'', \<lparr>mm_model_id = ''m'', mm_name = ''m'', mm_architecture = ''llama'',
     mm_parameter_count = 0, mm_context_length = 2048, mm_quantization = ''q4_k_m'', mm_file_size_bytes = 0,
     mm_checksum = [], mm_file_path = ''/c'', mm_cached_nodes = [], mm_registered_at = 0, mm_last_accessed = 0\<rparr>)],
     mr_cache_dir = ''/cache''\<rparr>"

text \<open>A job created, started and paused, before (0) and after (1) its task has noticed.\<close>

definition sample_created :: fine_tuning_service where
  "sample_created = snd (create_job (\<lambda>_. True) 7 0 0 sample_config (fine_tuning_new sample_registry))"

definition sample_started :: fine_tuning_service where
  "sample_started = snd (start_job 0 7 sample_created)"

definition sample_paused :: "nat \<Rightarrow> fine_tuning_service" where
  "sample_paused n = trainer_runs 0 0 n (snd (pause_job 7 sample_started))"

lemma sample_model_found: "\<exists>m registry. get_model 0 ''m'' sample_registry = (Some m, registry)"
  by (simp add: get_model_def Let_def hm_get_modify) (simp add: sample_registry_def hm_get_def)

lemma sample_created_job:
  "hm_get (ft_jobs sample_created) 7 = Some (new_job 7 0 sample_config)" "ft_trainers sample_created = []"
  "fst (create_job (\<lambda>_. True) 7 0 0 sample_config (fine_tuning_new sample_registry)) = Ok 7"
  using sample_model_found
  by (auto simp: sample_created_def create_job_def sample_config_def fine_tuning_new_def)

lemma sample_started_at: "at_phase 0 7 2 (Check_Epoch 1)
    ((new_job 7 0 sample_config)\<lparr>fj_status := JobRunning, fj_started_at := Some 0\<rparr>) sample_started"
  "length (ft_trainers sample_started) = 1"
  using start_job_at_phase(2) [OF sample_created_job(1), of 0 "fst (start_job 0 7 sample_created)" sample_started]
  by (simp_all add: sample_started_def new_job_def sample_created_job sample_config_def first_phase_def
      start_job_def on_job_def bind_action_def)

lemma sample_paused_waits:
  "list_ex waiting (ft_trainers (sample_paused 1))"
  "\<exists>job. hm_get (ft_jobs (sample_paused 1)) 7 = Some job \<and> fc_epochs (fj_config job) = 2"
  using sample_started_at
  by (auto simp: sample_paused_def trainer_runs_def pause_job_def on_job_def bind_action_def return_action_def
      at_phase_def trainer_step_def run_training_def check_epoch_def waiting_def new_job_def sample_config_def
      length_Suc_conv)

lemma sample_paused_reachable: "service_step\<^sup>*\<^sup>* (fine_tuning_new sample_registry) (sample_paused 1)"
proof -
  have "service_step (fine_tuning_new sample_registry) sample_created"
    using sample_created_job(3) unfolding sample_created_def
    by (intro create [OF prod_eqI]) (simp_all add: fresh_job_id_def jobs_free_def fine_tuning_new_def)
  moreover have "service_step sample_created sample_started"
    unfolding sample_started_def using sample_created_job(2)
    by (intro start [OF prod.collapse [symmetric]]) (simp add: jobs_free_def)
  moreover have "service_step sample_started (snd (pause_job 7 sample_started))"
    using sample_started_at
    by (intro pause [OF prod.collapse [symmetric]])
      (auto simp: jobs_free_def at_phase_def waiting_def length_Suc_conv)
  moreover have "service_step (snd (pause_job 7 sample_started)) (sample_paused 1)"
  proof -
    let ?s = "snd (pause_job 7 sample_started)"
    have "ft_trainers ?s = ft_trainers sample_started"
      using sample_started_at(1)
      by (simp add: pause_job_def on_job_def bind_action_def return_action_def at_phase_def new_job_def)
    then have "0 < length (ft_trainers ?s)" "\<not> writes (ft_trainers ?s ! 0)"
      using sample_started_at by (simp_all add: at_phase_def writes_def)
    moreover have "sample_paused 1 = trainer_step 0 0 ?s" by (simp add: sample_paused_def trainer_runs_def)
    ultimately show ?thesis by (simp only:) (rule train, simp_all)
  qed
  ultimately show ?thesis
    by (blast intro: converse_rtranclp_into_rtranclp)
qed

section \<open>Properties\<close>

lemma sample_paused_step: "service_step (sample_paused 1) (sample_paused 2)"
proof -
  obtain t where t: "ft_trainers (sample_paused 1) = [t]" "waiting t"
    using sample_started_at
    by (auto simp: sample_paused_def trainer_runs_def pause_job_def on_job_def bind_action_def return_action_def
        at_phase_def trainer_step_def run_training_def check_epoch_def waiting_def new_job_def sample_config_def
        length_Suc_conv)
  then have "0 < length (ft_trainers (sample_paused 1))" "\<not> writes (ft_trainers (sample_paused 1) ! 0)"
    by (auto simp: waiting_def writes_def split: trainer_phase.splits)
  moreover have "sample_paused 2 = trainer_step 0 0 (sample_paused 1)"
    by (simp add: sample_paused_def trainer_runs_def numeral_2_eq_2)
  ultimately show ?thesis by (simp only:) (rule train, simp_all)
qed

text \<open>
  C24.  The jobs stay well formed: in every reachable state, whatever calls and
  tasks have run, a job's epoch is at most its configured epochs, its progress
  is a number between 0 and 100 and its loss one between 0 and 2 (no \<open>NaN\<close>, with
  every \<open>f32\<close> rounding included), only pending and cancelled jobs have not been
  started, completed jobs have a completion time, and no job is ever failed or
  carries an error.
\<close>
theorem jobs_well_formed:
  assumes "service_step\<^sup>*\<^sup>* (fine_tuning_new registry) s" and "hm_get (ft_jobs s) job_id = Some job"
  shows "fj_id job = job_id \<and> fj_epoch job \<le> fc_epochs (fj_config job) \<and>
    (\<exists>x. fj_progress job = Fin x \<and> 0 \<le> x \<and> x \<le> 100) \<and> (\<exists>l. fj_loss job = Fin l \<and> 0 \<le> l \<and> l \<le> 2) \<and>
    fj_status job \<noteq> JobFailed \<and> fj_error job = None \<and>
    (fj_started_at job = None \<longrightarrow> fj_status job = JobPending \<or> fj_status job = JobCancelled) \<and>
    (fj_status job = JobCompleted \<longrightarrow> fj_completed_at job \<noteq> None)"
proof -
  have "job_ok job_id job"
    using reachable_fine_tuning_inv [OF assms(1)] assms(2) by (simp add: fine_tuning_inv_def)
  then show ?thesis unfolding job_ok_def by auto
qed

theorem jobs_well_formed_witness:
  "\<exists>job. hm_get (ft_jobs (sample_paused 1)) 7 = Some job \<and> fj_epoch job \<le> 2 \<and> fj_status job \<noteq> JobFailed"
  using jobs_well_formed [OF sample_paused_reachable] sample_paused_waits by fastforce

text \<open>
  C9.  A pause that a task notices stops the service for good: the task keeps
  the read lock of the job table while it waits, so no later call that writes
  the table (resume and cancel among them) ever gets its lock, the job it waits
  for stays paused, and the table never changes again.
\<close>
theorem noticed_pause_freezes_service:
  assumes "service_step\<^sup>*\<^sup>* (fine_tuning_new registry) s" and "list_ex waiting (ft_trainers s)"
    and "service_step\<^sup>*\<^sup>* s s'"
  shows "ft_jobs s' = ft_jobs s \<and> \<not> jobs_free s' \<and>
    (\<exists>t \<in> set (ft_trainers s'). waiting t \<and>
      (\<exists>job. hm_get (ft_jobs s') (tr_job_id t) = Some job \<and> fj_status job = JobPaused))"
proof -
  have inv: "fine_tuning_inv s" using reachable_fine_tuning_inv assms(1) by blast
  have "ft_jobs s' = ft_jobs s \<and> \<not> jobs_free s' \<and> fine_tuning_inv s'"
    using assms(3)
  proof (induction rule: rtranclp_induct)
    case base
    then show ?case using assms(2) inv by (simp add: jobs_free_def)
  next
    case (step y z)
    then show ?case using frozen_step service_step_inv by metis
  qed
  moreover from this obtain t where "t \<in> set (ft_trainers s')" "waiting t"
    by (auto simp: jobs_free_def list_ex_iff)
  ultimately show ?thesis unfolding fine_tuning_inv_def task_ok_def by blast
qed

theorem noticed_pause_freezes_service_witness:
  "ft_jobs (sample_paused 2) = ft_jobs (sample_paused 1) \<and> \<not> jobs_free (sample_paused 2)"
  using noticed_pause_freezes_service [OF sample_paused_reachable sample_paused_waits(1)
      r_into_rtranclp [of service_step, OF sample_paused_step]]
  by blast

text \<open>
  C31.  Training ends: a job that is started and then left alone is completed
  after two steps of its task per epoch and one more, with progress 100, all
  its epochs and loss 0.  But a cancellation during the last epoch, though it
  is acknowledged, is overwritten: the job ends completed.
\<close>
theorem training_completes:
  assumes "hm_get (ft_jobs s) job_id = Some job" and "fj_status job = JobPending"
    and "start_job now job_id s = (r, s1)" and "i = length (ft_trainers s)"
    and "epochs = fc_epochs (fj_config job)" and "1 \<le> epochs"
  shows "r = Ok () \<and>
    (\<exists>job'. hm_get (ft_jobs (trainer_runs later i (2 * unat epochs + 1) s1)) job_id = Some job' \<and>
      fj_status job' = JobCompleted \<and> fj_progress job' = Fin 100 \<and> fj_epoch job' = epochs \<and> fj_loss job' = Fin 0) \<and>
    (\<exists>s2 job'. cancel_job job_id (trainer_runs later i (2 * unat epochs - 1) s1) = (Ok (), s2) \<and>
      hm_get (ft_jobs (trainer_runs later i 2 s2)) job_id = Some job' \<and> fj_status job' = JobCompleted)"
proof -
  have started: "r = Ok ()" "at_phase i job_id epochs (Check_Epoch 1)
      (job\<lparr>fj_status := JobRunning, fj_started_at := Some now\<rparr>) s1"
    using start_job_at_phase [OF assms(1-3)] assms(4-6) by (simp_all add: first_phase_def)
  obtain job1 where last: "at_phase i job_id epochs (Train_Epoch epochs) job1 (trainer_runs later i (2 * unat epochs - 1) s1)"
      "fj_status job1 = JobRunning"
    using trainer_reaches_last_epoch [OF started(2) _ assms(6)] by auto
  have "2 * unat epochs + 1 = Suc (Suc (2 * unat epochs - 1))"
    using assms(6) by (simp add: word_le_nat_alt)
  then have "trainer_runs later i (2 * unat epochs + 1) s1 =
      trainer_runs later i 2 (trainer_runs later i (2 * unat epochs - 1) s1)"
    by (simp only: trainer_runs_Suc numeral_2_eq_2) (simp add: trainer_runs_def)
  then have "at_phase i job_id epochs Returned (finish_job later (record_epoch epochs epochs job1))
      (trainer_runs later i (2 * unat epochs + 1) s1)"
    using trainer_completes [OF last(1), of later] by simp
  then have "hm_get (ft_jobs (trainer_runs later i (2 * unat epochs + 1) s1)) job_id =
      Some (finish_job later (record_epoch epochs epochs job1))"
    by (simp add: at_phase_def)
  moreover obtain s2 where "cancel_job job_id (trainer_runs later i (2 * unat epochs - 1) s1) = (Ok (), s2)"
      "at_phase i job_id epochs (Train_Epoch epochs) (job1\<lparr>fj_status := JobCancelled\<rparr>) s2"
    using cancel_at_phase [OF last] by blast
  moreover from this(2) trainer_completes have "at_phase i job_id epochs Returned
      (finish_job later (record_epoch epochs epochs (job1\<lparr>fj_status := JobCancelled\<rparr>))) (trainer_runs later i 2 s2)"
    by blast
  then have "hm_get (ft_jobs (trainer_runs later i 2 s2)) job_id =
      Some (finish_job later (record_epoch epochs epochs (job1\<lparr>fj_status := JobCancelled\<rparr>)))"
    by (simp add: at_phase_def)
  ultimately show ?thesis
    using started(1) record_last_epoch(2) [OF assms(6), of job1] by (auto simp: finish_job_def) (simp_all add: record_epoch_def)
qed

theorem training_completes_witness:
  "\<exists>job. hm_get (ft_jobs (trainer_runs 9 0 5 sample_started)) 7 = Some job \<and> fj_status job = JobCompleted"
proof -
  have pending: "fj_status (new_job 7 0 sample_config) = JobPending" by (simp add: new_job_def)
  have start: "start_job 0 7 sample_created = (fst (start_job 0 7 sample_created), sample_started)"
    by (simp add: sample_started_def)
  have trainers: "0 = length (ft_trainers sample_created)" by (simp add: sample_created_job)
  have epochs: "2 = fc_epochs (fj_config (new_job 7 0 sample_config))" by (simp add: new_job_def sample_config_def)
  have positive: "1 \<le> (2 :: u32)" by simp
  have steps: "2 * unat (2 :: u32) + 1 = 5" by simp
  from training_completes [OF sample_created_job(1) pending start trainers epochs positive, of 9, unfolded steps]
  show ?thesis by blast
qed

end
