(* ===== verification/Runtime_Interface.thy ===== *)
theory Runtime_Interface
  imports Bytes Cluster_Types
begin

text \<open>
  What the five runtime adapters under \<open>runtimes/\<close> have in common: each answers
  \<open>load_shard\<close>, \<open>allocate_tensor\<close>, \<open>execute_stage\<close>, \<open>transfer_tensor\<close> and \<open>unload\<close>
  with simulated work.  A simulated wait is \<open>tokio::time::sleep\<close>; the duration
  measured after it is the parameter \<open>elapsed\<close>, from the milliseconds asked for
  to the nanoseconds measured.  Counters and histograms have no state the code
  reads.

  The contract of an adapter is the locale \<open>stage_runtime\<close>; a pipeline of stages
  run on one adapter is analysed in it once for all five.
\<close>

section \<open>Sizes and times\<close>

text \<open>\<open>input_tensors.iter().map(|t| t.size).sum()\<close>.\<close>

definition total_bytes :: "tensor_handle list \<Rightarrow> u64" where
  "total_bytes ts = sum_list (map th_size ts)"

text \<open>\<open>(bytes / rate) as u32\<close>, and the same clamped by \<open>.max(lo).min(hi)\<close>.\<close>

definition time_ms :: "u64 \<Rightarrow> u64 \<Rightarrow> u32" where
  "time_ms rate bytes = ucast (bytes div rate)"

definition clamped_ms :: "u32 \<Rightarrow> u32 \<Rightarrow> u64 \<Rightarrow> u64 \<Rightarrow> u32" where
  "clamped_ms lo hi rate bytes = min (max (time_ms rate bytes) lo) hi"

text \<open>\<open>start.elapsed().as_millis() as u32\<close> after a sleep.\<close>

definition measured_ms :: "(u64 \<Rightarrow> nat) \<Rightarrow> u32 \<Rightarrow> u32" where
  "measured_ms elapsed ms = word_of_nat (elapsed (ucast ms) div 1000000)"

text \<open>\<open>sleep\<close> never returns early.\<close>

definition honest_clock :: "(u64 \<Rightarrow> nat) \<Rightarrow> bool" where
  "honest_clock elapsed \<longleftrightarrow> (\<forall>ms. 1000000 * unat ms \<le> elapsed ms)"

text \<open>The output of a stage: one tensor named after it, as large as its inputs together.\<close>

definition stage_tensor :: "u32 \<Rightarrow> string \<Rightarrow> u64 \<Rightarrow> tensor_handle" where
  "stage_tensor stage_id dev bytes =
     \<lparr>th_tensor_id = ''stage_'' @ digits (unat stage_id) @ ''_output_0'', th_device = dev,
      th_offset = 0, th_size = bytes\<rparr>"

definition size_text :: "string \<Rightarrow> u64 \<Rightarrow> u64 \<Rightarrow> string" where
  "size_text limit_name bytes limit =
     ''Tensor size '' @ digits (unat bytes) @ '' exceeds '' @ limit_name @ '' '' @ digits (unat limit)"

lemma clamped_ms_bounds:
  assumes "lo \<le> hi"
  shows "unat lo \<le> unat (clamped_ms lo hi rate bytes)" "unat (clamped_ms lo hi rate bytes) \<le> unat hi"
  using assms by (simp_all add: clamped_ms_def word_le_nat_alt [symmetric])

lemma clamped_ms_exact:
  assumes "unat bytes div unat rate < 2 ^ 32"
  shows "unat (clamped_ms lo hi rate bytes) = min (max (unat bytes div unat rate) (unat lo)) (unat hi)"
proof -
  have "unat (time_ms rate bytes) = unat bytes div unat rate"
    using assms by (simp add: time_ms_def unat_div unsigned_ucast_eq take_bit_nat_eq_self)
  then show ?thesis
    by (simp add: clamped_ms_def min_def max_def word_le_nat_alt)
qed

lemma measured_ms_exact:
  assumes "elapsed (ucast ms) div 1000000 < 2 ^ 32"
  shows "unat (measured_ms elapsed ms) = elapsed (ucast ms) div 1000000"
  using assms unfolding measured_ms_def by (intro unat_of_nat_exact) simp

lemma measured_ms_at_least:
  assumes "honest_clock elapsed" and "elapsed (ucast ms) div 1000000 < 2 ^ 32"
  shows "unat ms \<le> unat (measured_ms elapsed ms)"
proof -
  have "unat (ucast ms :: u64) = unat ms" by (simp add: unsigned_ucast_eq take_bit_nat_eq_self unat_bound [THEN less_trans])
  then have "1000000 * unat ms \<le> elapsed (ucast ms)" using assms(1) by (metis honest_clock_def)
  then have "unat ms \<le> elapsed (ucast ms) div 1000000" by (simp add: less_eq_div_iff_mult_less_eq mult.commute)
  then show ?thesis using measured_ms_exact [of elapsed ms] assms(2) by simp
qed

section \<open>The contract of an adapter\<close>

text \<open>
  \<open>ready\<close>: the device can be used; \<open>admits\<close>: the tensor sizes it allocates;
  \<open>compute\<close>: the simulated milliseconds for a number of input bytes, between
  \<open>lo\<close> and \<open>hi\<close>.
\<close>

locale stage_runtime =
  fixes ready :: "'r \<Rightarrow> bool"
    and backend :: "'r \<Rightarrow> runtime_backend"
    and device :: "'r \<Rightarrow> string"
    and admits :: "u64 \<Rightarrow> bool"
    and compute :: "u64 \<Rightarrow> u32"
    and lo hi :: nat
    and load :: "'r \<Rightarrow> model_shard_spec \<Rightarrow> ('e, shard_handle) outcome"
    and alloc :: "'r \<Rightarrow> tensor_spec \<Rightarrow> ('e, tensor_handle) outcome"
    and exec :: "(u64 \<Rightarrow> nat) \<Rightarrow> 'r \<Rightarrow> stage_execution \<Rightarrow> ('e, stage_output) outcome"
    and transfer :: "(u64 \<Rightarrow> nat) \<Rightarrow> 'r \<Rightarrow> tensor_transfer \<Rightarrow> ('e, transfer_receipt) outcome"
  assumes load_ready: "ready r \<Longrightarrow> load r spec = Ok \<lparr>sd_shard_id = ms_shard_id spec, sd_backend = backend r\<rparr>"
    and load_refused: "\<not> ready r \<Longrightarrow> \<exists>e. load r spec = Err e"
    and alloc_admitted: "ready r \<Longrightarrow> admits (tc_bytes tspec) \<Longrightarrow> alloc r tspec =
      Ok \<lparr>th_tensor_id = tc_tensor_id tspec, th_device = device r, th_offset = 0, th_size = tc_bytes tspec\<rparr>"
    and alloc_refused: "\<not> (ready r \<and> admits (tc_bytes tspec)) \<Longrightarrow> \<exists>e. alloc r tspec = Err e"
    and exec_ready: "ready r \<Longrightarrow> exec elapsed r req =
      Ok \<lparr>so_stage_id = sx_stage_id req,
          so_output_tensors = [stage_tensor (sx_stage_id req) (device r) (total_bytes (sx_input_tensors req))],
          so_execution_time_ms = measured_ms elapsed (compute (total_bytes (sx_input_tensors req)))\<rparr>"
    and exec_refused: "\<not> ready r \<Longrightarrow> \<exists>e. exec elapsed r req = Err e"
    and transfer_done: "\<exists>t. transfer elapsed r move =
      Ok \<lparr>rt_tensor_id = tt_tensor_id move, rt_bytes_transferred = tt_bytes move, rt_transfer_time_ms = t\<rparr>"
    and compute_bounds: "lo \<le> unat (compute b)" "unat (compute b) \<le> hi"

text \<open>
  A client of the interface: stages run one after the other, each on the outputs
  of the one before.  The repository has no such loop over an adapter yet (its
  executor only marks the stages), so this models no code; it states what the
  adapters are for.
\<close>

fun chain_stages ::
  "(stage_execution \<Rightarrow> ('e, stage_output) outcome) \<Rightarrow> u32 list \<Rightarrow> tensor_handle list \<Rightarrow>
   ('e, tensor_handle list) outcome" where
  "chain_stages run [] inputs = Ok inputs"
| "chain_stages run (stage_id # stages) inputs =
     bind_outcome (run \<lparr>sx_stage_id = stage_id, sx_input_tensors = inputs\<rparr>)
       (\<lambda>out. chain_stages run stages (so_output_tensors out))"

lemma total_bytes_single [simp]: "total_bytes [stage_tensor i dev b] = b"
  by (simp add: total_bytes_def stage_tensor_def)

text \<open>The word sum is the sum of the sizes modulo \<open>2 ^ 64\<close>, exact as long as it fits.\<close>

lemma total_bytes_unat: "unat (total_bytes ts) = (\<Sum>t\<leftarrow>ts. unat (th_size t)) mod 2 ^ 64"
proof (induction ts)
  case (Cons t ts)
  then show ?case by (simp add: total_bytes_def unat_word_ariths(1) mod_add_right_eq)
qed (simp add: total_bytes_def)

context stage_runtime begin

lemma no_panic:
  "load r spec \<noteq> Panic p" "alloc r tspec \<noteq> Panic p" "exec elapsed r req \<noteq> Panic p"
  "transfer elapsed r move \<noteq> Panic p"
proof -
  show "load r spec \<noteq> Panic p" using load_ready [of r spec] load_refused [of r spec] by (cases "ready r") auto
  show "alloc r tspec \<noteq> Panic p"
    using alloc_admitted [of r tspec] alloc_refused [of r tspec] by (cases "ready r \<and> admits (tc_bytes tspec)") auto
  show "exec elapsed r req \<noteq> Panic p"
    using exec_ready [of r elapsed req] exec_refused [of r elapsed req] by (cases "ready r") auto
  show "transfer elapsed r move \<noteq> Panic p" using transfer_done [of elapsed r move] by auto
qed

lemma alloc_iff: "is_ok (alloc r tspec) \<longleftrightarrow> ready r \<and> admits (tc_bytes tspec)"
  using alloc_admitted [of r tspec] alloc_refused [of r tspec]
  by (cases "ready r \<and> admits (tc_bytes tspec)") auto

text \<open>A pipeline on a ready adapter yields one tensor with the bytes it started from.\<close>

lemma stages_conserve_bytes:
  assumes "ready r" and "stages \<noteq> []"
  shows "chain_stages (exec elapsed r) stages inputs =
    Ok [stage_tensor (last stages) (device r) (total_bytes inputs)]"
  using assms(2)
proof (induction stages arbitrary: inputs)
  case (Cons stage_id stages)
  then show ?case by (cases "stages = []") (simp_all add: exec_ready [OF assms(1)])
qed simp

lemma stages_refused:
  assumes "\<not> ready r" and "stages \<noteq> []"
  shows "\<exists>e. chain_stages (exec elapsed r) stages inputs = Err e"
  using assms(2) exec_refused [OF assms(1)] by (cases stages) fastforce+

lemma execution_time_bounds:
  assumes "exec elapsed r req = Ok out" and "honest_clock elapsed"
    and "\<forall>ms. unat ms \<le> hi \<longrightarrow> elapsed ms < 1000000 * 2 ^ 32"
  shows "lo \<le> unat (so_execution_time_ms out)"
proof -
  let ?c = "compute (total_bytes (sx_input_tensors req))"
  have "ready r" using assms(1) exec_refused [of r elapsed req] by auto
  then have out: "so_execution_time_ms out = measured_ms elapsed ?c" using assms(1) exec_ready by auto
  have "unat (ucast ?c :: u64) = unat ?c"
    by (simp add: unsigned_ucast_eq take_bit_nat_eq_self unat_bound [THEN less_trans])
  then have "elapsed (ucast ?c) < 1000000 * 2 ^ 32" using assms(3) compute_bounds(2) by simp
  then have "elapsed (ucast ?c) div 1000000 < 2 ^ 32" by (simp add: div_less_iff_less_mult mult.commute)
  then show ?thesis using measured_ms_at_least [OF assms(2)] compute_bounds(1) out by (metis le_trans)
qed

end

end
