(* ===== verification/Runtime_Host.thy ===== *)
theory Runtime_Host
  imports Runtime_Interface Gguf
begin

text \<open>
  The two adapters that need no device: \<open>runtimes/cpu/src/lib.rs\<close> and
  \<open>runtimes/ggml/src/lib.rs\<close>.  The GGML adapter also loads GGUF files (\<open>Gguf\<close>) and
  a tokenizer; the crate \<open>tokenizers\<close> is the parameter record \<open>tokenizer_lib\<close>.
\<close>

section \<open>CPU\<close>

record cpu_runtime =
  cpu_backend :: runtime_backend

record cpu_runtime_capabilities =
  cq_backend :: runtime_backend
  cq_supported_dtypes :: "string list"
  cq_supported_precisions :: "string list"
  cq_max_tensor_size :: u64
  cq_supports_simd :: bool
  cq_supports_multithreading :: bool

datatype cpu_error =
    Cpu_ModelLoadFailed string
  | Cpu_TensorAllocationFailed string
  | Cpu_StageExecutionFailed string
  | Cpu_TensorTransferFailed string
  | Cpu_UnsupportedOperation string
  | Cpu_Internal string

definition cpu_new :: cpu_runtime where
  "cpu_new = \<lparr>cpu_backend = CPU\<rparr>"

definition cpu_probe :: "cpu_runtime \<Rightarrow> cpu_runtime_capabilities" where
  "cpu_probe r = \<lparr>cq_backend = cpu_backend r,
     cq_supported_dtypes = [''f32'', ''f16'', ''i8'', ''i4''],
     cq_supported_precisions = [''fp32'', ''fp16'', ''int8'', ''int4''],
     cq_max_tensor_size = 32 * 1024 * 1024 * 1024,
     cq_supports_simd = True, cq_supports_multithreading = True\<rparr>"

definition cpu_load_time_ms :: "model_shard_spec \<Rightarrow> u32" where
  "cpu_load_time_ms spec = time_ms (50 * 1024 * 1024) (ms_bytes spec)"

definition cpu_load_shard :: "cpu_runtime \<Rightarrow> model_shard_spec \<Rightarrow> (cpu_error, shard_handle) outcome" where
  "cpu_load_shard r spec = Ok \<lparr>sd_shard_id = ms_shard_id spec, sd_backend = cpu_backend r\<rparr>"

definition cpu_allocate_tensor :: "cpu_runtime \<Rightarrow> tensor_spec \<Rightarrow> (cpu_error, tensor_handle) outcome" where
  "cpu_allocate_tensor r spec =
     (if tc_bytes spec = 0 then Err (Cpu_TensorAllocationFailed ''Tensor size cannot be zero'')
      else Ok \<lparr>th_tensor_id = tc_tensor_id spec, th_device = ''cpu:0'', th_offset = 0, th_size = tc_bytes spec\<rparr>)"

definition cpu_compute_ms :: "u64 \<Rightarrow> u32" where
  "cpu_compute_ms = clamped_ms 1 1000 (100 * 1024 * 1024)"

definition cpu_execute_stage ::
  "(u64 \<Rightarrow> nat) \<Rightarrow> cpu_runtime \<Rightarrow> stage_execution \<Rightarrow> (cpu_error, stage_output) outcome" where
  "cpu_execute_stage elapsed r request =
     (let total = total_bytes (sx_input_tensors request)
      in Ok \<lparr>so_stage_id = sx_stage_id request,
             so_output_tensors = [stage_tensor (sx_stage_id request) ''cpu:0'' total],
             so_execution_time_ms = measured_ms elapsed (cpu_compute_ms total)\<rparr>)"

definition cpu_transfer_tensor ::
  "(u64 \<Rightarrow> nat) \<Rightarrow> cpu_runtime \<Rightarrow> tensor_transfer \<Rightarrow> (cpu_error, transfer_receipt) outcome" where
  "cpu_transfer_tensor elapsed r request =
     Ok \<lparr>rt_tensor_id = tt_tensor_id request, rt_bytes_transferred = tt_bytes request,
         rt_transfer_time_ms = measured_ms elapsed (clamped_ms 1 2000 (50 * 1024 * 1024) (tt_bytes request))\<rparr>"

definition cpu_unload :: "cpu_runtime \<Rightarrow> shard_handle \<Rightarrow> (cpu_error, unit) outcome" where
  "cpu_unload r handle = Ok ()"

interpretation cpu: stage_runtime "\<lambda>_. True" cpu_backend "\<lambda>_. ''cpu:0''" "\<lambda>b. b \<noteq> 0" cpu_compute_ms 1 1000
    cpu_load_shard cpu_allocate_tensor cpu_execute_stage cpu_transfer_tensor
  using clamped_ms_bounds [of 1 1000 "100 * 1024 * 1024"]
  by unfold_locales
    (simp_all add: cpu_load_shard_def cpu_allocate_tensor_def cpu_execute_stage_def cpu_transfer_tensor_def
      cpu_compute_ms_def Let_def)

section \<open>GGML\<close>

record 't tokenizer_lib =
  tk_from_file :: "string \<Rightarrow> string + 't"
  tk_encode :: "'t \<Rightarrow> string \<Rightarrow> string + u32 list"
  tk_decode :: "'t \<Rightarrow> u32 list \<Rightarrow> string + string"

record 't ggml_runtime =
  gr_backend :: runtime_backend
  gr_loaded_models :: "string list"
  gr_tokenizer :: "'t option"

record ggml_capabilities =
  gq_backend :: runtime_backend
  gq_supported_dtypes :: "string list"
  gq_max_tensor_size :: u64
  gq_supports_gpu :: bool
  gq_supports_cpu :: bool
  gq_supports_multi_gpu :: bool

record ggml_metrics =
  gx_loaded_models :: usize
  gx_allocated_tensors :: usize
  gx_memory_used_bytes :: u64
  gx_gpu_memory_used_bytes :: u64

text \<open>\<open>Ggml_ModelLoadFailed\<close> holds the parser's error its message is made from.\<close>

datatype ggml_error =
    Ggml_ModelLoadFailed gguf_error
  | Ggml_TensorAllocationFailed string
  | Ggml_StageExecutionFailed string
  | Ggml_TensorTransferFailed string
  | Ggml_UnsupportedOperation string
  | Ggml_Internal string
  | Ggml_TokenizerLoadFailed string
  | Ggml_TokenizerNotLoaded
  | Ggml_TokenizationFailed string
  | Ggml_DetokenizationFailed string

definition ggml_new :: "'t ggml_runtime" where
  "ggml_new = \<lparr>gr_backend = GGML, gr_loaded_models = [], gr_tokenizer = None\<rparr>"

definition ggml_load_tokenizer ::
  "'t tokenizer_lib \<Rightarrow> string \<Rightarrow> ('t ggml_runtime, ggml_error, unit) action" where
  "ggml_load_tokenizer lib path r =
     (case tk_from_file lib path of
        Inl e \<Rightarrow> (Err (Ggml_TokenizerLoadFailed e), r)
      | Inr t \<Rightarrow> (Ok (), r\<lparr>gr_tokenizer := Some t\<rparr>))"

definition ggml_tokenize ::
  "'t tokenizer_lib \<Rightarrow> 't ggml_runtime \<Rightarrow> string \<Rightarrow> (ggml_error, u32 list) outcome" where
  "ggml_tokenize lib r txt =
     bind_outcome (ok_or Ggml_TokenizerNotLoaded (gr_tokenizer r)) (\<lambda>t.
       case tk_encode lib t txt of Inl e \<Rightarrow> Err (Ggml_TokenizationFailed e) | Inr ids \<Rightarrow> Ok ids)"

definition ggml_detokenize ::
  "'t tokenizer_lib \<Rightarrow> 't ggml_runtime \<Rightarrow> u32 list \<Rightarrow> (ggml_error, string) outcome" where
  "ggml_detokenize lib r tokens =
     bind_outcome (ok_or Ggml_TokenizerNotLoaded (gr_tokenizer r)) (\<lambda>t.
       case tk_decode lib t tokens of Inl e \<Rightarrow> Err (Ggml_DetokenizationFailed e) | Inr s \<Rightarrow> Ok s)"

definition ggml_detect_gpu_support :: "'t ggml_runtime \<Rightarrow> bool" where
  "ggml_detect_gpu_support r = False"

definition ggml_probe :: "'t ggml_runtime \<Rightarrow> ggml_capabilities" where
  "ggml_probe r = \<lparr>gq_backend = gr_backend r,
     gq_supported_dtypes = [''f32'', ''f16'', ''q4_0'', ''q4_1'', ''q5_0'', ''q5_1'', ''q8_0'', ''q8_1'',
       ''q4_k_m'', ''q4_k_s'', ''q5_k_m'', ''q5_k_s'', ''q6_k'', ''q8_k''],
     gq_max_tensor_size = 16 * 1024 * 1024 * 1024,
     gq_supports_gpu = ggml_detect_gpu_support r, gq_supports_cpu = True, gq_supports_multi_gpu = False\<rparr>"

definition ggml_load_time_ms :: "model_shard_spec \<Rightarrow> u32" where
  "ggml_load_time_ms spec = time_ms (10 * 1024 * 1024) (ms_bytes spec)"

definition ggml_load_shard :: "'t ggml_runtime \<Rightarrow> model_shard_spec \<Rightarrow> (ggml_error, shard_handle) outcome" where
  "ggml_load_shard r spec = Ok \<lparr>sd_shard_id = ms_shard_id spec, sd_backend = gr_backend r\<rparr>"

definition ggml_allocate_tensor :: "'t ggml_runtime \<Rightarrow> tensor_spec \<Rightarrow> (ggml_error, tensor_handle) outcome" where
  "ggml_allocate_tensor r spec =
     (let max_tensor_size = 16 * 1024 * 1024 * 1024
      in if tc_bytes spec = 0 then Err (Ggml_TensorAllocationFailed ''Tensor size cannot be zero'')
         else if max_tensor_size < tc_bytes spec then
           Err (Ggml_TensorAllocationFailed (size_text ''maximum'' (tc_bytes spec) max_tensor_size))
         else
           (let device = (if 512 * 1024 * 1024 < tc_bytes spec then ''cpu:0''
                          else if ggml_detect_gpu_support r then ''cuda:0'' else ''cpu:0'')
            in Ok \<lparr>th_tensor_id = tc_tensor_id spec, th_device = device, th_offset = 0, th_size = tc_bytes spec\<rparr>))"

definition ggml_compute_ms :: "u64 \<Rightarrow> u32" where
  "ggml_compute_ms = clamped_ms 5 1000 (100 * 1024 * 1024)"

definition ggml_execute_stage ::
  "(u64 \<Rightarrow> nat) \<Rightarrow> 't ggml_runtime \<Rightarrow> stage_execution \<Rightarrow> (ggml_error, stage_output) outcome" where
  "ggml_execute_stage elapsed r request =
     (let total = total_bytes (sx_input_tensors request)
      in Ok \<lparr>so_stage_id = sx_stage_id request,
             so_output_tensors = [stage_tensor (sx_stage_id request) ''cpu:0'' total],
             so_execution_time_ms = measured_ms elapsed (ggml_compute_ms total)\<rparr>)"

definition ggml_transfer_tensor ::
  "(u64 \<Rightarrow> nat) \<Rightarrow> 't ggml_runtime \<Rightarrow> tensor_transfer \<Rightarrow> (ggml_error, transfer_receipt) outcome" where
  "ggml_transfer_tensor elapsed r request =
     Ok \<lparr>rt_tensor_id = tt_tensor_id request, rt_bytes_transferred = tt_bytes request,
         rt_transfer_time_ms = measured_ms elapsed (clamped_ms 1 5000 (50 * 1024 * 1024) (tt_bytes request))\<rparr>"

definition ggml_unload :: "'t ggml_runtime \<Rightarrow> shard_handle \<Rightarrow> (ggml_error, unit) outcome" where
  "ggml_unload r handle = Ok ()"

definition ggml_runtime_metrics :: "'t ggml_runtime \<Rightarrow> ggml_metrics" where
  "ggml_runtime_metrics r = \<lparr>gx_loaded_models = word_of_nat (length (gr_loaded_models r)),
     gx_allocated_tensors = 0, gx_memory_used_bytes = 0, gx_gpu_memory_used_bytes = 0\<rparr>"

text \<open>Loads the file at a path, given the bytes it holds.\<close>

definition ggml_load_gguf ::
  "machine \<Rightarrow> string \<Rightarrow> u8 list \<Rightarrow> ('t ggml_runtime, ggml_error, gguf_model) action" where
  "ggml_load_gguf mc path content r =
     (case parse mc content of
        Ok model \<Rightarrow> (Ok model, r\<lparr>gr_loaded_models := gr_loaded_models r @ [path]\<rparr>)
      | Err e \<Rightarrow> (Err (Ggml_ModelLoadFailed e), r)
      | Panic p \<Rightarrow> (Panic p, r))"

interpretation ggml: stage_runtime "\<lambda>_. True" gr_backend "\<lambda>_. ''cpu:0''"
    "\<lambda>b. b \<noteq> 0 \<and> b \<le> 16 * 1024 * 1024 * 1024" ggml_compute_ms 5 1000
    ggml_load_shard ggml_allocate_tensor ggml_execute_stage ggml_transfer_tensor
  using clamped_ms_bounds [of 5 1000 "100 * 1024 * 1024"]
  by unfold_locales
    (auto simp: ggml_load_shard_def ggml_allocate_tensor_def ggml_execute_stage_def ggml_transfer_tensor_def
      ggml_compute_ms_def ggml_detect_gpu_support_def Let_def)

end
