(* ===== verification/Runtime_Gpu.thy ===== *)
theory Runtime_Gpu
  imports Runtime_Host "HOL-Library.Sublist"
begin

text \<open>
  The three adapters for accelerators: \<open>runtimes/cuda/src/lib.rs\<close>,
  \<open>runtimes/rocm/src/lib.rs\<close> and \<open>runtimes/mlx/src/lib.rs\<close>.  What
  \<open>CudaDevice::new\<close> returns is an argument; the availability checks of ROCm and
  MLX are constants of the source.  Every operation takes its read lock again in
  \<open>get_device_info\<close>; nothing ever takes the write lock.
\<close>

section \<open>CUDA\<close>

record 'd cuda_runtime =
  cu_backend :: runtime_backend
  cu_device :: "'d option"
  cu_device_id :: usize

record cuda_device_info =
  cdi_name :: string
  cdi_compute_capability :: string
  cdi_total_memory :: u64
  cdi_multiprocessor_count :: u32
  cdi_max_threads_per_block :: u32
  cdi_max_threads_per_multiprocessor :: u32
  cdi_warp_size :: u32

record cuda_capabilities =
  ccq_backend :: runtime_backend
  ccq_supported_dtypes :: "string list"
  ccq_supported_precisions :: "string list"
  ccq_max_tensor_size :: u64
  ccq_supports_flash_attention :: bool
  ccq_supports_tensor_cores :: bool

datatype cuda_error =
    Cuda_DeviceNotInitialized
  | Cuda_DriverError string
  | Cuda_ModelLoadFailed string
  | Cuda_TensorAllocationFailed string
  | Cuda_StageExecutionFailed string
  | Cuda_TensorTransferFailed string
  | Cuda_UnsupportedOperation string
  | Cuda_Internal string

definition cuda_new :: "usize \<Rightarrow> string + 'd \<Rightarrow> (cuda_error, 'd cuda_runtime) outcome" where
  "cuda_new device_id dev = Ok \<lparr>cu_backend = CUDA,
     cu_device = (case dev of Inl _ \<Rightarrow> None | Inr d \<Rightarrow> Some d), cu_device_id = device_id\<rparr>"

definition cuda_is_available :: "'d cuda_runtime \<Rightarrow> bool" where
  "cuda_is_available r \<longleftrightarrow> (cu_device r \<noteq> None)"

definition cuda_get_device_info :: "'d cuda_runtime \<Rightarrow> (cuda_error, cuda_device_info) outcome" where
  "cuda_get_device_info r =
     (if \<not> (cu_device r \<noteq> None) then Err Cuda_DeviceNotInitialized
      else Ok \<lparr>cdi_name = ''NVIDIA GPU '' @ digits (unat (cu_device_id r)), cdi_compute_capability = ''8.0'',
        cdi_total_memory = 16 * 1024 * 1024 * 1024, cdi_multiprocessor_count = 28, cdi_max_threads_per_block = 1024,
        cdi_max_threads_per_multiprocessor = 2048, cdi_warp_size = 32\<rparr>)"

definition cuda_probe :: "'d cuda_runtime \<Rightarrow> cuda_capabilities" where
  "cuda_probe r = \<lparr>ccq_backend = cu_backend r,
     ccq_supported_dtypes = [''f32'', ''f16'', ''bf16'', ''i8'', ''i4''],
     ccq_supported_precisions = [''fp32'', ''fp16'', ''bf16'', ''int8'', ''int4''],
     ccq_max_tensor_size = 16 * 1024 * 1024 * 1024,
     ccq_supports_flash_attention = True, ccq_supports_tensor_cores = True\<rparr>"

definition cuda_load_time_ms :: "model_shard_spec \<Rightarrow> u32" where
  "cuda_load_time_ms spec = time_ms (100 * 1024 * 1024) (ms_bytes spec)"

definition cuda_load_shard :: "'d cuda_runtime \<Rightarrow> model_shard_spec \<Rightarrow> (cuda_error, shard_handle) outcome" where
  "cuda_load_shard r spec =
     (if \<not> (cu_device r \<noteq> None) then Err Cuda_DeviceNotInitialized
      else Ok \<lparr>sd_shard_id = ms_shard_id spec, sd_backend = cu_backend r\<rparr>)"

definition cuda_allocate_tensor :: "'d cuda_runtime \<Rightarrow> tensor_spec \<Rightarrow> (cuda_error, tensor_handle) outcome" where
  "cuda_allocate_tensor r spec =
     (if \<not> (cu_device r \<noteq> None) then Err Cuda_DeviceNotInitialized
      else if tc_bytes spec = 0 then Err (Cuda_TensorAllocationFailed ''Tensor size cannot be zero'')
      else bind_outcome (cuda_get_device_info r) (\<lambda>device_info.
        if cdi_total_memory device_info < tc_bytes spec then
          Err (Cuda_TensorAllocationFailed (size_text ''GPU memory'' (tc_bytes spec) (cdi_total_memory device_info)))
        else Ok \<lparr>th_tensor_id = tc_tensor_id spec, th_device = ''cuda:'' @ digits (unat (cu_device_id r)), th_offset = 0, th_size = tc_bytes spec\<rparr>))"

definition cuda_compute_ms :: "u64 \<Rightarrow> u32" where
  "cuda_compute_ms = clamped_ms 1 500 (500 * 1024 * 1024)"

definition cuda_execute_stage ::
  "(u64 \<Rightarrow> nat) \<Rightarrow> 'd cuda_runtime \<Rightarrow> stage_execution \<Rightarrow> (cuda_error, stage_output) outcome" where
  "cuda_execute_stage elapsed r request =
     (if \<not> (cu_device r \<noteq> None) then Err Cuda_DeviceNotInitialized
      else
        (let total = total_bytes (sx_input_tensors request)
         in Ok \<lparr>so_stage_id = sx_stage_id request,
                so_output_tensors = [stage_tensor (sx_stage_id request) (''cuda:'' @ digits (unat (cu_device_id r))) total],
                so_execution_time_ms = measured_ms elapsed (cuda_compute_ms total)\<rparr>))"

definition cuda_transfer_ms :: "tensor_transfer \<Rightarrow> u32" where
  "cuda_transfer_ms request =
     (let is_gpu_to_gpu = prefix ''cuda'' (tt_from_device request) \<and> prefix ''cuda'' (tt_to_device request);
          bandwidth_mbps = (if is_gpu_to_gpu then 1000 else 50)
      in clamped_ms 1 2000 (bandwidth_mbps * 1024 * 1024) (tt_bytes request))"

definition cuda_transfer_tensor ::
  "(u64 \<Rightarrow> nat) \<Rightarrow> 'd cuda_runtime \<Rightarrow> tensor_transfer \<Rightarrow> (cuda_error, transfer_receipt) outcome" where
  "cuda_transfer_tensor elapsed r request =
     Ok \<lparr>rt_tensor_id = tt_tensor_id request, rt_bytes_transferred = tt_bytes request,
         rt_transfer_time_ms = measured_ms elapsed (cuda_transfer_ms request)\<rparr>"

definition cuda_unload :: "'d cuda_runtime \<Rightarrow> shard_handle \<Rightarrow> (cuda_error, unit) outcome" where
  "cuda_unload r handle = Ok ()"

lemma cuda_memory: "cuda_get_device_info r = Ok info \<Longrightarrow> cdi_total_memory info = 16 * 1024 * 1024 * 1024"
  by (auto simp: cuda_get_device_info_def split: if_splits)

interpretation cuda: stage_runtime cuda_is_available cu_backend "\<lambda>r. ''cuda:'' @ digits (unat (cu_device_id r))"
    "\<lambda>b. b \<noteq> 0 \<and> b \<le> 16 * 1024 * 1024 * 1024" cuda_compute_ms 1 500
    cuda_load_shard cuda_allocate_tensor cuda_execute_stage cuda_transfer_tensor
  using clamped_ms_bounds [of 1 500 "500 * 1024 * 1024"]
  by unfold_locales
    (auto simp: cuda_is_available_def cuda_load_shard_def cuda_allocate_tensor_def cuda_get_device_info_def
      cuda_execute_stage_def cuda_transfer_tensor_def cuda_compute_ms_def Let_def)

section \<open>ROCm\<close>

record rocm_runtime =
  ro_backend :: runtime_backend
  ro_device_available :: bool
  ro_device_id :: usize

record rocm_device_info =
  rdi_name :: string
  rdi_compute_capability :: string
  rdi_total_memory :: u64
  rdi_multiprocessor_count :: u32
  rdi_max_threads_per_block :: u32
  rdi_max_threads_per_multiprocessor :: u32
  rdi_warp_size :: u32

record rocm_capabilities =
  rcq_backend :: runtime_backend
  rcq_supported_dtypes :: "string list"
  rcq_supported_precisions :: "string list"
  rcq_max_tensor_size :: u64
  rcq_supports_flash_attention :: bool
  rcq_supports_tensor_cores :: bool

datatype rocm_error =
    Rocm_DeviceNotAvailable
  | Rocm_HipError string
  | Rocm_ModelLoadFailed string
  | Rocm_TensorAllocationFailed string
  | Rocm_StageExecutionFailed string
  | Rocm_TensorTransferFailed string
  | Rocm_UnsupportedOperation string
  | Rocm_Internal string

definition check_rocm_availability :: bool where
  "check_rocm_availability = False"

definition rocm_new :: "usize \<Rightarrow> (rocm_error, rocm_runtime) outcome" where
  "rocm_new device_id = Ok \<lparr>ro_backend = ROCm,
     ro_device_available = check_rocm_availability, ro_device_id = device_id\<rparr>"

definition rocm_is_available :: "rocm_runtime \<Rightarrow> bool" where
  "rocm_is_available r \<longleftrightarrow> ro_device_available r"

definition rocm_get_device_info :: "rocm_runtime \<Rightarrow> (rocm_error, rocm_device_info) outcome" where
  "rocm_get_device_info r =
     (if \<not> ro_device_available r then Err Rocm_DeviceNotAvailable
      else Ok \<lparr>rdi_name = ''AMD GPU'', rdi_compute_capability = ''rocm'',
        rdi_total_memory = 16 * 1024 * 1024 * 1024, rdi_multiprocessor_count = 40, rdi_max_threads_per_block = 1024,
        rdi_max_threads_per_multiprocessor = 2560, rdi_warp_size = 64\<rparr>)"

definition rocm_probe :: "rocm_runtime \<Rightarrow> rocm_capabilities" where
  "rocm_probe r = \<lparr>rcq_backend = ro_backend r,
     rcq_supported_dtypes = [''f32'', ''f16'', ''bf16'', ''i8'', ''i4''],
     rcq_supported_precisions = [''fp32'', ''fp16'', ''bf16'', ''int8'', ''int4''],
     rcq_max_tensor_size = 16 * 1024 * 1024 * 1024,
     rcq_supports_flash_attention = True, rcq_supports_tensor_cores = False\<rparr>"

definition rocm_load_time_ms :: "model_shard_spec \<Rightarrow> u32" where
  "rocm_load_time_ms spec = time_ms (100 * 1024 * 1024) (ms_bytes spec)"

definition rocm_load_shard :: "rocm_runtime \<Rightarrow> model_shard_spec \<Rightarrow> (rocm_error, shard_handle) outcome" where
  "rocm_load_shard r spec =
     (if \<not> ro_device_available r then Err Rocm_DeviceNotAvailable
      else Ok \<lparr>sd_shard_id = ms_shard_id spec, sd_backend = ro_backend r\<rparr>)"

definition rocm_allocate_tensor :: "rocm_runtime \<Rightarrow> tensor_spec \<Rightarrow> (rocm_error, tensor_handle) outcome" where
  "rocm_allocate_tensor r spec =
     (if \<not> ro_device_available r then Err Rocm_DeviceNotAvailable
      else if tc_bytes spec = 0 then Err (Rocm_TensorAllocationFailed ''Tensor size cannot be zero'')
      else bind_outcome (rocm_get_device_info r) (\<lambda>device_info.
        if rdi_total_memory device_info < tc_bytes spec then
          Err (Rocm_TensorAllocationFailed (size_text ''GPU memory'' (tc_bytes spec) (rdi_total_memory device_info)))
        else Ok \<lparr>th_tensor_id = tc_tensor_id spec, th_device = ''rocm:'' @ digits (unat (ro_device_id r)), th_offset = 0, th_size = tc_bytes spec\<rparr>))"

definition rocm_compute_ms :: "u64 \<Rightarrow> u32" where
  "rocm_compute_ms = clamped_ms 1 500 (400 * 1024 * 1024)"

definition rocm_execute_stage ::
  "(u64 \<Rightarrow> nat) \<Rightarrow> rocm_runtime \<Rightarrow> stage_execution \<Rightarrow> (rocm_error, stage_output) outcome" where
  "rocm_execute_stage elapsed r request =
     (if \<not> ro_device_available r then Err Rocm_DeviceNotAvailable
      else
        (let total = total_bytes (sx_input_tensors request)
         in Ok \<lparr>so_stage_id = sx_stage_id request,
                so_output_tensors = [stage_tensor (sx_stage_id request) (''rocm:'' @ digits (unat (ro_device_id r))) total],
                so_execution_time_ms = measured_ms elapsed (rocm_compute_ms total)\<rparr>))"

definition rocm_transfer_ms :: "tensor_transfer \<Rightarrow> u32" where
  "rocm_transfer_ms request =
     (let is_gpu_to_gpu = prefix ''rocm'' (tt_from_device request) \<and> prefix ''rocm'' (tt_to_device request);
          bandwidth_mbps = (if is_gpu_to_gpu then 800 else 50)
      in clamped_ms 1 2000 (bandwidth_mbps * 1024 * 1024) (tt_bytes request))"

definition rocm_transfer_tensor ::
  "(u64 \<Rightarrow> nat) \<Rightarrow> rocm_runtime \<Rightarrow> tensor_transfer \<Rightarrow> (rocm_error, transfer_receipt) outcome" where
  "rocm_transfer_tensor elapsed r request =
     Ok \<lparr>rt_tensor_id = tt_tensor_id request, rt_bytes_transferred = tt_bytes request,
         rt_transfer_time_ms = measured_ms elapsed (rocm_transfer_ms request)\<rparr>"

definition rocm_unload :: "rocm_runtime \<Rightarrow> shard_handle \<Rightarrow> (rocm_error, unit) outcome" where
  "rocm_unload r handle = Ok ()"

lemma rocm_memory: "rocm_get_device_info r = Ok info \<Longrightarrow> rdi_total_memory info = 16 * 1024 * 1024 * 1024"
  by (auto simp: rocm_get_device_info_def split: if_splits)

interpretation rocm: stage_runtime rocm_is_available ro_backend "\<lambda>r. ''rocm:'' @ digits (unat (ro_device_id r))"
    "\<lambda>b. b \<noteq> 0 \<and> b \<le> 16 * 1024 * 1024 * 1024" rocm_compute_ms 1 500
    rocm_load_shard rocm_allocate_tensor rocm_execute_stage rocm_transfer_tensor
  using clamped_ms_bounds [of 1 500 "400 * 1024 * 1024"]
  by unfold_locales
    (auto simp: rocm_is_available_def rocm_load_shard_def rocm_allocate_tensor_def rocm_get_device_info_def
      rocm_execute_stage_def rocm_transfer_tensor_def rocm_compute_ms_def Let_def)

section \<open>MLX\<close>

record mlx_runtime =
  mx_backend :: runtime_backend
  mx_device_available :: bool

record mlx_device_info =
  mdi_name :: string
  mdi_compute_capability :: string
  mdi_total_memory :: u64
  mdi_unified_memory :: bool
  mdi_max_threads_per_block :: u32
  mdi_supports_fp16 :: bool
  mdi_supports_bf16 :: bool

record mlx_capabilities =
  mcq_backend :: runtime_backend
  mcq_supported_dtypes :: "string list"
  mcq_supported_precisions :: "string list"
  mcq_max_tensor_size :: u64
  mcq_supports_unified_memory :: bool
  mcq_supports_flash_attention :: bool

datatype mlx_error =
    Mlx_DeviceNotAvailable
  | Mlx_MetalError string
  | Mlx_ModelLoadFailed string
  | Mlx_TensorAllocationFailed string
  | Mlx_StageExecutionFailed string
  | Mlx_TensorTransferFailed string
  | Mlx_UnsupportedOperation string
  | Mlx_Internal string

definition check_mlx_availability :: bool where
  "check_mlx_availability = False"

definition mlx_new :: "(mlx_error, mlx_runtime) outcome" where
  "mlx_new = Ok \<lparr>mx_backend = MLX, mx_device_available = check_mlx_availability\<rparr>"

definition mlx_is_available :: "mlx_runtime \<Rightarrow> bool" where
  "mlx_is_available r \<longleftrightarrow> mx_device_available r"

definition mlx_get_device_info :: "mlx_runtime \<Rightarrow> (mlx_error, mlx_device_info) outcome" where
  "mlx_get_device_info r =
     (if \<not> mx_device_available r then Err Mlx_DeviceNotAvailable
      else Ok \<lparr>mdi_name = ''Apple Silicon GPU'', mdi_compute_capability = ''metal'',
        mdi_total_memory = 16 * 1024 * 1024 * 1024, mdi_unified_memory = True, mdi_max_threads_per_block = 1024,
        mdi_supports_fp16 = True, mdi_supports_bf16 = True\<rparr>)"

definition mlx_probe :: "mlx_runtime \<Rightarrow> mlx_capabilities" where
  "mlx_probe r = \<lparr>mcq_backend = mx_backend r,
     mcq_supported_dtypes = [''f32'', ''f16'', ''bf16'', ''i8'', ''i4''],
     mcq_supported_precisions = [''fp32'', ''fp16'', ''bf16'', ''int8'', ''int4''],
     mcq_max_tensor_size = 16 * 1024 * 1024 * 1024,
     mcq_supports_unified_memory = True, mcq_supports_flash_attention = True\<rparr>"

definition mlx_load_time_ms :: "model_shard_spec \<Rightarrow> u32" where
  "mlx_load_time_ms spec = time_ms (200 * 1024 * 1024) (ms_bytes spec)"

definition mlx_load_shard :: "mlx_runtime \<Rightarrow> model_shard_spec \<Rightarrow> (mlx_error, shard_handle) outcome" where
  "mlx_load_shard r spec =
     (if \<not> mx_device_available r then Err Mlx_DeviceNotAvailable
      else Ok \<lparr>sd_shard_id = ms_shard_id spec, sd_backend = mx_backend r\<rparr>)"

definition mlx_allocate_tensor :: "mlx_runtime \<Rightarrow> tensor_spec \<Rightarrow> (mlx_error, tensor_handle) outcome" where
  "mlx_allocate_tensor r spec =
     (if \<not> mx_device_available r then Err Mlx_DeviceNotAvailable
      else if tc_bytes spec = 0 then Err (Mlx_TensorAllocationFailed ''Tensor size cannot be zero'')
      else bind_outcome (mlx_get_device_info r) (\<lambda>device_info.
        if mdi_total_memory device_info < tc_bytes spec then
          Err (Mlx_TensorAllocationFailed (size_text ''unified memory'' (tc_bytes spec) (mdi_total_memory device_info)))
        else Ok \<lparr>th_tensor_id = tc_tensor_id spec, th_device = ''mlx:gpu'', th_offset = 0, th_size = tc_bytes spec\<rparr>))"

definition mlx_compute_ms :: "u64 \<Rightarrow> u32" where
  "mlx_compute_ms = clamped_ms 1 500 (600 * 1024 * 1024)"

definition mlx_execute_stage ::
  "(u64 \<Rightarrow> nat) \<Rightarrow> mlx_runtime \<Rightarrow> stage_execution \<Rightarrow> (mlx_error, stage_output) outcome" where
  "mlx_execute_stage elapsed r request =
     (if \<not> mx_device_available r then Err Mlx_DeviceNotAvailable
      else
        (let total = total_bytes (sx_input_tensors request)
         in Ok \<lparr>so_stage_id = sx_stage_id request,
                so_output_tensors = [stage_tensor (sx_stage_id request) (''mlx:gpu'') total],
                so_execution_time_ms = measured_ms elapsed (mlx_compute_ms total)\<rparr>))"

text \<open>Unified memory: a constant overhead.\<close>

definition mlx_transfer_ms :: "tensor_transfer \<Rightarrow> u32" where
  "mlx_transfer_ms request = 1"

definition mlx_transfer_tensor ::
  "(u64 \<Rightarrow> nat) \<Rightarrow> mlx_runtime \<Rightarrow> tensor_transfer \<Rightarrow> (mlx_error, transfer_receipt) outcome" where
  "mlx_transfer_tensor elapsed r request =
     Ok \<lparr>rt_tensor_id = tt_tensor_id request, rt_bytes_transferred = tt_bytes request,
         rt_transfer_time_ms = measured_ms elapsed (mlx_transfer_ms request)\<rparr>"

definition mlx_unload :: "mlx_runtime \<Rightarrow> shard_handle \<Rightarrow> (mlx_error, unit) outcome" where
  "mlx_unload r handle = Ok ()"

lemma mlx_memory: "mlx_get_device_info r = Ok info \<Longrightarrow> mdi_total_memory info = 16 * 1024 * 1024 * 1024"
  by (auto simp: mlx_get_device_info_def split: if_splits)

interpretation mlx: stage_runtime mlx_is_available mx_backend "\<lambda>r. ''mlx:gpu''"
    "\<lambda>b. b \<noteq> 0 \<and> b \<le> 16 * 1024 * 1024 * 1024" mlx_compute_ms 1 500
    mlx_load_shard mlx_allocate_tensor mlx_execute_stage mlx_transfer_tensor
  using clamped_ms_bounds [of 1 500 "600 * 1024 * 1024"]
  by unfold_locales
    (auto simp: mlx_is_available_def mlx_load_shard_def mlx_allocate_tensor_def mlx_get_device_info_def
      mlx_execute_stage_def mlx_transfer_tensor_def mlx_compute_ms_def Let_def)

end
