(* ===== verification/Runtimes.thy ===== *)
theory Runtimes
  imports Runtime_Gpu
begin

text \<open>The properties of the five adapters together, from the facts of \<open>stage_runtime\<close>.\<close>

section \<open>Properties\<close>

text \<open>
  C26.  A pipeline of stages, each run on the outputs of the one before, ends on
  the CPU and GGML adapters and on a CUDA adapter with its device in exactly one
  tensor, named after the last stage, on the adapter's device, with the size of
  all the pipeline's inputs together (modulo \<open>2 ^ 64\<close>).  Without the device, and
  always on ROCm and MLX, whose availability checks are constant, it fails.
\<close>
theorem pipeline_conserves_bytes:
  fixes dev :: 'd
  assumes "stages \<noteq> []"
  shows "(\<exists>size. unat size = (\<Sum>t\<leftarrow>inputs. unat (th_size t)) mod 2 ^ 64 \<and>
      chain_stages (cpu_execute_stage elapsed cpu_new) stages inputs = Ok [stage_tensor (last stages) ''cpu:0'' size] \<and>
      chain_stages (ggml_execute_stage elapsed ggml_new) stages inputs = Ok [stage_tensor (last stages) ''cpu:0'' size] \<and>
      (\<forall>r. cuda_new device_id (Inr dev) = Ok r \<longrightarrow> chain_stages (cuda_execute_stage elapsed r) stages inputs =
         Ok [stage_tensor (last stages) (''cuda:'' @ digits (unat device_id)) size])) \<and>
    (\<forall>e r. cuda_new device_id (Inl e :: string + 'd) = Ok r \<longrightarrow>
       (\<exists>err. chain_stages (cuda_execute_stage elapsed r) stages inputs = Err err)) \<and>
    (\<forall>r. rocm_new device_id = Ok r \<longrightarrow> (\<exists>err. chain_stages (rocm_execute_stage elapsed r) stages inputs = Err err)) \<and>
    (\<forall>r. mlx_new = Ok r \<longrightarrow> (\<exists>err. chain_stages (mlx_execute_stage elapsed r) stages inputs = Err err))"
proof (intro conjI exI [of _ "total_bytes inputs"] allI impI)
  show "unat (total_bytes inputs) = (\<Sum>t\<leftarrow>inputs. unat (th_size t)) mod 2 ^ 64" by (rule total_bytes_unat)
  show "chain_stages (cpu_execute_stage elapsed cpu_new) stages inputs =
      Ok [stage_tensor (last stages) ''cpu:0'' (total_bytes inputs)]"
    by (rule cpu.stages_conserve_bytes [OF TrueI assms])
  show "chain_stages (ggml_execute_stage elapsed ggml_new) stages inputs =
      Ok [stage_tensor (last stages) ''cpu:0'' (total_bytes inputs)]"
    by (rule ggml.stages_conserve_bytes [OF TrueI assms])
  show "chain_stages (cuda_execute_stage elapsed r) stages inputs =
      Ok [stage_tensor (last stages) (''cuda:'' @ digits (unat device_id)) (total_bytes inputs)]"
    if "cuda_new device_id (Inr dev) = Ok r" for r
    using cuda.stages_conserve_bytes [of r stages elapsed inputs] assms that
    by (auto simp: cuda_new_def cuda_is_available_def)
  show "\<exists>err. chain_stages (cuda_execute_stage elapsed r) stages inputs = Err err"
    if "cuda_new device_id (Inl e) = Ok r" for e and r :: "'d cuda_runtime"
    using that by (intro cuda.stages_refused [OF _ assms]) (auto simp: cuda_new_def cuda_is_available_def)
  show "\<exists>err. chain_stages (rocm_execute_stage elapsed r) stages inputs = Err err" if "rocm_new device_id = Ok r" for r
    using that
    by (intro rocm.stages_refused [OF _ assms]) (auto simp: rocm_new_def rocm_is_available_def check_rocm_availability_def)
  show "\<exists>err. chain_stages (mlx_execute_stage elapsed r) stages inputs = Err err" if "mlx_new = Ok r" for r
    using that
    by (intro mlx.stages_refused [OF _ assms]) (auto simp: mlx_new_def mlx_is_available_def check_mlx_availability_def)
qed

theorem pipeline_conserves_bytes_witness:
  "\<exists>size. unat size = 300 \<and>
    chain_stages (cpu_execute_stage (\<lambda>ms. 1000000 * unat ms) cpu_new) [0, 1, 2]
      [stage_tensor 7 ''cpu:0'' 100, stage_tensor 8 ''cpu:0'' 200] = Ok [stage_tensor 2 ''cpu:0'' size]"
proof -
  let ?inputs = "[stage_tensor 7 ''cpu:0'' 100, stage_tensor 8 ''cpu:0'' 200]"
  have "(\<Sum>t\<leftarrow>?inputs. unat (th_size t)) mod 2 ^ 64 = 300" "last [0, 1, 2 :: u32] = 2" "[0, 1, 2 :: u32] \<noteq> []"
    by (simp_all add: stage_tensor_def)
  then show ?thesis
    using pipeline_conserves_bytes [of "[0, 1, 2]" ?inputs "\<lambda>ms. 1000000 * unat ms"] by metis
qed

text \<open>
  What each adapter allocates: nothing of size zero; GGML up to the 16 GiB it
  advertises; CUDA, ROCm and MLX up to 16 GiB and only with their device; the
  CPU adapter any size, also above the 32 GiB it advertises.  The handle has the
  id and size asked for, and no adapter panics.
\<close>
theorem allocation_limits:
  defines "limit \<equiv> 16 * 1024 * 1024 * 1024"
  shows "(is_ok (cpu_allocate_tensor cr spec) \<longleftrightarrow> tc_bytes spec \<noteq> 0) \<and>
    (is_ok (ggml_allocate_tensor gr spec) \<longleftrightarrow> tc_bytes spec \<noteq> 0 \<and> tc_bytes spec \<le> gq_max_tensor_size (ggml_probe gr)) \<and>
    (is_ok (cuda_allocate_tensor cu spec) \<longleftrightarrow> cuda_is_available cu \<and> tc_bytes spec \<noteq> 0 \<and> tc_bytes spec \<le> limit) \<and>
    (is_ok (rocm_allocate_tensor ro spec) \<longleftrightarrow> rocm_is_available ro \<and> tc_bytes spec \<noteq> 0 \<and> tc_bytes spec \<le> limit) \<and>
    (is_ok (mlx_allocate_tensor mx spec) \<longleftrightarrow> mlx_is_available mx \<and> tc_bytes spec \<noteq> 0 \<and> tc_bytes spec \<le> limit) \<and>
    (\<exists>big. cq_max_tensor_size (cpu_probe cr) < tc_bytes big \<and> is_ok (cpu_allocate_tensor cr big))"
proof -
  let ?big = "\<lparr>tc_tensor_id = [], tc_shape = [], tc_dtype = [], tc_bytes = 64 * 1024 * 1024 * 1024\<rparr> :: tensor_spec"
  have "cq_max_tensor_size (cpu_probe cr) < tc_bytes ?big" "is_ok (cpu_allocate_tensor cr ?big)"
    by (simp_all add: cpu_probe_def cpu.alloc_iff word_less_nat_alt)
  then have "\<exists>big. cq_max_tensor_size (cpu_probe cr) < tc_bytes big \<and> is_ok (cpu_allocate_tensor cr big)" by blast
  then show ?thesis
    unfolding ggml.alloc_iff cuda.alloc_iff rocm.alloc_iff mlx.alloc_iff limit_def
    by (simp add: ggml_probe_def cpu.alloc_iff)
qed

text \<open>
  Reported execution times: with a clock that never runs backwards and waits
  that end within 49 days, the time a stage reports is at least the simulated
  work: 1 ms on the CPU and the accelerators, 5 ms on GGML.
\<close>
theorem reported_times:
  assumes "honest_clock elapsed" and "\<forall>ms. unat ms \<le> 1000 \<longrightarrow> elapsed ms < 1000000 * 2 ^ 32"
  shows "(\<forall>r out. cpu_execute_stage elapsed r req = Ok out \<longrightarrow> 1 \<le> unat (so_execution_time_ms out)) \<and>
    (\<forall>r out. ggml_execute_stage elapsed r req = Ok out \<longrightarrow> 5 \<le> unat (so_execution_time_ms out)) \<and>
    (\<forall>r out. cuda_execute_stage elapsed r req = Ok out \<longrightarrow> 1 \<le> unat (so_execution_time_ms out))"
proof (intro conjI allI impI)
  have hi: "\<forall>ms. unat ms \<le> 500 \<longrightarrow> elapsed ms < 1000000 * 2 ^ 32" using assms(2) by auto
  fix r out
  show "1 \<le> unat (so_execution_time_ms out)" if "cpu_execute_stage elapsed r req = Ok out" for r
    by (rule cpu.execution_time_bounds [OF that assms])
  show "5 \<le> unat (so_execution_time_ms out)" if "ggml_execute_stage elapsed r req = Ok out" for r
    by (rule ggml.execution_time_bounds [OF that assms])
  show "1 \<le> unat (so_execution_time_ms out)" if "cuda_execute_stage elapsed r req = Ok out" for r
    by (rule cuda.execution_time_bounds [OF that assms(1) hi])
qed

end
