(* ===== verification/Quic_Transport.thy ===== *)
theory Quic_Transport
  imports Bytes Cluster_Types
begin

text \<open>
  The QUIC data plane, \<open>transports/quic/src/lib.rs\<close>: the server's table of
  connections, and the framing of a tensor on a stream (a big-endian length, the
  metadata as JSON, the data).

  The crates \<open>quinn\<close> and \<open>serde_json\<close> are the parameter records \<open>quic_lib\<close> and
  \<open>json_lib\<close>: connections and streams are handles, their state is the world
  \<open>'w\<close>.  What is used of them is \<open>quic_contract\<close> (a stream delivers its bytes
  in order; a peer accepts the streams of a connection in the order they were
  opened) and \<open>json_contract\<close> (the metadata is read back).  Configurations,
  sockets and endpoints come from \<open>tls_lib\<close>, the rest of \<open>quinn\<close> and \<open>rustls\<close>.
\<close>

section \<open>Libraries\<close>

text \<open>An endpoint and the client configuration that was set on it, if one was.\<close>

record quic_endpoint =
  qe_socket :: nat
  qe_default_client_config :: "nat option"

record ('c, 'k, 'w) tls_lib =
  tl_server_config :: "'c \<Rightarrow> 'k \<Rightarrow> string + nat"
  tl_server_endpoint :: "nat \<Rightarrow> string \<Rightarrow> 'w \<Rightarrow> (string + quic_endpoint) \<times> 'w"
  tl_add_root :: "'c \<Rightarrow> string + nat"
  tl_client_config :: "nat \<Rightarrow> string + nat"
  tl_bind :: "string \<Rightarrow> 'w \<Rightarrow> (string + nat) \<times> 'w"
  tl_endpoint :: "nat \<Rightarrow> 'w \<Rightarrow> (string + quic_endpoint) \<times> 'w"

record 'w quic_lib =
  ql_accept :: "'w \<Rightarrow> nat option \<times> 'w"
  ql_establish :: "nat \<Rightarrow> 'w \<Rightarrow> (string + nat) \<times> 'w"
  ql_connect :: "quic_endpoint \<Rightarrow> string \<Rightarrow> string \<Rightarrow> 'w \<Rightarrow> (string + nat) \<times> 'w"
  ql_open_bi :: "nat \<Rightarrow> 'w \<Rightarrow> (string + nat) \<times> 'w"
  ql_accept_bi :: "nat \<Rightarrow> 'w \<Rightarrow> (string + nat) \<times> 'w"
  ql_write_all :: "nat \<Rightarrow> u8 list \<Rightarrow> 'w \<Rightarrow> (string + unit) \<times> 'w"
  ql_finish :: "nat \<Rightarrow> 'w \<Rightarrow> (string + unit) \<times> 'w"
  ql_read_exact :: "nat \<Rightarrow> nat \<Rightarrow> 'w \<Rightarrow> (string + u8 list) \<times> 'w"

record 'j json_lib =
  js_text :: "tensor_id \<Rightarrow> nat \<Rightarrow> u8 list"
  js_from_slice :: "u8 list \<Rightarrow> string + 'j"
  js_tensor_id :: "'j \<Rightarrow> string option"
  js_size :: "'j \<Rightarrow> u64 option"

text \<open>
  The contract of the connections, over the bytes sent on a stream and not yet
  read, the streams opened to a peer that it has not accepted, and the streams
  whose sender has finished or dropped them.  A read past the bytes sent waits for
  more on a stream that is not closed, of which the contract says nothing, and
  fails on a closed one.
\<close>

definition quic_contract ::
  "'w quic_lib \<Rightarrow> ('w \<Rightarrow> nat \<Rightarrow> u8 list) \<Rightarrow> ('w \<Rightarrow> nat \<Rightarrow> nat list) \<Rightarrow> ('w \<Rightarrow> nat \<Rightarrow> bool) \<Rightarrow> bool" where
  "quic_contract lib unread pending ended \<longleftrightarrow>
     (\<forall>conn s w w'. ql_open_bi lib conn w = (Inr s, w') \<longrightarrow>
        s \<notin> set (pending w conn) \<and> unread w' = (unread w)(s := []) \<and>
        pending w' = (pending w)(conn := pending w conn @ [s])) \<and>
     (\<forall>s bs w w'. ql_write_all lib s bs w = (Inr (), w') \<longrightarrow>
        unread w' = (unread w)(s := unread w s @ bs) \<and> pending w' = pending w) \<and>
     (\<forall>s w w'. ql_finish lib s w = (Inr (), w') \<longrightarrow> unread w' = unread w \<and> pending w' = pending w) \<and>
     (\<forall>conn s ss w. pending w conn = s # ss \<and> (\<exists>t \<in> set (s # ss). unread w t \<noteq> []) \<longrightarrow>
        (\<exists>w'. ql_accept_bi lib conn w = (Inr s, w') \<and> unread w' = unread w \<and>
          pending w' = (pending w)(conn := ss) \<and> ended w' = ended w)) \<and>
     (\<forall>s n w. n \<le> length (unread w s) \<longrightarrow>
        (\<exists>w'. ql_read_exact lib s n w = (Inr (take n (unread w s)), w') \<and> pending w' = pending w \<and>
          unread w' = (unread w)(s := drop n (unread w s)))) \<and>
     (\<forall>s n w. length (unread w s) < n \<and> ended w s \<longrightarrow>
        (\<exists>e w'. ql_read_exact lib s n w = (Inl e, w') \<and> pending w' = pending w \<and>
          unread w' = (unread w)(s := [])))"

definition json_contract :: "'j json_lib \<Rightarrow> bool" where
  "json_contract js \<longleftrightarrow>
     (\<forall>tensor n. n < 2 ^ 64 \<longrightarrow>
        (\<exists>v. js_from_slice js (js_text js tensor n) = Inr v \<and> js_tensor_id js v = Some tensor \<and>
           js_size js v = Some (word_of_nat n)))"

section \<open>Server and client\<close>

datatype quic_error =
    ConfigError string
  | BindError string
  | AcceptFailed string
  | ConnectionError string
  | StreamError string
  | SendError string
  | ReceiveError string
  | ParseError string
  | QuicNodeNotFound node_id
  | QuicInternal string

text \<open>\<open>map_err\<close> on a call of the library, followed by \<open>?\<close>.\<close>

definition lib_call ::
  "(string \<Rightarrow> quic_error) \<Rightarrow> ('w \<Rightarrow> (string + 'a) \<times> 'w) \<Rightarrow> ('w, quic_error, 'a) action" where
  "lib_call err op w =
     (case op w of (Inl e, w') \<Rightarrow> (Err (err e), w') | (Inr a, w') \<Rightarrow> (Ok a, w'))"

record quic_server =
  qs_endpoint :: quic_endpoint
  qs_active_connections :: "(node_id, nat) hash_map"

definition quic_server_new ::
  "('c, 'k, 'w) tls_lib \<Rightarrow> string \<Rightarrow> 'c \<Rightarrow> 'k \<Rightarrow> ('w, quic_error, quic_server) action" where
  "quic_server_new tls bind_addr cert key =
     bind_action (lib_call ConfigError (\<lambda>w. (tl_server_config tls cert key, w))) (\<lambda>server_config.
     bind_action (lib_call BindError (tl_server_endpoint tls server_config bind_addr)) (\<lambda>endpoint.
     return_action \<lparr>qs_endpoint = endpoint, qs_active_connections = hm_new\<rparr>))"

text \<open>\<open>extract_node_id\<close> ignores the connection and draws a fresh id.\<close>

definition extract_node_id :: "node_id \<Rightarrow> nat \<Rightarrow> (quic_error, node_id) outcome" where
  "extract_node_id fresh conn = Ok fresh"

definition quic_accept ::
  "'w quic_lib \<Rightarrow> node_id \<Rightarrow> (quic_server \<times> 'w, quic_error, node_id \<times> nat \<times> nat) action" where
  "quic_accept lib fresh = (\<lambda>(server, w).
     case ql_accept lib w of
       (None, w) \<Rightarrow> (Err (AcceptFailed ''No incoming connection''), (server, w))
     | (Some incoming, w) \<Rightarrow>
         (case bind_action (lib_call ConnectionError (ql_establish lib incoming)) (\<lambda>conn.
             bind_action (lift_outcome (extract_node_id fresh conn)) (\<lambda>node.
             bind_action (lib_call StreamError (ql_open_bi lib conn)) (\<lambda>stream.
             return_action (node, conn, stream)))) w of
            (Ok (node, conn, stream), w) \<Rightarrow>
              (Ok (node, conn, stream),
               (server\<lparr>qs_active_connections := hm_insert node conn (qs_active_connections server)\<rparr>, w))
          | (Err e, w) \<Rightarrow> (Err e, (server, w))
          | (Panic p, w) \<Rightarrow> (Panic p, (server, w))))"

text \<open>A tensor on a fresh stream of a connection; the length is truncated to 32 bits.\<close>

definition quic_send ::
  "'w quic_lib \<Rightarrow> 'j json_lib \<Rightarrow> nat \<Rightarrow> tensor_id \<Rightarrow> u8 list \<Rightarrow> ('w, quic_error, unit) action" where
  "quic_send lib js conn tensor data =
     bind_action (lib_call StreamError (ql_open_bi lib conn)) (\<lambda>stream.
       let metadata = js_text js tensor (length data);
           metadata_len = be_bytes 4 (length metadata)
       in bind_action (lib_call SendError (ql_write_all lib stream metadata_len)) (\<lambda>_.
          bind_action (lib_call SendError (ql_write_all lib stream metadata)) (\<lambda>_.
          bind_action (lib_call SendError (ql_write_all lib stream data)) (\<lambda>_.
          lib_call SendError (ql_finish lib stream)))))"

definition quic_server_send_tensor ::
  "'w quic_lib \<Rightarrow> 'j json_lib \<Rightarrow> node_id \<Rightarrow> tensor_id \<Rightarrow> u8 list \<Rightarrow>
   quic_server \<Rightarrow> ('w, quic_error, unit) action" where
  "quic_server_send_tensor lib js node tensor data server =
     bind_action (lift_outcome (ok_or (QuicNodeNotFound node) (hm_get (qs_active_connections server) node)))
       (\<lambda>conn. quic_send lib js conn tensor data)"

definition quic_get_stats :: "quic_server \<Rightarrow> nat" where
  "quic_get_stats server = hm_len (qs_active_connections server)"

record 'c quic_client =
  qc_endpoint :: quic_endpoint
  qc_server_addr :: string
  qc_server_cert :: 'c

text \<open>The client configuration is built, and then not used.\<close>

definition quic_client_new ::
  "('c, 'k, 'w) tls_lib \<Rightarrow> string \<Rightarrow> 'c \<Rightarrow> ('w, quic_error, 'c quic_client) action" where
  "quic_client_new tls server_addr server_cert =
     bind_action (lib_call ConfigError (\<lambda>w. (tl_add_root tls server_cert, w))) (\<lambda>roots.
     bind_action (lib_call ConfigError (\<lambda>w. (tl_client_config tls roots, w))) (\<lambda>client_config.
     bind_action (lib_call ConfigError (tl_bind tls ''0.0.0.0:0'')) (\<lambda>socket.
     bind_action (lib_call ConfigError (tl_endpoint tls socket)) (\<lambda>endpoint.
     return_action \<lparr>qc_endpoint = endpoint, qc_server_addr = server_addr, qc_server_cert = server_cert\<rparr>))))"

definition quic_connect :: "'w quic_lib \<Rightarrow> 'c quic_client \<Rightarrow> ('w, quic_error, nat) action" where
  "quic_connect lib client =
     lib_call ConnectionError (ql_connect lib (qc_endpoint client) (qc_server_addr client) ''localhost'')"

definition quic_client_send_tensor ::
  "'w quic_lib \<Rightarrow> 'j json_lib \<Rightarrow> nat \<Rightarrow> tensor_id \<Rightarrow> u8 list \<Rightarrow> ('w, quic_error, unit) action" where
  "quic_client_send_tensor lib js conn tensor data = quic_send lib js conn tensor data"

text \<open>\<open>vec![0u8; n]\<close>, with the largest allocation the machine serves.\<close>

definition zeroed :: "nat \<Rightarrow> nat \<Rightarrow> ('w, quic_error, unit) action" where
  "zeroed limit n w = ((if n \<le> limit then Ok () else Panic Capacity_Overflow), w)"

definition quic_receive_tensor ::
  "'w quic_lib \<Rightarrow> 'j json_lib \<Rightarrow> nat \<Rightarrow> nat \<Rightarrow> ('w, quic_error, tensor_id \<times> u8 list) action" where
  "quic_receive_tensor lib js limit conn =
     bind_action (lib_call StreamError (ql_accept_bi lib conn)) (\<lambda>stream.
     bind_action (lib_call ReceiveError (ql_read_exact lib stream 4)) (\<lambda>len_bytes.
     let metadata_len = be_nat len_bytes
     in bind_action (zeroed limit metadata_len) (\<lambda>_.
        bind_action (lib_call ReceiveError (ql_read_exact lib stream metadata_len)) (\<lambda>metadata_bytes.
        bind_action (lib_call ParseError (\<lambda>w. (js_from_slice js metadata_bytes, w))) (\<lambda>metadata.
        bind_action (lift_outcome (ok_or (ParseError ''Missing tensor_id'') (js_tensor_id js metadata))) (\<lambda>tensor.
        bind_action (lift_outcome (ok_or (ParseError ''Missing size'') (js_size js metadata))) (\<lambda>size.
        bind_action (zeroed limit (unat size)) (\<lambda>_.
        bind_action (lib_call ReceiveError (ql_read_exact lib stream (unat size))) (\<lambda>data.
        return_action (tensor, data))))))))))"

text \<open>
  What is used of the endpoints: a new one has no default client configuration,
  and a connection from an endpoint without one is refused.
\<close>

definition endpoint_contract :: "('c, 'k, 'w) tls_lib \<Rightarrow> 'w quic_lib \<Rightarrow> bool" where
  "endpoint_contract tls lib \<longleftrightarrow>
     (\<forall>socket w endpoint w'. tl_endpoint tls socket w = (Inr endpoint, w') \<longrightarrow> qe_default_client_config endpoint = None) \<and>
     (\<forall>endpoint addr name w. qe_default_client_config endpoint = None \<longrightarrow>
        ql_connect lib endpoint addr name w = (Inl ''no default client config'', w))"

section \<open>Lemmas\<close>

lemma lib_call_Ok: "lib_call err op w = (Ok a, w') \<longleftrightarrow> op w = (Inr a, w')"
  by (auto simp: lib_call_def split: prod.splits sum.splits)

lemma lib_call_Inr [simp]: "op w = (Inr a, w') \<Longrightarrow> lib_call err op w = (Ok a, w')"
  by (simp add: lib_call_def)

lemma lib_call_Inl [simp]: "op w = (Inl e, w') \<Longrightarrow> lib_call err op w = (Err (err e), w')"
  by (simp add: lib_call_def)

lemma zeroed_Ok [simp]: "n \<le> limit \<Longrightarrow> zeroed limit n w = (Ok (), w)"
  by (simp add: zeroed_def)

text \<open>The clauses of the contract.\<close>

lemma contract_open:
  assumes "quic_contract lib unread pending ended" and "ql_open_bi lib conn w = (Inr s, w')"
  shows "s \<notin> set (pending w conn)" and "unread w' = (unread w)(s := [])"
    and "pending w' = (pending w)(conn := pending w conn @ [s])"
proof -
  have "\<forall>conn s w w'. ql_open_bi lib conn w = (Inr s, w') \<longrightarrow>
      s \<notin> set (pending w conn) \<and> unread w' = (unread w)(s := []) \<and>
      pending w' = (pending w)(conn := pending w conn @ [s])"
    using assms(1) unfolding quic_contract_def by (elim conjE) assumption
  with assms(2) show "s \<notin> set (pending w conn)" "unread w' = (unread w)(s := [])"
    "pending w' = (pending w)(conn := pending w conn @ [s])" by blast+
qed

lemma contract_write:
  assumes "quic_contract lib unread pending ended" and "ql_write_all lib s bs w = (Inr (), w')"
  shows "unread w' = (unread w)(s := unread w s @ bs)" and "pending w' = pending w"
proof -
  have "\<forall>s bs w w'. ql_write_all lib s bs w = (Inr (), w') \<longrightarrow>
      unread w' = (unread w)(s := unread w s @ bs) \<and> pending w' = pending w"
    using assms(1) unfolding quic_contract_def by (elim conjE) assumption
  with assms(2) show "unread w' = (unread w)(s := unread w s @ bs)" "pending w' = pending w" by blast+
qed

lemma contract_finish:
  assumes "quic_contract lib unread pending ended" and "ql_finish lib s w = (Inr (), w')"
  shows "unread w' = unread w" and "pending w' = pending w"
proof -
  have "\<forall>s w w'. ql_finish lib s w = (Inr (), w') \<longrightarrow> unread w' = unread w \<and> pending w' = pending w"
    using assms(1) unfolding quic_contract_def by (elim conjE) assumption
  with assms(2) show "unread w' = unread w" "pending w' = pending w" by blast+
qed

lemma contract_accept:
  assumes "quic_contract lib unread pending ended" and "pending w conn = s # ss"
    and "t \<in> set (s # ss)" and "unread w t \<noteq> []"
  shows "\<exists>w'. ql_accept_bi lib conn w = (Inr s, w') \<and> unread w' = unread w \<and> pending w' = (pending w)(conn := ss) \<and>
    ended w' = ended w"
proof -
  have "\<forall>conn s ss w. pending w conn = s # ss \<and> (\<exists>t \<in> set (s # ss). unread w t \<noteq> []) \<longrightarrow>
      (\<exists>w'. ql_accept_bi lib conn w = (Inr s, w') \<and> unread w' = unread w \<and> pending w' = (pending w)(conn := ss) \<and>
        ended w' = ended w)"
    using assms(1) unfolding quic_contract_def by (elim conjE) assumption
  then show ?thesis using assms(2-4) by blast
qed

lemma contract_read:
  assumes "quic_contract lib unread pending ended" and "n \<le> length (unread w s)"
  shows "\<exists>w'. ql_read_exact lib s n w = (Inr (take n (unread w s)), w') \<and> pending w' = pending w \<and>
    unread w' = (unread w)(s := drop n (unread w s))"
proof -
  have "\<forall>s n w. n \<le> length (unread w s) \<longrightarrow>
      (\<exists>w'. ql_read_exact lib s n w = (Inr (take n (unread w s)), w') \<and> pending w' = pending w \<and>
        unread w' = (unread w)(s := drop n (unread w s)))"
    using assms(1) unfolding quic_contract_def by (elim conjE) assumption
  then show ?thesis using assms(2) by blast
qed

lemma contract_read_end:
  assumes "quic_contract lib unread pending ended" and "length (unread w s) < n" and "ended w s"
  shows "\<exists>e w'. ql_read_exact lib s n w = (Inl e, w') \<and> pending w' = pending w \<and> unread w' = (unread w)(s := [])"
proof -
  have "\<forall>s n w. length (unread w s) < n \<and> ended w s \<longrightarrow>
      (\<exists>e w'. ql_read_exact lib s n w = (Inl e, w') \<and> pending w' = pending w \<and> unread w' = (unread w)(s := []))"
    using assms(1) unfolding quic_contract_def by (elim conjE) assumption
  then show ?thesis using assms(2,3) by blast
qed

text \<open>What is on the wire.\<close>

definition frame :: "'j json_lib \<Rightarrow> tensor_id \<Rightarrow> u8 list \<Rightarrow> u8 list" where
  "frame js tensor data =
     be_bytes 4 (length (js_text js tensor (length data))) @ js_text js tensor (length data) @ data"

lemma quic_send_frame:
  assumes "quic_contract lib unread pending ended" and "quic_send lib js conn tensor data w = (Ok u, w')"
  shows "\<exists>s. s \<notin> set (pending w conn) \<and> unread w' = (unread w)(s := frame js tensor data) \<and>
    pending w' = (pending w)(conn := pending w conn @ [s])"
proof -
  from assms(2) obtain s w1 w2 w3 w4 where calls: "ql_open_bi lib conn w = (Inr s, w1)"
      "ql_write_all lib s (be_bytes 4 (length (js_text js tensor (length data)))) w1 = (Inr (), w2)"
      "ql_write_all lib s (js_text js tensor (length data)) w2 = (Inr (), w3)"
      "ql_write_all lib s data w3 = (Inr (), w4)" "ql_finish lib s w4 = (Inr (), w')"
    by (auto simp: quic_send_def Let_def lib_call_Ok elim!: bind_action_OkE)
  show ?thesis
    using contract_open [OF assms(1) calls(1)] contract_write [OF assms(1) calls(2)] contract_write [OF assms(1) calls(3)]
      contract_write [OF assms(1) calls(4)] contract_finish [OF assms(1) calls(5)]
    by (intro exI [of _ s]) (simp add: frame_def)
qed

lemma receive_frame:
  assumes "quic_contract lib unread pending ended" and "json_contract js"
    and "pending w conn = s # ss" and "unread w s = frame js tensor data"
    and "length (js_text js tensor (length data)) < 2 ^ 32" and "length (js_text js tensor (length data)) \<le> limit"
    and "length data < 2 ^ 64" and "length data \<le> limit"
  shows "\<exists>w'. quic_receive_tensor lib js limit conn w = (Ok (tensor, data), w') \<and>
    pending w' = (pending w)(conn := ss) \<and> (\<forall>t. t \<noteq> s \<longrightarrow> unread w' t = unread w t)"
proof -
  let ?text = "js_text js tensor (length data)"
  have read: "\<exists>w'. ql_read_exact lib s n w = (Inr (take n (unread w s)), w') \<and> pending w' = pending w \<and>
      unread w' = (unread w)(s := drop n (unread w s))" if "n \<le> length (unread w s)" for n w
    using contract_read [OF assms(1)] that .
  have "length (unread w s) \<noteq> 0" using assms(4) by (simp add: frame_def)
  then have "unread w s \<noteq> []" by auto
  then obtain w1 where w1: "ql_accept_bi lib conn w = (Inr s, w1)" "unread w1 = unread w"
      "pending w1 = (pending w)(conn := ss)"
    using contract_accept [OF assms(1,3), of s] by auto
  obtain w2 where w2: "ql_read_exact lib s 4 w1 = (Inr (be_bytes 4 (length ?text)), w2)" "unread w2 = (unread w)(s := ?text @ data)"
      "pending w2 = pending w1"
    using read [of 4 w1] w1(2) assms(4) by (auto simp: frame_def)
  have len: "be_nat (be_bytes 4 (length ?text)) = length ?text" using assms(5) by (simp add: be_nat_bytes)
  obtain w3 where w3: "ql_read_exact lib s (length ?text) w2 = (Inr ?text, w3)" "unread w3 = (unread w)(s := data)"
      "pending w3 = pending w1"
    using read [of "length ?text" w2] w2(2,3) by auto
  obtain v where v: "js_from_slice js ?text = Inr v" "js_tensor_id js v = Some tensor"
      "js_size js v = Some (word_of_nat (length data))"
    using assms(2,7) unfolding json_contract_def by blast
  have size: "unat (word_of_nat (length data) :: u64) = length data"
    using assms(7) by (intro unat_of_nat_exact) simp
  obtain w4 where w4: "ql_read_exact lib s (length data) w3 = (Inr data, w4)" "unread w4 = (unread w)(s := [])"
      "pending w4 = pending w1"
    using read [of "length data" w3] w3(2,3) by auto
  have "quic_receive_tensor lib js limit conn w = (Ok (tensor, data), w4)"
    using assms(6,8)
    by (simp add: quic_receive_tensor_def w1(1) w2(1) w3(1) w4(1) len v size Let_def)
  then show ?thesis using w4(2,3) w1(3) by simp
qed

lemma receive_nothing:
  assumes "quic_contract lib unread pending ended" and "pending w conn = s # ss" and "unread w s = []"
    and "ended w s" and "t \<in> set ss" and "unread w t \<noteq> []"
  shows "\<exists>e w'. quic_receive_tensor lib js limit conn w = (Err (ReceiveError e), w') \<and>
    unread w' = unread w \<and> pending w' = (pending w)(conn := ss)"
proof -
  obtain w1 where w1: "ql_accept_bi lib conn w = (Inr s, w1)" "unread w1 = unread w"
      "pending w1 = (pending w)(conn := ss)" "ended w1 = ended w"
    using contract_accept [OF assms(1,2), of t] assms(5,6) by auto
  then have "length (unread w1 s) < 4" "ended w1 s" using assms(3,4) by simp_all
  then obtain e w2 where w2: "ql_read_exact lib s 4 w1 = (Inl e, w2)" "pending w2 = pending w1"
      "unread w2 = (unread w1)(s := [])"
    using contract_read_end [OF assms(1)] by blast
  have "unread w2 = unread w" using w2(3) w1(2) assms(3) by auto
  then show ?thesis
    using w1 w2 by (simp add: quic_receive_tensor_def)
qed

text \<open>What \<open>accept\<close> leaves: one entry of the table and one stream with nothing on it.\<close>

lemma quic_accept_opens:
  assumes "quic_contract lib unread pending ended"
    and "quic_accept lib fresh (server, w) = (Ok (node, conn, s), (server', w'))"
  shows "node = fresh \<and> hm_get (qs_active_connections server') fresh = Some conn \<and> unread w' s = [] \<and>
    (\<exists>ss. pending w' conn = ss @ [s] \<and> s \<notin> set ss)"
proof -
  from assms(2) obtain incoming w1 w2 where calls: "ql_establish lib incoming w1 = (Inr conn, w2)"
      "ql_open_bi lib conn w2 = (Inr s, w')" "node = fresh"
      "server' = server\<lparr>qs_active_connections := hm_insert fresh conn (qs_active_connections server)\<rparr>"
    by (auto simp: quic_accept_def extract_node_id_def lib_call_Ok
        split: prod.splits option.splits outcome.splits elim!: bind_action_OkE)
  then show ?thesis using contract_open [OF assms(1) calls(2)] by simp
qed

section \<open>Several tensors\<close>

text \<open>The tensors on their way to the peer of a connection, in order.\<close>

definition queued ::
  "('w \<Rightarrow> nat \<Rightarrow> u8 list) \<Rightarrow> ('w \<Rightarrow> nat \<Rightarrow> nat list) \<Rightarrow> 'j json_lib \<Rightarrow> nat \<Rightarrow>
   (tensor_id \<times> u8 list) list \<Rightarrow> 'w \<Rightarrow> bool" where
  "queued unread pending js conn ts w \<longleftrightarrow>
     distinct (pending w conn) \<and> map (unread w) (pending w conn) = map (\<lambda>(t, d). frame js t d) ts"

text \<open>A tensor whose metadata fits the 32-bit length and that the receiver can hold.\<close>

definition fits_frame :: "'j json_lib \<Rightarrow> nat \<Rightarrow> tensor_id \<times> u8 list \<Rightarrow> bool" where
  "fits_frame js limit = (\<lambda>(t, d). length (js_text js t (length d)) < 2 ^ 32 \<and>
     length (js_text js t (length d)) \<le> limit \<and> length d < 2 ^ 64 \<and> length d \<le> limit)"

fun send_tensors ::
  "'w quic_lib \<Rightarrow> 'j json_lib \<Rightarrow> node_id \<Rightarrow> quic_server \<Rightarrow> (tensor_id \<times> u8 list) list \<Rightarrow>
   ('w, quic_error, unit) action" where
  "send_tensors lib js node server [] = return_action ()"
| "send_tensors lib js node server ((t, d) # ts) =
     bind_action (quic_server_send_tensor lib js node t d server) (\<lambda>_. send_tensors lib js node server ts)"

fun receive_tensors ::
  "'w quic_lib \<Rightarrow> 'j json_lib \<Rightarrow> nat \<Rightarrow> nat \<Rightarrow> nat \<Rightarrow> ('w, quic_error, (tensor_id \<times> u8 list) list) action" where
  "receive_tensors lib js limit conn 0 = return_action []"
| "receive_tensors lib js limit conn (Suc n) =
     bind_action (quic_receive_tensor lib js limit conn) (\<lambda>t.
     bind_action (receive_tensors lib js limit conn n) (\<lambda>ts. return_action (t # ts)))"

lemma queued_send:
  assumes "quic_contract lib unread pending ended" and "queued unread pending js conn ts w"
    and "quic_send lib js conn t d w = (Ok u, w')"
  shows "queued unread pending js conn (ts @ [(t, d)]) w'"
proof -
  obtain s where s: "s \<notin> set (pending w conn)" "unread w' = (unread w)(s := frame js t d)"
      "pending w' = (pending w)(conn := pending w conn @ [s])"
    using quic_send_frame [OF assms(1,3)] by blast
  then have "map (unread w') (pending w conn) = map (unread w) (pending w conn)" by (auto simp: map_eq_conv)
  then show ?thesis using s assms(2) by (simp add: queued_def)
qed

lemma queued_send_all:
  assumes "quic_contract lib unread pending ended" and "hm_get (qs_active_connections server) node = Some conn"
    and "queued unread pending js conn us w" and "send_tensors lib js node server ts w = (Ok (), w')"
  shows "queued unread pending js conn (us @ ts) w'"
  using assms(3,4)
proof (induction ts arbitrary: us w)
  case (Cons td ts)
  obtain t d where td: "td = (t, d)" by (cases td)
  from Cons.prems(2) obtain w1 where "quic_send lib js conn t d w = (Ok (), w1)"
      "send_tensors lib js node server ts w1 = (Ok (), w')"
    by (auto simp: td quic_server_send_tensor_def assms(2) elim!: bind_action_OkE)
  then show ?case using Cons.IH [of "us @ [td]" w1] queued_send [OF assms(1) Cons.prems(1)] by (simp add: td)
qed simp

lemma queued_receive:
  assumes "quic_contract lib unread pending ended" and "json_contract js"
    and "queued unread pending js conn ((t, d) # ts) w" and "fits_frame js limit (t, d)"
  shows "\<exists>w'. quic_receive_tensor lib js limit conn w = (Ok (t, d), w') \<and> queued unread pending js conn ts w'"
proof -
  obtain s ss where s: "pending w conn = s # ss" "unread w s = frame js t d" "s \<notin> set ss" "distinct ss"
      "map (unread w) ss = map (\<lambda>(t, d). frame js t d) ts"
    using assms(3) by (cases "pending w conn") (auto simp: queued_def)
  obtain w' where w': "quic_receive_tensor lib js limit conn w = (Ok (t, d), w')"
      "pending w' = (pending w)(conn := ss)" "\<forall>t. t \<noteq> s \<longrightarrow> unread w' t = unread w t"
    using receive_frame [OF assms(1,2) s(1,2)] assms(4) by (auto simp: fits_frame_def)
  then have "map (unread w') ss = map (unread w) ss" using s(3) by (auto simp: map_eq_conv)
  then show ?thesis using w' s(4,5) by (simp add: queued_def)
qed

lemma queued_receive_all:
  assumes "quic_contract lib unread pending ended" and "json_contract js"
    and "queued unread pending js conn ts w" and "list_all (fits_frame js limit) ts"
  shows "\<exists>w'. receive_tensors lib js limit conn (length ts) w = (Ok ts, w')"
  using assms(3,4)
proof (induction ts arbitrary: w)
  case (Cons td ts)
  obtain t d where td: "td = (t, d)" by (cases td)
  obtain w1 where "quic_receive_tensor lib js limit conn w = (Ok td, w1)" "queued unread pending js conn ts w1"
    using queued_receive [OF assms(1,2)] Cons.prems td by fastforce
  then show ?case using Cons.IH [of w1] Cons.prems(2) by fastforce
qed simp

section \<open>A concrete instance of the parameters\<close>

record sample_world =
  sw_next :: nat
  sw_unread :: "nat \<Rightarrow> u8 list"
  sw_pending :: "nat \<Rightarrow> nat list"

definition sample_quic :: "sample_world quic_lib" where
  "sample_quic = \<lparr>
     ql_accept = (\<lambda>w. (Some 0, w)),
     ql_establish = (\<lambda>n w. (Inr 0, w)),
     ql_connect = (\<lambda>endpoint addr name w.
        if qe_default_client_config endpoint = None then (Inl ''no default client config'', w) else (Inr 0, w)),
     ql_open_bi = (\<lambda>conn w. if sw_next w \<in> set (sw_pending w conn) then (Inl ''closed'', w) else
       (Inr (sw_next w), w\<lparr>sw_next := Suc (sw_next w), sw_unread := (sw_unread w)(sw_next w := []),
          sw_pending := (sw_pending w)(conn := sw_pending w conn @ [sw_next w])\<rparr>)),
     ql_accept_bi = (\<lambda>conn w. case sw_pending w conn of
          [] \<Rightarrow> (Inl ''closed'', w)
        | s # ss \<Rightarrow> (Inr s, w\<lparr>sw_pending := (sw_pending w)(conn := ss)\<rparr>)),
     ql_write_all = (\<lambda>s bs w. (Inr (), w\<lparr>sw_unread := (sw_unread w)(s := sw_unread w s @ bs)\<rparr>)),
     ql_finish = (\<lambda>s w. (Inr (), w)),
     ql_read_exact = (\<lambda>s n w. if n \<le> length (sw_unread w s)
        then (Inr (take n (sw_unread w s)), w\<lparr>sw_unread := (sw_unread w)(s := drop n (sw_unread w s))\<rparr>)
        else (Inl ''finished early'', w\<lparr>sw_unread := (sw_unread w)(s := [])\<rparr>))\<rparr>"

lemma sample_quic_contract: "quic_contract sample_quic sw_unread sw_pending (\<lambda>_ _. True)"
  unfolding quic_contract_def sample_quic_def by (auto split: if_splits)

definition sample_json :: "u8 list json_lib" where
  "sample_json = \<lparr>
     js_text = (\<lambda>t n. be_bytes 8 n @ ascii t),
     js_from_slice = (\<lambda>bs. Inr bs),
     js_tensor_id = (\<lambda>bs. Some (map (\<lambda>b. char_of (unat b)) (drop 8 bs))),
     js_size = (\<lambda>bs. Some (word_of_nat (be_nat (take 8 bs))))\<rparr>"

lemma sample_json_contract: "json_contract sample_json"
proof -
  have "char_of (unat (word_of_nat (of_char c) :: u8)) = c" for c
  proof -
    have "(of_char c :: nat) < 2 ^ LENGTH(8)" by (simp add: nat_of_char_less_256)
    then show ?thesis by (simp only: unat_of_nat_exact of_char_of [symmetric]) simp
  qed
  then show ?thesis
    by (simp add: json_contract_def sample_json_def be_nat_bytes ascii_def o_def)
qed

section \<open>Properties\<close>

text \<open>
  C21.  Tensors sent to a node are received complete and in order: whatever
  tensors the server sends on a connection with nothing pending, as long as all
  sends succeed, as many receives at the other end return exactly these ids and
  data.
\<close>
theorem tensors_delivered_in_order:
  assumes "quic_contract lib unread pending ended" and "json_contract js"
    and "hm_get (qs_active_connections server) node = Some conn" and "pending w conn = []"
    and "send_tensors lib js node server ts w = (Ok (), w')" and "list_all (fits_frame js limit) ts"
  shows "\<exists>w''. receive_tensors lib js limit conn (length ts) w' = (Ok ts, w'')"
proof -
  have "queued unread pending js conn [] w" using assms(4) by (simp add: queued_def)
  from queued_send_all [OF assms(1,3) this assms(5)]
  show ?thesis by (intro queued_receive_all [OF assms(1,2) _ assms(6)]) simp
qed

definition sample_endpoint :: quic_endpoint where
  "sample_endpoint = \<lparr>qe_socket = 0, qe_default_client_config = None\<rparr>"

definition sample_connected :: quic_server where
  "sample_connected = \<lparr>qs_endpoint = sample_endpoint, qs_active_connections = [(7, 0)]\<rparr>"

definition sample_idle :: sample_world where
  "sample_idle = \<lparr>sw_next = 0, sw_unread = (\<lambda>_. []), sw_pending = (\<lambda>_. [])\<rparr>"

lemma sample_sends:
  "send_tensors sample_quic sample_json 7 sample_connected [(''w0'', [1, 2]), (''w1'', [])] sample_idle =
    (Ok (), snd (send_tensors sample_quic sample_json 7 sample_connected [(''w0'', [1, 2]), (''w1'', [])] sample_idle))"
  by (simp add: quic_server_send_tensor_def sample_connected_def hm_get_def quic_send_def Let_def
      lib_call_def sample_quic_def sample_idle_def bind_action_def return_action_def)

theorem tensors_delivered_in_order_witness:
  "\<exists>w. receive_tensors sample_quic sample_json 1000 0 2
      (snd (send_tensors sample_quic sample_json 7 sample_connected [(''w0'', [1, 2]), (''w1'', [])] sample_idle))
    = (Ok [(''w0'', [1, 2]), (''w1'', [])], w)"
proof -
  have "hm_get (qs_active_connections sample_connected) 7 = Some 0" "sw_pending sample_idle 0 = []"
    by (simp_all add: sample_connected_def hm_get_def sample_idle_def)
  moreover have "list_all (fits_frame sample_json 1000) [(''w0'', [1, 2]), (''w1'', [])]"
    by (simp add: fits_frame_def sample_json_def ascii_def)
  moreover have "length [(''w0'', [1, 2 :: u8]), (''w1'', [])] = 2" by simp
  ultimately show ?thesis
    using tensors_delivered_in_order [OF sample_quic_contract sample_json_contract _ _ sample_sends, of 0 1000]
    by (simp only:)
qed

text \<open>
  The server opens a stream of its own on every connection it accepts and
  never writes to it.  The peer accepts streams in the order they were opened,
  so its first receive, which takes that stream, fails once the stream is dropped
  (and waits until then), even though the tensor sent to it arrived; only the
  second receive returns it.
\<close>
theorem first_receive_fails:
  assumes "quic_contract lib unread pending ended" and "json_contract js"
    and "quic_accept lib fresh (server, w) = (Ok (node, conn, s), (server1, w1))" and "pending w1 conn = [s]"
    and "quic_server_send_tensor lib js node tensor data server1 w1 = (Ok (), w2)"
    and "ended w2 s" and "fits_frame js limit (tensor, data)"
  shows "\<exists>e w3. quic_receive_tensor lib js limit conn w2 = (Err (ReceiveError e), w3) \<and>
    (\<exists>w4. quic_receive_tensor lib js limit conn w3 = (Ok (tensor, data), w4))"
proof -
  have accepted: "node = fresh" "hm_get (qs_active_connections server1) fresh = Some conn" "unread w1 s = []"
    using quic_accept_opens [OF assms(1,3)] by blast+
  then have "quic_send lib js conn tensor data w1 = (Ok (), w2)"
    using assms(5) by (simp add: quic_server_send_tensor_def)
  then obtain t where t: "t \<noteq> s" "unread w2 = (unread w1)(t := frame js tensor data)"
      "pending w2 = (pending w1)(conn := [s, t])"
    using quic_send_frame [OF assms(1)] assms(4) by fastforce
  have "length (unread w2 t) \<noteq> 0" using t by (simp add: frame_def)
  then obtain e w3 where w3: "quic_receive_tensor lib js limit conn w2 = (Err (ReceiveError e), w3)"
      "unread w3 = unread w2" "pending w3 = (pending w2)(conn := [t])"
    using receive_nothing [OF assms(1), of w2 conn s "[t]" t] t accepted(3) assms(6) by fastforce
  have "queued unread pending js conn [(tensor, data)] w3" using w3 t by (simp add: queued_def)
  from queued_receive [OF assms(1,2) this assms(7)] w3(1) show ?thesis by blast
qed

theorem first_receive_fails_witness:
  "\<exists>e w3. quic_receive_tensor sample_quic sample_json 1000 0
      (snd (quic_server_send_tensor sample_quic sample_json 9 ''w0'' [1, 2] \<lparr>qs_endpoint = sample_endpoint, qs_active_connections = [(9, 0)]\<rparr>
        (sample_idle\<lparr>sw_next := 1, sw_pending := (\<lambda>_. [])(0 := [0])\<rparr>))) = (Err (ReceiveError e), w3)"
proof -
  let ?w1 = "sample_idle\<lparr>sw_next := 1, sw_pending := (\<lambda>_. [])(0 := [0])\<rparr>"
  let ?server = "\<lparr>qs_endpoint = sample_endpoint, qs_active_connections = [(9, 0)]\<rparr>"
  have "quic_accept sample_quic 9 (\<lparr>qs_endpoint = sample_endpoint, qs_active_connections = hm_new\<rparr>, sample_idle) = (Ok (9, 0, 0), (?server, ?w1))"
    by (simp add: quic_accept_def sample_quic_def lib_call_def bind_action_def extract_node_id_def lift_outcome_def
        return_action_def hm_new_def hm_insert_def sample_idle_def fun_upd_def)
  moreover have "quic_server_send_tensor sample_quic sample_json 9 ''w0'' [1, 2] ?server ?w1 =
      (Ok (), snd (quic_server_send_tensor sample_quic sample_json 9 ''w0'' [1, 2] ?server ?w1))"
    by (simp add: quic_server_send_tensor_def hm_get_def quic_send_def Let_def
        lib_call_def sample_quic_def sample_idle_def bind_action_def return_action_def)
  moreover have "sw_pending ?w1 0 = [0]" "fits_frame sample_json 1000 (''w0'', [1, 2])"
    by (simp_all add: fits_frame_def sample_json_def ascii_def)
  ultimately show ?thesis
    using first_receive_fails [OF sample_quic_contract sample_json_contract] by blast
qed

text \<open>
  The table is keyed by ids drawn at random: a node is never found under the id
  the coordinator knows it by, unless the draw hit it.
\<close>
theorem send_finds_drawn_ids_only:
  "hm_get (qs_active_connections server) node = None \<Longrightarrow>
   quic_server_send_tensor lib js node tensor data server w = (Err (QuicNodeNotFound node), w)"
  by (simp add: quic_server_send_tensor_def)

text \<open>
  C22.  The client can never connect: it builds a client configuration but sets
  it on no endpoint, so whenever its creation succeeds, every attempt to connect
  is refused, at any later time and whatever the server does.
\<close>
theorem quic_client_never_connects:
  assumes "endpoint_contract tls lib" and "quic_client_new tls addr cert w = (Ok client, w')"
  shows "\<exists>e. quic_connect lib client w1 = (Err (ConnectionError e), w1)"
proof -
  obtain socket w2 where "tl_endpoint tls socket w2 = (Inr (qc_endpoint client), w')"
    using assms(2) by (auto simp: quic_client_new_def lib_call_Ok return_action_def elim!: bind_action_OkE)
  then have "qe_default_client_config (qc_endpoint client) = None"
    using assms(1) unfolding endpoint_contract_def by blast
  then have "ql_connect lib (qc_endpoint client) (qc_server_addr client) ''localhost'' w1 = (Inl ''no default client config'', w1)"
    using assms(1) unfolding endpoint_contract_def by blast
  then show ?thesis by (auto simp: quic_connect_def)
qed

definition sample_tls :: "(nat, nat, sample_world) tls_lib" where
  "sample_tls = \<lparr>
     tl_server_config = (\<lambda>cert key. if cert = key then Inr 0 else Inl ''bad key''),
     tl_server_endpoint = (\<lambda>config addr w. (Inr sample_endpoint, w)),
     tl_add_root = (\<lambda>cert. if cert = 0 then Inl ''bad certificate'' else Inr cert),
     tl_client_config = (\<lambda>roots. Inr roots),
     tl_bind = (\<lambda>addr w. (Inr (sw_next w), w\<lparr>sw_next := Suc (sw_next w)\<rparr>)),
     tl_endpoint = (\<lambda>socket w. (Inr \<lparr>qe_socket = socket, qe_default_client_config = None\<rparr>, w))\<rparr>"

theorem quic_client_never_connects_witness:
  "\<exists>client w e. quic_client_new sample_tls ''10.0.0.1:4433'' 5 sample_idle = (Ok client, w) \<and>
     quic_connect sample_quic client w = (Err (ConnectionError e), w)"
proof -
  have contract: "endpoint_contract sample_tls sample_quic"
    by (auto simp: endpoint_contract_def sample_tls_def sample_quic_def)
  obtain client w where client: "quic_client_new sample_tls ''10.0.0.1:4433'' 5 sample_idle = (Ok client, w)"
    by (simp add: quic_client_new_def lib_call_def sample_tls_def bind_action_def return_action_def)
  from quic_client_never_connects [OF contract client, of w] client show ?thesis by blast
qed

end
