(* ===== verification/Rdma_Transport.thy ===== *)
theory Rdma_Transport
  imports Cluster_Types
begin

text \<open>
  The RDMA data plane, \<open>transports/rdma/src/lib.rs\<close>: tables of connections and
  memory regions, and transfers that are simulated by a sleep.  Random keys and
  fresh ids are arguments, a \<open>SocketAddr\<close> is its text; the sleep's length is a
  definition of its own, since nothing else depends on it.
\<close>

section \<open>State\<close>

datatype connection_state = Conn_Idle | Connecting | Connected | Disconnecting | Disconnected

record rdma_connection =
  rn_node_id :: node_id
  rn_remote_addr :: string
  rn_qp_num :: u32
  rn_state :: connection_state

record memory_region =
  mg_id :: string
  mg_addr :: u64
  mg_size :: u64
  mg_lkey :: u32
  mg_rkey :: u32

record rdma_server =
  rv_bind_addr :: string
  rv_memory_regions :: "(string, memory_region) hash_map"
  rv_active_connections :: "(node_id, rdma_connection) hash_map"

record rdma_client =
  rx_server_addr :: string
  rx_connection :: "rdma_connection option"
  rx_memory_regions :: "(string, memory_region) hash_map"

record rdma_stats =
  rst_active_connections :: nat
  rst_memory_regions :: nat

datatype rdma_error =
    DeviceNotFound
  | ConnectionFailed string
  | NotConnected
  | MemoryRegistrationFailed string
  | RdmaTransferFailed string
  | WorkRequestFailed string
  | CompletionError string
  | RdmaNodeNotFound node_id
  | RdmaInternal string

section \<open>Server\<close>

definition rdma_server_new :: "string \<Rightarrow> (rdma_error, rdma_server) outcome" where
  "rdma_server_new addr = Ok \<lparr>rv_bind_addr = addr, rv_memory_regions = hm_new, rv_active_connections = hm_new\<rparr>"

definition new_region :: "u32 \<Rightarrow> u32 \<Rightarrow> string \<Rightarrow> u64 \<Rightarrow> u64 \<Rightarrow> memory_region" where
  "new_region lkey rkey region addr bytes =
     \<lparr>mg_id = region, mg_addr = addr, mg_size = bytes, mg_lkey = lkey, mg_rkey = rkey\<rparr>"

definition server_register_memory_region ::
  "u32 \<Rightarrow> u32 \<Rightarrow> string \<Rightarrow> u64 \<Rightarrow> u64 \<Rightarrow> (rdma_server, rdma_error, unit) action" where
  "server_register_memory_region lkey rkey region addr bytes s =
     (Ok (), s\<lparr>rv_memory_regions := hm_insert region (new_region lkey rkey region addr bytes) (rv_memory_regions s)\<rparr>)"

definition rdma_accept ::
  "node_id \<Rightarrow> u32 \<Rightarrow> (rdma_server, rdma_error, node_id \<times> rdma_connection) action" where
  "rdma_accept fresh qp s =
     (let connection = \<lparr>rn_node_id = fresh, rn_remote_addr = rv_bind_addr s, rn_qp_num = qp, rn_state = Connected\<rparr>
      in (Ok (fresh, connection),
          s\<lparr>rv_active_connections := hm_insert fresh connection (rv_active_connections s)\<rparr>))"

definition transfer_time_us :: "nat \<Rightarrow> nat" where
  "transfer_time_us bytes = bytes div 1000"

definition rdma_server_send_tensor ::
  "node_id \<Rightarrow> tensor_id \<Rightarrow> u8 list \<Rightarrow> (rdma_server, rdma_error, unit) action" where
  "rdma_server_send_tensor node tensor data s = (Ok (), s)"

definition rdma_get_stats :: "rdma_server \<Rightarrow> rdma_stats" where
  "rdma_get_stats s = \<lparr>rst_active_connections = hm_len (rv_active_connections s),
     rst_memory_regions = hm_len (rv_memory_regions s)\<rparr>"

section \<open>Client\<close>

definition rdma_client_new :: "string \<Rightarrow> (rdma_error, rdma_client) outcome" where
  "rdma_client_new addr = Ok \<lparr>rx_server_addr = addr, rx_connection = None, rx_memory_regions = hm_new\<rparr>"

definition rdma_connect :: "node_id \<Rightarrow> u32 \<Rightarrow> (rdma_client, rdma_error, rdma_connection) action" where
  "rdma_connect fresh qp c =
     (let connection = \<lparr>rn_node_id = fresh, rn_remote_addr = rx_server_addr c, rn_qp_num = qp, rn_state = Connected\<rparr>
      in (Ok connection, c\<lparr>rx_connection := Some connection\<rparr>))"

definition client_register_memory_region ::
  "u32 \<Rightarrow> u32 \<Rightarrow> string \<Rightarrow> u64 \<Rightarrow> u64 \<Rightarrow> (rdma_client, rdma_error, unit) action" where
  "client_register_memory_region lkey rkey region addr bytes c =
     (Ok (), c\<lparr>rx_memory_regions := hm_insert region (new_region lkey rkey region addr bytes) (rx_memory_regions c)\<rparr>)"

text \<open>\<open>vec![0u8; size as usize]\<close> within the largest allocation the machine serves.\<close>

definition rdma_receive_tensor ::
  "nat \<Rightarrow> tensor_id \<Rightarrow> u64 \<Rightarrow> (rdma_client, rdma_error, u8 list) action" where
  "rdma_receive_tensor limit tensor bytes c =
     (case rx_connection c of
        None \<Rightarrow> (Err NotConnected, c)
      | Some _ \<Rightarrow> ((if unat bytes \<le> limit then Ok (replicate (unat bytes) 0) else Panic Capacity_Overflow), c))"

definition rdma_client_send_tensor :: "tensor_id \<Rightarrow> u8 list \<Rightarrow> (rdma_client, rdma_error, unit) action" where
  "rdma_client_send_tensor tensor data c =
     (case rx_connection c of None \<Rightarrow> (Err NotConnected, c) | Some _ \<Rightarrow> (Ok (), c))"

section \<open>Runs\<close>

text \<open>Any operations of a server and a client, with the data the receives return.\<close>

datatype rdma_op =
    Server_Register u32 u32 string u64 u64
  | Server_Accept node_id u32
  | Server_Send node_id tensor_id "u8 list"
  | Client_Connect node_id u32
  | Client_Register u32 u32 string u64 u64
  | Client_Send tensor_id "u8 list"
  | Client_Receive tensor_id u64

fun rdma_step ::
  "nat \<Rightarrow> rdma_op \<Rightarrow> rdma_server \<times> rdma_client \<Rightarrow>
   (rdma_error, u8 list) outcome option \<times> rdma_server \<times> rdma_client" where
  "rdma_step limit (Server_Register lkey rkey region addr bytes) (s, c) =
     (None, snd (server_register_memory_region lkey rkey region addr bytes s), c)"
| "rdma_step limit (Server_Accept fresh qp) (s, c) = (None, snd (rdma_accept fresh qp s), c)"
| "rdma_step limit (Server_Send node tensor data) (s, c) = (None, snd (rdma_server_send_tensor node tensor data s), c)"
| "rdma_step limit (Client_Connect fresh qp) (s, c) = (None, s, snd (rdma_connect fresh qp c))"
| "rdma_step limit (Client_Register lkey rkey region addr bytes) (s, c) =
     (None, s, snd (client_register_memory_region lkey rkey region addr bytes c))"
| "rdma_step limit (Client_Send tensor data) (s, c) = (None, s, snd (rdma_client_send_tensor tensor data c))"
| "rdma_step limit (Client_Receive tensor bytes) (s, c) =
     (case rdma_receive_tensor limit tensor bytes c of (r, c') \<Rightarrow> (Some r, s, c'))"

fun rdma_run ::
  "nat \<Rightarrow> rdma_op list \<Rightarrow> rdma_server \<times> rdma_client \<Rightarrow>
   (rdma_error, u8 list) outcome list \<times> rdma_server \<times> rdma_client" where
  "rdma_run limit [] st = ([], st)"
| "rdma_run limit (op # ops) st =
     (case rdma_step limit op st of
        (r, st') \<Rightarrow> (case rdma_run limit ops st' of
          (rs, st'') \<Rightarrow> ((case r of None \<Rightarrow> rs | Some o1 \<Rightarrow> o1 # rs), st'')))"

text \<open>The operation with the data it sends replaced.\<close>

fun with_data :: "(tensor_id \<Rightarrow> u8 list \<Rightarrow> u8 list) \<Rightarrow> rdma_op \<Rightarrow> rdma_op" where
  "with_data f (Server_Send node tensor data) = Server_Send node tensor (f tensor data)"
| "with_data f (Client_Send tensor data) = Client_Send tensor (f tensor data)"
| "with_data f op = op"

lemma rdma_step_data: "rdma_step limit (with_data f op) st = rdma_step limit op st"
  by (cases st; cases op) (simp_all add: rdma_server_send_tensor_def rdma_client_send_tensor_def split: option.split)

lemma rdma_run_data: "rdma_run limit (map (with_data f) ops) st = rdma_run limit ops st"
  by (induction ops arbitrary: st) (simp_all add: rdma_step_data)

lemma rdma_step_zeros:
  "rdma_step limit op st = (Some (Ok data), st') \<Longrightarrow> set data \<subseteq> {0}"
  by (cases st; cases op) (auto simp: rdma_receive_tensor_def split: option.splits if_splits)

lemma rdma_run_zeros: "Ok data \<in> set (fst (rdma_run limit ops st)) \<Longrightarrow> set data \<subseteq> {0}"
proof (induction ops arbitrary: st)
  case (Cons op ops)
  obtain r st' where step: "rdma_step limit op st = (r, st')" by (cases "rdma_step limit op st")
  obtain rs st'' where run: "rdma_run limit ops st' = (rs, st'')" by (cases "rdma_run limit ops st'")
  from Cons.prems have "Ok data \<in> set rs \<or> r = Some (Ok data)"
    by (auto simp: step run split: option.splits)
  then show ?case using Cons.IH [of st'] rdma_step_zeros [of limit op st data st'] step run by auto
qed simp

text \<open>The ids of the connections accepted and of the regions registered.\<close>

definition accepted_ids :: "rdma_op list \<Rightarrow> node_id set" where
  "accepted_ids ops = (\<Union>op \<in> set ops. case op of Server_Accept n qp \<Rightarrow> {n} | _ \<Rightarrow> {})"

definition region_ids :: "rdma_op list \<Rightarrow> string set" where
  "region_ids ops = (\<Union>op \<in> set ops. case op of Server_Register lkey rkey r addr bytes \<Rightarrow> {r} | _ \<Rightarrow> {})"

lemma ids_Cons:
  "accepted_ids (op # ops) = (case op of Server_Accept n qp \<Rightarrow> {n} | _ \<Rightarrow> {}) \<union> accepted_ids ops"
  "region_ids (op # ops) = (case op of Server_Register lkey rkey r addr bytes \<Rightarrow> {r} | _ \<Rightarrow> {}) \<union> region_ids ops"
  by (simp_all add: accepted_ids_def region_ids_def)

lemma hm_len_keys: "hm_ok m \<Longrightarrow> hm_len m = card (set (hm_keys m))"
  using distinct_card [of "hm_keys m"] by (simp add: hm_len_def hm_keys_def hm_ok_def del: set_map)

lemma set_hm_keys_insert: "set (hm_keys (hm_insert k v m)) = insert k (set (hm_keys m))"
proof (cases "hm_get m k = None")
  case False
  then have "k \<in> set (hm_keys m)" by (simp add: hm_get_keys)
  with False show ?thesis by (simp add: hm_keys_insert insert_absorb)
qed (simp add: hm_keys_insert)

lemma rdma_step_server:
  assumes "hm_ok (rv_active_connections s)" and "hm_ok (rv_memory_regions s)"
    and "rdma_step limit op (s, c) = (r, s1, c1)"
  shows "hm_ok (rv_active_connections s1) \<and> hm_ok (rv_memory_regions s1) \<and>
    set (hm_keys (rv_active_connections s1)) =
      (case op of Server_Accept n qp \<Rightarrow> {n} | _ \<Rightarrow> {}) \<union> set (hm_keys (rv_active_connections s)) \<and>
    set (hm_keys (rv_memory_regions s1)) =
      (case op of Server_Register lkey rkey r addr bytes \<Rightarrow> {r} | _ \<Rightarrow> {}) \<union> set (hm_keys (rv_memory_regions s))"
proof (cases op)
  case (Server_Register lkey rkey r addr bytes)
  then show ?thesis using assms by (auto simp: server_register_memory_region_def set_hm_keys_insert)
next
  case (Server_Accept n qp)
  then show ?thesis using assms by (auto simp: rdma_accept_def set_hm_keys_insert Let_def)
qed (use assms in \<open>auto simp: rdma_server_send_tensor_def split: prod.splits\<close>)

lemma rdma_run_server:
  assumes "hm_ok (rv_active_connections s)" and "hm_ok (rv_memory_regions s)"
  shows "\<exists>rs s' c'. rdma_run limit ops (s, c) = (rs, s', c') \<and>
    hm_ok (rv_active_connections s') \<and> hm_ok (rv_memory_regions s') \<and>
    set (hm_keys (rv_active_connections s')) = set (hm_keys (rv_active_connections s)) \<union> accepted_ids ops \<and>
    set (hm_keys (rv_memory_regions s')) = set (hm_keys (rv_memory_regions s)) \<union> region_ids ops"
  using assms
proof (induction ops arbitrary: s c)
  case Nil
  then show ?case by (simp add: accepted_ids_def region_ids_def)
next
  case (Cons op ops)
  obtain r s1 c1 where step: "rdma_step limit op (s, c) = (r, s1, c1)"
    by (cases "rdma_step limit op (s, c)") auto
  note s1 = rdma_step_server [OF Cons.prems step]
  obtain rs s2 c2 where "rdma_run limit ops (s1, c1) = (rs, s2, c2)"
      "hm_ok (rv_active_connections s2)" "hm_ok (rv_memory_regions s2)"
      "set (hm_keys (rv_active_connections s2)) = set (hm_keys (rv_active_connections s1)) \<union> accepted_ids ops"
      "set (hm_keys (rv_memory_regions s2)) = set (hm_keys (rv_memory_regions s1)) \<union> region_ids ops"
    using Cons.IH [of s1 c1] s1 by blast
  then show ?case using s1 by (simp add: step ids_Cons Un_ac)
qed

section \<open>Properties\<close>

text \<open>
  Nothing is transferred: whatever a server and a client do, every tensor a
  receive returns consists of zeros, and replacing the data of all sends by any
  other data changes neither what is received nor the states.
\<close>
theorem rdma_transfers_nothing:
  "(\<forall>data \<in> {data. Ok data \<in> set (fst (rdma_run limit ops st))}. set data \<subseteq> {0}) \<and>
   rdma_run limit (map (with_data f) ops) st = rdma_run limit ops st"
  using rdma_run_zeros rdma_run_data by blast

text \<open>
  The statistics of a server count the ids it accepted and the regions it
  registered, after any operations and in any order; a connection is never
  removed.
\<close>
theorem rdma_stats_count:
  "rdma_server_new addr = Ok s \<Longrightarrow> rdma_run limit ops (s, c) = (rs, s', c') \<Longrightarrow>
   rdma_get_stats s' = \<lparr>rst_active_connections = card (accepted_ids ops), rst_memory_regions = card (region_ids ops)\<rparr>"
  using rdma_run_server [of s limit ops c]
  by (auto simp: rdma_server_new_def rdma_get_stats_def hm_len_keys hm_keys_def hm_new_def hm_ok_def)

definition sample_rdma :: "rdma_server \<times> rdma_client" where
  "sample_rdma =
     (\<lparr>rv_bind_addr = ''10.0.0.1:1'', rv_memory_regions = hm_new, rv_active_connections = hm_new\<rparr>,
      \<lparr>rx_server_addr = ''10.0.0.1:1'', rx_connection = None, rx_memory_regions = hm_new\<rparr>)"

theorem rdma_transfers_nothing_witness:
  "\<exists>data. Ok data \<in> set (fst (rdma_run 100 [Client_Connect 1 2, Server_Send 1 ''w'' [7, 8], Client_Receive ''w'' 2] sample_rdma)) \<and>
     length data = 2 \<and> set data \<subseteq> {0}"
proof -
  let ?run = "rdma_run 100 [Client_Connect 1 2, Server_Send 1 ''w'' [7, 8], Client_Receive ''w'' 2] sample_rdma"
  have "Ok (replicate 2 0) \<in> set (fst ?run)"
    by (simp add: sample_rdma_def rdma_connect_def rdma_server_send_tensor_def rdma_receive_tensor_def Let_def)
  then show ?thesis
    using rdma_transfers_nothing [of 100 "[Client_Connect 1 2, Server_Send 1 ''w'' [7, 8], Client_Receive ''w'' 2]" sample_rdma]
    by (intro exI [of _ "replicate 2 0"] conjI) auto
qed

theorem rdma_stats_count_witness:
  "rdma_get_stats (fst (snd (rdma_run 100 [Server_Accept 5 0, Server_Accept 6 0, Server_Register 1 2 ''r'' 0 16] sample_rdma)))
    = \<lparr>rst_active_connections = 2, rst_memory_regions = 1\<rparr>"
proof -
  let ?ops = "[Server_Accept 5 0, Server_Accept 6 0, Server_Register 1 2 ''r'' 0 16]"
  have "rdma_server_new ''10.0.0.1:1'' = Ok (fst sample_rdma)" by (simp add: rdma_server_new_def sample_rdma_def)
  moreover have "rdma_run 100 ?ops (fst sample_rdma, snd sample_rdma) =
      (fst (rdma_run 100 ?ops sample_rdma), fst (snd (rdma_run 100 ?ops sample_rdma)), snd (snd (rdma_run 100 ?ops sample_rdma)))"
    by (simp only: prod.collapse)
  moreover have "card (accepted_ids ?ops) = 2" "card (region_ids ?ops) = 1"
    by (simp_all add: accepted_ids_def region_ids_def)
  ultimately show ?thesis
    using rdma_stats_count [of "''10.0.0.1:1''" "fst sample_rdma" 100 ?ops "snd sample_rdma"] by metis
qed

end
