(* ===== verification/Ieee_Sqrt.thy ===== *)
theory Ieee_Sqrt
  imports Ieee
begin

text \<open>
  \<open>f64::sqrt\<close>, correctly rounded as IEEE 754 requires, by an integer square root
  of the scaled argument; and the facts on sums and squares that bound a standard
  deviation computed in floating point.
\<close>

section \<open>Integer square root\<close>

function isqrt :: "nat \<Rightarrow> nat" where
  "isqrt n = (if n = 0 then 0 else let r = 2 * isqrt (n div 4) in if (r + 1) * (r + 1) \<le> n then r + 1 else r)"
  by pat_completeness auto
termination
  by (relation "measure (\<lambda>n. n)") auto

declare isqrt.simps [simp del]

lemma isqrt_bounds: "isqrt n * isqrt n \<le> n \<and> n < (isqrt n + 1) * (isqrt n + 1)"
proof (induction n rule: isqrt.induct)
  case (1 n)
  show ?case
  proof (cases "n = 0")
    case False
    define s where "s = isqrt (n div 4)"
    have s: "s * s \<le> n div 4" "n div 4 < (s + 1) * (s + 1)" using 1 False by (simp_all add: s_def)
    then have "2 * s * (2 * s) \<le> n" "n < (2 * s + 2) * (2 * s + 2)" by (simp_all add: algebra_simps)
    then show ?thesis by (simp add: isqrt.simps [of n] False Let_def s_def [symmetric])
  qed (simp add: isqrt.simps)
qed

section \<open>Square root\<close>

fun fl_sqrt :: "float_format \<Rightarrow> fl \<Rightarrow> fl" where
  "fl_sqrt fmt NaN = NaN"
| "fl_sqrt fmt Neg_Inf = NaN"
| "fl_sqrt fmt Pos_Inf = Pos_Inf"
| "fl_sqrt fmt (Fin x) =
     (if x < 0 then NaN
      else if x = 0 then Fin 0
      else let u = floor_log2 x div 2 - int (prec fmt) + 1;
               y = x / (2 powi u * 2 powi u);
               m = isqrt (nat \<lfloor>y\<rfloor>)
           in Fin (of_nat (if (of_nat m + 1 / 2) * (of_nat m + 1 / 2) < y then m + 1 else m) * 2 powi u))"

text \<open>A square root never passes a count above the exact root.\<close>

lemma fl_sqrt_le:
  assumes "0 \<le> x" and "x \<le> of_nat d * of_nat d" and "x < 2 ^ 100"
  shows "\<exists>y. fl_sqrt binary64 (Fin x) = Fin y \<and> 0 \<le> y \<and> y \<le> of_nat d"
proof (cases "x = 0")
  case False
  define u where "u = floor_log2 x div 2 - 52"
  define y where "y = x / (2 powi u * 2 powi u)"
  define m where "m = isqrt (nat \<lfloor>y\<rfloor>)"
  define r where "r = (if (of_nat m + 1 / 2) * (of_nat m + 1 / 2) < y then m + 1 else m)"
  have x: "0 < x" using assms(1) False by simp
  have "x < 2 powi 100" using assms(3) by simp
  then have "floor_log2 x < 100" using floor_log2_less [of x 100] x by simp
  then have "u \<le> 0" by (simp add: u_def) 
  then obtain j where u: "u = - int j" by (metis nonpos_int_cases)
  define k where "k = d * 2 ^ j"
  have uk: "of_nat k * 2 powi u = (of_nat d :: rat)" by (simp add: k_def u power_int_minus)
  have "y * (2 powi u * 2 powi u) = x" by (simp add: y_def)
  then have "y * (2 powi u * 2 powi u) \<le> of_nat k * of_nat k * (2 powi u * 2 powi u)"
    using assms(2) uk by (metis mult.assoc mult.left_commute)
  then have yk: "y \<le> of_nat k * of_nat k" by (simp add: mult_le_cancel_right)
  have y0: "0 \<le> y" using x by (simp add: y_def)
  have "r \<le> k"
  proof -
    have my: "of_nat (m * m) \<le> y"
    proof -
      have "m * m \<le> nat \<lfloor>y\<rfloor>" using isqrt_bounds by (simp add: m_def)
      then have "int (m * m) \<le> \<lfloor>y\<rfloor>" using y0 by linarith
      then show ?thesis by (simp only: le_floor_iff of_int_of_nat_eq)
    qed
    then have "of_nat (m * m) \<le> (of_nat (k * k) :: rat)" using yk by simp
    then have "m * m \<le> k * k" by (simp only: of_nat_le_iff)
    then have mk: "m \<le> k" using mult_strict_mono [of k m k m] by (cases "k < m") simp_all
    moreover have "\<not> (of_nat m + 1 / 2) * (of_nat m + 1 / 2) < y" if "m = k"
      using yk that by (simp add: algebra_simps)
    ultimately show ?thesis by (cases "m = k") (auto simp: r_def)
  qed
  then have "of_nat r * 2 powi u \<le> of_nat k * (2 powi u :: rat)" by (intro mult_right_mono) simp_all
  moreover have "fl_sqrt binary64 (Fin x) = Fin (of_nat r * 2 powi u)"
    using x by (simp add: Let_def u_def [symmetric] y_def [symmetric] m_def [symmetric] r_def)
  ultimately show ?thesis using uk by simp
qed simp

section \<open>Rounding and signs\<close>

lemma round_half_even_minus: "round_half_even (- x) = - round_half_even x"
proof (cases "x = of_int \<lfloor>x\<rfloor>")
  case True
  then show ?thesis by (metis of_int_minus round_half_even_of_int)
next
  case False
  then have "\<lceil>x\<rceil> = \<lfloor>x\<rfloor> + 1" by (simp add: ceiling_altdef)
  then have "\<lfloor>- x\<rfloor> = - \<lfloor>x\<rfloor> - 1" by (simp add: floor_minus)
  then show ?thesis
    by (auto simp: round_half_even_def Let_def)
qed

lemma round_rat_minus: "round_rat p q (- x) = - round_rat p q x"
  by (simp add: round_rat_def Let_def quantum_def round_half_even_minus)

lemma round_rat_abs_le:
  assumes "\<bar>x\<bar> \<le> of_nat n" and "n \<le> 2 ^ 53"
  shows "\<bar>round_rat 53 (-1074) x\<bar> \<le> of_nat n"
proof -
  have le: "round_rat 53 (-1074) y \<le> of_nat n" if "0 < y" "y \<le> of_nat n" for y
    using r64.rnd_le_int [OF that(1), of "int n"] that(2) assms(2) by simp
  consider "x = 0" | "0 < x" | "0 < - x" by linarith
  then show ?thesis
  proof cases
    case 2
    then show ?thesis using le [of x] assms(1) round_rat_nonneg [of x] by simp
  next
    case 3
    then show ?thesis using le [of "- x"] assms(1) round_rat_nonneg [of "- x"] by (simp add: round_rat_minus)
  qed (simp add: round_rat_def)
qed

text \<open>A result bounded by a count is finite and bounded by it after rounding.\<close>

lemma fl_round_abs_le:
  assumes "\<bar>x\<bar> \<le> of_nat n" and "n \<le> 2 ^ 53"
  shows "\<exists>y. fl_round binary64 x = Fin y \<and> \<bar>y\<bar> \<le> of_nat n \<and> (0 \<le> x \<longrightarrow> 0 \<le> y)"
proof -
  let ?r = "round_rat 53 (-1074) x"
  have r: "\<bar>?r\<bar> \<le> of_nat n" using round_rat_abs_le [OF assms] .
  have "(of_nat n :: rat) \<le> 2 ^ 53" using assms(2) by (metis of_nat_le_iff of_nat_numeral of_nat_power)
  then have "\<bar>?r\<bar> < 2 ^ 1024" using r by simp
  then have "\<not> 2 ^ 1024 \<le> ?r" "\<not> ?r \<le> - (2 ^ 1024)" by (simp_all only: abs_less_iff) linarith+
  then show ?thesis using r round_rat_nonneg [of x] by (simp add: fl_round_def Let_def)
qed

text \<open>A value between two counts stays between them.\<close>

lemma fl_round_between:
  assumes "of_nat lo \<le> x" and "x \<le> of_nat hi" and "hi \<le> 2 ^ 53"
  shows "\<exists>y. fl_round binary64 x = Fin y \<and> of_nat lo \<le> y \<and> y \<le> of_nat hi"
proof -
  have "0 \<le> x" using assms(1) of_nat_0_le_iff order_trans by blast
  moreover from this have "\<bar>x\<bar> \<le> of_nat hi" using assms(2) by simp
  ultimately obtain y where y: "fl_round binary64 x = Fin y" "\<bar>y\<bar> \<le> of_nat hi" "0 \<le> y"
    using fl_round_abs_le [of x hi] assms(3) by blast
  have "of_nat lo \<le> y"
  proof (cases "lo = 0")
    case False
    have "of_nat lo \<le> (of_nat hi :: rat)" using assms(1,2) by (rule order_trans)
    then have lo: "lo \<le> 2 ^ 53" using assms(3) by simp
    have "y = round_rat 53 (-1074) x" using y(1) by (simp add: fl_round_def Let_def split: if_splits)
    then show ?thesis
      using round_rat_mono [of "of_nat lo" x 53 "-1074"] assms(1) False r64.rnd_nat [OF lo] by simp
  qed (simp add: y(3))
  then show ?thesis using y by auto
qed

end
