(* ===== verification/Topology.thy ===== *)
theory Topology
  imports Ieee_Sqrt Cluster_Types
begin

text \<open>
  The topology profiler, \<open>crates/topology/src/lib.rs\<close>: round trips between nodes,
  the jitter as their standard deviation in \<open>f64\<close>, and the loop over all pairs.

  A round trip's fate is an argument, one per datagram: an error of the socket,
  an answer (or a receive error, which the code treats alike) after some
  nanoseconds, or no answer ever.  The code waits for the answer without a time
  limit, so a measurement may not return: \<open>None\<close>.
\<close>

section \<open>Round trips\<close>

datatype ping = Socket_Error string | Answered nat | Silence

type_synonym 'a measured = "(string, 'a) outcome option"

definition bind_measured :: "'a measured \<Rightarrow> ('a \<Rightarrow> 'b measured) \<Rightarrow> 'b measured" where
  "bind_measured m f =
     (case m of None \<Rightarrow> None | Some (Ok a) \<Rightarrow> f a | Some (Err e) \<Rightarrow> Some (Err e) | Some (Panic p) \<Rightarrow> Some (Panic p))"

text \<open>\<open>(elapsed.as_micros() / 2) as u32\<close>.\<close>

fun measure_latency :: "ping \<Rightarrow> u32 measured" where
  "measure_latency (Socket_Error e) = Some (Err e)"
| "measure_latency (Answered nanos) = Some (Ok (word_of_nat (nanos div 1000 div 2)))"
| "measure_latency Silence = None"

definition measure_bandwidth :: "u32 measured" where
  "measure_bandwidth = Some (Ok 1000)"

text \<open>The ten samples of \<open>measure_jitter\<close>.\<close>

fun collect_latencies :: "ping list \<Rightarrow> u32 list measured" where
  "collect_latencies [] = Some (Ok [])"
| "collect_latencies (p # ps) =
     bind_measured (measure_latency p) (\<lambda>latency.
     bind_measured (collect_latencies ps) (\<lambda>latencies. Some (Ok (latency # latencies))))"

definition f64_sum :: "f64 list \<Rightarrow> f64" where
  "f64_sum = foldl (fl_add binary64) (Fin 0)"

text \<open>\<open>powi(2)\<close> is one multiplication.\<close>

definition latency_mean :: "u32 list \<Rightarrow> f64" where
  "latency_mean latencies =
     fl_div binary64 (f64_sum (map f64_of latencies)) (fl_of_nat binary64 (length latencies))"

definition latency_variance :: "u32 list \<Rightarrow> f64" where
  "latency_variance latencies =
     (let mean = latency_mean latencies
      in fl_div binary64
           (f64_sum (map (\<lambda>x. let d = fl_sub binary64 (f64_of x) mean in fl_mul binary64 d d) latencies))
           (fl_of_nat binary64 (length latencies)))"

definition jitter_of :: "u32 list \<Rightarrow> u32" where
  "jitter_of latencies = fl_to_word (fl_sqrt binary64 (latency_variance latencies))"

definition measure_jitter :: "ping list \<Rightarrow> u32 measured" where
  "measure_jitter pings =
     bind_measured (collect_latencies (take 10 pings)) (\<lambda>latencies. Some (Ok (jitter_of latencies)))"

section \<open>Links\<close>

text \<open>
  What one link's measurement draws and meets: the two fresh ids of its ends, the
  fate of the datagram that measures the latency and of those that measure the jitter.
\<close>

record probes =
  pr_fresh :: "uuid \<times> uuid"
  pr_latency :: ping
  pr_jitter :: "ping list"

definition measure_link :: "probes \<Rightarrow> link_measurement measured" where
  "measure_link pr =
     bind_measured (measure_latency (pr_latency pr)) (\<lambda>latency_us.
     bind_measured measure_bandwidth (\<lambda>bandwidth_mbps.
     bind_measured (measure_jitter (pr_jitter pr)) (\<lambda>jitter_us.
       Some (Ok \<lparr>lm_from = fst (pr_fresh pr), lm_to = snd (pr_fresh pr), lm_transport = ''tcp'',
         lm_latency_us = latency_us, lm_bandwidth_mbps = bandwidth_mbps, lm_jitter_us = jitter_us,
         lm_packet_loss_percent = Fin 0\<rparr>))))"

definition placeholder_topology :: node_topology where
  "placeholder_topology = \<lparr>nt_cpu_score = Fin 100, nt_ram_usable_bytes = 16 * 1024 * 1024 * 1024,
     nt_devices = [''cpu:0'']\<rparr>"

text \<open>
  The two loops of \<open>profile_cluster\<close>.  \<open>net a b addr\<close> is what the measurement of the
  pair \<open>a\<close>, \<open>b\<close> meets when it sends to \<open>addr\<close>; a link whose measurement fails is left out.
\<close>

type_synonym network = "node_id \<Rightarrow> node_id \<Rightarrow> string \<Rightarrow> probes"

fun profile_row ::
  "network \<Rightarrow> (node_id, string) hash_map \<Rightarrow> node_id \<Rightarrow> node_id list \<Rightarrow>
   link_measurement list \<Rightarrow> link_measurement list option" where
  "profile_row net addrs from [] links = Some links"
| "profile_row net addrs from (dest # dests) links =
     (case (hm_get addrs from, hm_get addrs dest) of
        (Some from_addr, Some to_addr) \<Rightarrow>
          (case measure_link (net from dest to_addr) of
             None \<Rightarrow> None
           | Some (Ok measurement) \<Rightarrow> profile_row net addrs from dests (links @ [measurement])
           | Some _ \<Rightarrow> profile_row net addrs from dests links)
      | _ \<Rightarrow> profile_row net addrs from dests links)"

fun profile_rows ::
  "network \<Rightarrow> (node_id, string) hash_map \<Rightarrow> node_id list \<Rightarrow>
   (node_id, node_topology) hash_map \<Rightarrow> link_measurement list \<Rightarrow> cluster_topology option" where
  "profile_rows net addrs [] nodes links = Some \<lparr>ct_nodes = nodes, ct_links = links\<rparr>"
| "profile_rows net addrs (from # rest) nodes links =
     (case profile_row net addrs from rest links of
        None \<Rightarrow> None
      | Some links' \<Rightarrow> profile_rows net addrs rest (hm_insert from placeholder_topology nodes) links')"

definition profile_cluster :: "network \<Rightarrow> (node_id, string) hash_map \<Rightarrow> cluster_topology option" where
  "profile_cluster net addrs = profile_rows net addrs (hm_keys addrs) hm_new []"

section \<open>Quality\<close>

datatype link_quality = Excellent | Good | Acceptable | Poor

definition estimate_link_quality :: "link_measurement \<Rightarrow> link_quality" where
  "estimate_link_quality m =
     (if 10000 \<le> lm_bandwidth_mbps m \<and> lm_latency_us m < 100 then Excellent
      else if 2500 \<le> lm_bandwidth_mbps m \<and> lm_latency_us m < 500 then Good
      else if 1000 \<le> lm_bandwidth_mbps m \<and> lm_latency_us m < 2000 then Acceptable
      else Poor)"

record benchmark_config =
  bc_latency_samples :: u32
  bc_bandwidth_duration_secs :: u32
  bc_bandwidth_size_bytes :: u64

definition benchmark_config_default :: benchmark_config where
  "benchmark_config_default = \<lparr>bc_latency_samples = 10, bc_bandwidth_duration_secs = 5,
     bc_bandwidth_size_bytes = 100 * 1024 * 1024\<rparr>"

section \<open>Lemmas\<close>

lemma bind_measured_Some [simp]: "bind_measured (Some (Ok a)) f = f a" "bind_measured None f = None"
    "bind_measured (Some (Err e)) f = Some (Err e)" "bind_measured (Some (Panic p)) f = Some (Panic p)"
  by (simp_all add: bind_measured_def)

text \<open>Sums of values between 0 and a count stay below the count times the length.\<close>

lemma f64_sum_bounds:
  assumes "\<And>x. x \<in> set xs \<Longrightarrow> \<exists>y. f x = Fin y \<and> 0 \<le> y \<and> y \<le> of_nat b" and "(k + length xs) * b \<le> 2 ^ 53"
    and "0 \<le> a" and "a \<le> of_nat (k * b)"
  shows "\<exists>y. foldl (fl_add binary64) (Fin a) (map f xs) = Fin y \<and> 0 \<le> y \<and> y \<le> of_nat ((k + length xs) * b)"
  using assms
proof (induction xs arbitrary: k a)
  case (Cons x xs)
  obtain y where y: "f x = Fin y" "0 \<le> y" "y \<le> of_nat b" using Cons.prems(1) [of x] by auto
  have sum: "0 \<le> a + y" "a + y \<le> of_nat (Suc k * b)" using y Cons.prems(3,4) by simp_all
  moreover have "Suc k * b \<le> (k + length (x # xs)) * b" by (rule mult_le_mono1) simp
  with Cons.prems(2) have "Suc k * b \<le> 2 ^ 53" by (rule order_trans [rotated])
  ultimately obtain z where z: "fl_round binary64 (a + y) = Fin z" "0 \<le> z" "z \<le> of_nat (Suc k * b)"
    using fl_round_abs_le [of "a + y" "Suc k * b"] by auto
  have "\<exists>y. foldl (fl_add binary64) (Fin z) (map f xs) = Fin y \<and> 0 \<le> y \<and> y \<le> of_nat ((Suc k + length xs) * b)"
    using Cons.prems(1,2) z(2,3) by (intro Cons.IH) simp_all
  then show ?case using y(1) z(1) by simp
qed auto

lemma f64_sum_total:
  assumes "\<And>x. x \<in> set xs \<Longrightarrow> \<exists>y. f x = Fin y \<and> 0 \<le> y \<and> y \<le> of_nat b" and "length xs * b \<le> 2 ^ 53"
  shows "\<exists>y. f64_sum (map f xs) = Fin y \<and> 0 \<le> y \<and> y \<le> of_nat (length xs * b)"
  using f64_sum_bounds [of xs f b 0 0] assms by (simp add: f64_sum_def)

text \<open>Sums of counts are exact.\<close>

lemma f64_sum_nat:
  "k + sum_list ns \<le> 2 ^ 53 \<Longrightarrow> foldl (fl_add binary64) (Fin (of_nat k)) (map (fl_of_nat binary64) ns) =
     Fin (of_nat (k + sum_list ns))"
proof (induction ns arbitrary: k)
  case (Cons n ns)
  have exact: "fl_of_nat binary64 m = Fin (of_nat m)" if "m \<le> 2 ^ 53" for m
    using that r64.rnd_nat [OF that] by (simp add: fl_of_nat_Fin64)
  have "k + n \<le> 2 ^ 53" "n \<le> 2 ^ 53" using Cons.prems by simp_all
  then have "fl_add binary64 (Fin (of_nat k)) (fl_of_nat binary64 n) = Fin (of_nat (k + n))"
    using exact [of "k + n", unfolded fl_of_nat_def] exact [of n] by simp
  then show ?case using Cons.IH [of "k + n"] Cons.prems by (simp add: add.assoc)
qed simp

lemma sum_list_between:
  "(\<And>x. x \<in> set ns \<Longrightarrow> lo \<le> x \<and> x \<le> hi) \<Longrightarrow> length ns * lo \<le> sum_list ns \<and> sum_list ns \<le> length ns * (hi :: nat)"
  by (induction ns) (auto intro: add_mono)

lemma latency_mean_between:
  assumes "\<And>x. x \<in> set xs \<Longrightarrow> lo \<le> unat x \<and> unat x \<le> hi" and "xs \<noteq> []" and "length xs \<le> 2 ^ 20"
  shows "\<exists>y. latency_mean xs = Fin y \<and> of_nat lo \<le> y \<and> y \<le> of_nat hi"
proof -
  let ?ns = "map unat xs" and ?n = "length xs"
  have sum: "?n * lo \<le> sum_list ?ns" "sum_list ?ns \<le> ?n * hi"
    using sum_list_between [of ?ns lo hi] assms(1) by auto
  have "unat x < 2 ^ 32" for x :: u32 using unat_bound [of x] by simp
  then have "sum_list ?ns \<le> ?n * 2 ^ 32" using sum_list_between [of ?ns 0 "2 ^ 32"] by (auto intro: less_imp_le)
  then have small: "sum_list ?ns \<le> 2 ^ 53" using assms(3) by simp
  have n: "0 < ?n" "fl_of_nat binary64 ?n = Fin (of_nat ?n)"
    using assms(2,3) r64.rnd_nat [of ?n] by (simp_all add: fl_of_nat_Fin64)
  have "map f64_of xs = map (fl_of_nat binary64) ?ns" by (simp add: f64_of_def)
  then have total: "f64_sum (map f64_of xs) = Fin (of_nat (sum_list ?ns))"
    using f64_sum_nat [of 0 ?ns] small by (simp only: f64_sum_def) simp
  have mean: "latency_mean xs = fl_round binary64 (of_nat (sum_list ?ns) / of_nat ?n)"
    unfolding latency_mean_def total n(2) using n(1) by simp
  have hi: "\<exists>h \<le> hi. h \<le> 2 ^ 53 \<and> sum_list ?ns \<le> ?n * h"
  proof (cases "hi \<le> 2 ^ 53")
    case False
    then show ?thesis using \<open>sum_list ?ns \<le> ?n * 2 ^ 32\<close> by (intro exI [of _ "2 ^ 32"]) simp
  qed (use sum in blast)
  then obtain h where h: "h \<le> hi" "h \<le> 2 ^ 53" "sum_list ?ns \<le> ?n * h" by blast
  have "of_nat lo * of_nat ?n \<le> (of_nat (sum_list ?ns) :: rat)" "(of_nat (sum_list ?ns) :: rat) \<le> of_nat h * of_nat ?n"
    using sum(1) h(3) by (simp_all only: of_nat_mult [symmetric] of_nat_le_iff mult.commute)
  then have "of_nat lo \<le> (of_nat (sum_list ?ns) / of_nat ?n :: rat)" "of_nat (sum_list ?ns) / of_nat ?n \<le> (of_nat h :: rat)"
    using n(1) by (simp_all only: pos_le_divide_eq pos_divide_le_eq of_nat_0_less_iff)
  from fl_round_between [OF this h(2)] obtain y where "fl_round binary64 (of_nat (sum_list ?ns) / of_nat ?n) = Fin y"
      "of_nat lo \<le> y" "y \<le> of_nat h" by blast
  moreover have "(of_nat h :: rat) \<le> of_nat hi" using h(1) by simp
  ultimately show ?thesis using mean by (metis order_trans)
qed

text \<open>The measured pairs, in the order of the loops, and what the loops keep of them.\<close>

fun node_pairs :: "'n list \<Rightarrow> ('n \<times> 'n) list" where
  "node_pairs [] = []"
| "node_pairs (n # ns) = map (Pair n) ns @ node_pairs ns"

definition measured_pair :: "network \<Rightarrow> (node_id, string) hash_map \<Rightarrow> node_id \<times> node_id \<Rightarrow> link_measurement measured" where
  "measured_pair net addrs = (\<lambda>(a, b). measure_link (net a b (the (hm_get addrs b))))"

definition good_links :: "link_measurement measured list \<Rightarrow> link_measurement list" where
  "good_links rs = List.map_filter (\<lambda>r. case r of Some (Ok m) \<Rightarrow> Some m | _ \<Rightarrow> None) rs"

lemma good_links_simps [simp]: "good_links [] = []"
    "good_links (Some (Ok m) # rs) = m # good_links rs" "good_links (Some (Err e) # rs) = good_links rs"
    "good_links (Some (Panic p) # rs) = good_links rs" "good_links (rs @ rs') = good_links rs @ good_links rs'"
  by (simp_all add: good_links_def map_filter_simps) (simp add: List.map_filter_def)

lemma profile_row_eq:
  assumes "set (from # dests) \<subseteq> set (hm_keys addrs)"
  shows "profile_row net addrs from dests links =
    (let rs = map (measured_pair net addrs) (map (Pair from) dests)
     in if None \<in> set rs then None else Some (links @ good_links rs))"
  using assms
proof (induction dests arbitrary: links)
  case (Cons d dests)
  then obtain fa ta where "hm_get addrs from = Some fa" "hm_get addrs d = Some ta"
    by (metis hm_get_keys insert_subset list.simps(15) not_None_eq)
  moreover have "set (from # dests) \<subseteq> set (hm_keys addrs)" using Cons.prems by simp
  ultimately show ?case
    using Cons.IH
    by (cases "measure_link (net from d ta)" rule: option.exhaust)
      (auto simp: measured_pair_def Let_def split: outcome.split)
qed simp

lemma profile_rows_eq:
  assumes "set ids \<subseteq> set (hm_keys addrs)" and "distinct ids" and "set ids \<inter> set (hm_keys nodes) = {}"
  shows "profile_rows net addrs ids nodes links =
    (let rs = map (measured_pair net addrs) (node_pairs ids)
     in if None \<in> set rs then None
        else Some \<lparr>ct_nodes = nodes @ map (\<lambda>n. (n, placeholder_topology)) ids, ct_links = links @ good_links rs\<rparr>)"
  using assms
proof (induction ids arbitrary: nodes links)
  case (Cons a ids)
  have absent: "hm_insert a t nodes = nodes @ [(a, t)]" for t
    using Cons.prems(3) by (simp add: hm_insert_absent hm_get_keys)
  show ?case
    using Cons.IH [of "hm_insert a placeholder_topology nodes"] Cons.prems
    by (auto simp: profile_row_eq absent Let_def hm_keys_def)
qed simp

section \<open>The jitter's bound\<close>

lemma f64_of_exact: "f64_of (x :: u32) = Fin (of_nat (unat x))"
proof -
  have "unat x \<le> 2 ^ 53" using unat_bound [of x] by simp
  then show ?thesis using r64.rnd_nat [of "unat x"] by (simp add: f64_of_def fl_of_nat_Fin64)
qed

text \<open>A squared deviation, rounded twice, stays within the square of the spread.\<close>

lemma square_dev_bound:
  assumes "\<bar>of_nat n - y\<bar> \<le> of_nat d" and "d * d \<le> 2 ^ 53"
  shows "\<exists>z. (let e = fl_sub binary64 (Fin (of_nat n)) (Fin y) in fl_mul binary64 e e) = Fin z \<and> 0 \<le> z \<and> z \<le> of_nat (d * d)"
proof -
  have "d \<le> d * d" by simp
  then have "d \<le> 2 ^ 53" using assms(2) by (rule order_trans)
  from fl_round_abs_le [OF assms(1) this] obtain e where e: "fl_round binary64 (of_nat n - y) = Fin e" "\<bar>e\<bar> \<le> of_nat d"
    by blast
  have "e * e = \<bar>e\<bar> * \<bar>e\<bar>" by simp
  also have "\<dots> \<le> of_nat d * of_nat d" using e(2) by (intro mult_mono) simp_all
  finally have "\<bar>e * e\<bar> \<le> of_nat (d * d)" by simp
  from fl_round_abs_le [OF this assms(2)] obtain z where "fl_round binary64 (e * e) = Fin z" "\<bar>z\<bar> \<le> of_nat (d * d)" "0 \<le> z"
    by auto
  then show ?thesis using e(1) by (simp add: fl_sub_def)
qed

lemma factor_le: "xs \<noteq> [] \<Longrightarrow> length xs * q \<le> b \<Longrightarrow> q \<le> (b :: nat)"
  by (cases xs) (simp_all add: trans_le_add1 add_leD1)

lemma variance_bound:
  assumes "\<And>x. x \<in> set xs \<Longrightarrow> lo \<le> unat x \<and> unat x \<le> hi" and "xs \<noteq> []" and "length xs \<le> 2 ^ 20"
    and "length xs * ((hi - lo) * (hi - lo)) \<le> 2 ^ 53"
  shows "\<exists>v. latency_variance xs = Fin v \<and> 0 \<le> v \<and> v \<le> of_nat ((hi - lo) * (hi - lo))"
proof -
  let ?d = "hi - lo" and ?n = "length xs"
  let ?dev = "\<lambda>m x. let e = fl_sub binary64 (f64_of x) m in fl_mul binary64 e e"
  obtain m where m: "latency_mean xs = Fin m" "of_nat lo \<le> m" "m \<le> of_nat hi"
    using latency_mean_between [OF assms(1-3)] by blast
  have n: "0 < ?n" "fl_of_nat binary64 ?n = Fin (of_nat ?n)"
    using assms(2,3) r64.rnd_nat [of ?n] by (simp_all add: fl_of_nat_Fin64)
  have d: "?d * ?d \<le> 2 ^ 53" using assms(2,4) by (rule factor_le)
  have dev: "\<exists>z. ?dev (Fin m) x = Fin z \<and> 0 \<le> z \<and> z \<le> of_nat (?d * ?d)" if "x \<in> set xs" for x
  proof -
    have x: "lo \<le> unat x" "unat x \<le> hi" using assms(1) that by simp_all
    then have "(of_nat ?d :: rat) = of_nat hi - of_nat lo" by (simp add: of_nat_diff)
    moreover have "of_nat lo \<le> (of_nat (unat x) :: rat)" "of_nat (unat x) \<le> (of_nat hi :: rat)"
      using x by (simp_all only: of_nat_le_iff)
    ultimately have "\<bar>of_nat (unat x) - m\<bar> \<le> of_nat ?d" using m(2,3) by linarith
    then show ?thesis unfolding f64_of_exact by (rule square_dev_bound) (rule d)
  qed
  obtain s where s: "f64_sum (map (?dev (Fin m)) xs) = Fin s" "0 \<le> s" "s \<le> of_nat (?n * (?d * ?d))"
    using f64_sum_total [of xs "?dev (Fin m)" "?d * ?d"] dev assms(4) by blast
  have le: "s / of_nat ?n \<le> of_nat (?d * ?d)"
    using s(3) n(1) by (simp add: pos_divide_le_eq mult.commute)
  moreover have pos: "0 \<le> s / of_nat ?n" using s(2) by simp
  ultimately have "\<bar>s / of_nat ?n\<bar> \<le> of_nat (?d * ?d)" by (simp only: abs_of_nonneg)
  from fl_round_abs_le [OF this d] pos
  obtain v where "fl_round binary64 (s / of_nat ?n) = Fin v" "0 \<le> v" "v \<le> of_nat (?d * ?d)"
    by (metis abs_of_nonneg)
  moreover have "latency_variance xs = fl_round binary64 (s / of_nat ?n)"
    unfolding latency_variance_def m(1) n(2) Let_def s(1) [unfolded Let_def] using n(1) by simp
  ultimately show ?thesis by simp
qed

lemma unat_fl_to_word_le:
  assumes "0 \<le> x" and "x \<le> of_nat d"
  shows "unat (fl_to_word (Fin x) :: u32) \<le> d"
proof -
  have f: "0 \<le> \<lfloor>x\<rfloor>" "nat \<lfloor>x\<rfloor> \<le> d" using assms by (simp_all add: floor_le_iff nat_le_iff)
  consider "x \<le> 0" | "2 ^ 32 \<le> \<lfloor>x\<rfloor>" | "0 < x" "\<lfloor>x\<rfloor> < 2 ^ 32" by linarith
  then show ?thesis
  proof cases
    case 2
    then have "2 ^ 32 \<le> nat \<lfloor>x\<rfloor>" by (simp only: nat_le_eq_zle le_nat_iff f(1)) simp
    then have "(4294967295 :: nat) \<le> d" using f(2) by (auto dest: order_trans)
    then show ?thesis using 2 by (simp add: unsigned_minus_1_eq_mask mask_eq_exp_minus_1)
  next
    case 3
    then show ?thesis using f by (simp add: unat_eq_nat_uint uint_word_of_int)
  qed simp
qed

lemma jitter_bound:
  assumes "\<And>x. x \<in> set xs \<Longrightarrow> lo \<le> unat x \<and> unat x \<le> hi" and "xs \<noteq> []" and "length xs \<le> 2 ^ 20"
    and "length xs * ((hi - lo) * (hi - lo)) \<le> 2 ^ 53"
  shows "unat (jitter_of xs) \<le> hi - lo"
proof -
  let ?d = "hi - lo"
  obtain v where v: "latency_variance xs = Fin v" "0 \<le> v" "v \<le> of_nat (?d * ?d)"
    using variance_bound [OF assms] by blast
  have "?d * ?d \<le> 2 ^ 53" using assms(2,4) by (rule factor_le)
  then have "(of_nat (?d * ?d) :: rat) \<le> 2 ^ 53" by (metis of_nat_le_iff of_nat_numeral of_nat_power)
  then have "v < 2 ^ 100" using v(3) by simp
  then obtain s where "fl_sqrt binary64 (Fin v) = Fin s" "0 \<le> s" "s \<le> of_nat ?d"
    using fl_sqrt_le [of v ?d] v(2,3) by auto
  then show ?thesis by (simp only: jitter_of_def v(1)) (rule unat_fl_to_word_le)
qed

section \<open>Properties\<close>

lemma collect_latencies_answered:
  assumes "\<And>p. p \<in> set ps \<Longrightarrow> \<exists>t. p = Answered t \<and> lo \<le> t div 2000 \<and> t div 2000 \<le> hi" and "hi < 2 ^ 32"
  shows "\<exists>xs. collect_latencies ps = Some (Ok xs) \<and> length xs = length ps \<and> (\<forall>x\<in>set xs. lo \<le> unat x \<and> unat x \<le> hi)"
  using assms(1)
proof (induction ps)
  case (Cons p ps)
  then obtain xs where xs: "collect_latencies ps = Some (Ok xs)" "length xs = length ps"
    "\<forall>x\<in>set xs. lo \<le> unat x \<and> unat x \<le> hi" by (metis list.set_intros(2))
  obtain t where t: "p = Answered t" "lo \<le> t div 2000" "t div 2000 \<le> hi"
    using Cons.prems [of p] by auto
  have "unat (word_of_nat (t div 2000) :: u32) = t div 2000"
    using t(3) assms(2) by (simp add: unat_of_nat)
  then show ?case using xs t by (simp add: div_mult2_eq [symmetric])
qed simp

text \<open>
  C25. The jitter is within the spread of the samples: when the ten answered round trips' one-way
  times (in microseconds) lie between \<open>lo\<close> and \<open>hi\<close>, at most 2^24 apart, the measurement returns and
  the standard deviation it computes in \<open>f64\<close> is at most \<open>hi - lo\<close>, every rounding included.
  So equal round trips have jitter 0.
\<close>

theorem jitter_within_spread:
  assumes "10 \<le> length pings" and "hi - lo \<le> 2 ^ 24" and "hi < 2 ^ 32"
    and "\<And>p. p \<in> set (take 10 pings) \<Longrightarrow> \<exists>t. p = Answered t \<and> lo \<le> t div 2000 \<and> t div 2000 \<le> hi"
  shows "\<exists>j. measure_jitter pings = Some (Ok j) \<and> unat j \<le> hi - lo"
proof -
  obtain xs where xs: "collect_latencies (take 10 pings) = Some (Ok xs)" "length xs = 10"
    "\<forall>x\<in>set xs. lo \<le> unat x \<and> unat x \<le> hi"
    using collect_latencies_answered [of "take 10 pings" lo hi] assms(1,3,4) by auto
  have "(hi - lo) * (hi - lo) \<le> 2 ^ 24 * 2 ^ 24" using assms(2) by (intro mult_le_mono)
  then have "unat (jitter_of xs) \<le> hi - lo" using xs by (intro jitter_bound) auto
  then show ?thesis using xs(1) by (simp add: measure_jitter_def)
qed

lemma jitter_within_spread_witness:
  "\<exists>j. measure_jitter [Answered 200000, Answered 240000, Answered 200000, Answered 200000, Answered 210000,
     Answered 200000, Answered 200000, Answered 250000, Answered 200000, Answered 200000] = Some (Ok j) \<and> unat j \<le> 125 - 100"
  by (rule jitter_within_spread) auto

text \<open>
  C28. Profiling a cluster measures each unordered pair of nodes once, in the order the map yields
  them: it returns if and only if every one of these measurements returns (a single peer that never
  answers blocks it for good), and then it has every node once and exactly the links that could be
  measured, in that order, those with an error left out.
\<close>

theorem profile_measures_every_pair:
  assumes "hm_ok addrs"
  shows "profile_cluster net addrs =
    (let rs = map (measured_pair net addrs) (node_pairs (hm_keys addrs))
     in if None \<in> set rs then None
        else Some \<lparr>ct_nodes = map (\<lambda>n. (n, placeholder_topology)) (hm_keys addrs), ct_links = good_links rs\<rparr>)"
  using assms profile_rows_eq [of "hm_keys addrs" addrs hm_new net "[]"]
  by (simp add: profile_cluster_def hm_ok_def hm_keys_def hm_new_def Let_def)

definition example_network :: network where
  "example_network a b addr = \<lparr>pr_fresh = (11, 12),
     pr_latency = (if addr = ''c:1'' then Socket_Error ''refused'' else Answered 60000),
     pr_jitter = replicate 10 (Answered 60000)\<rparr>"

definition example_addresses :: "(node_id, string) hash_map" where
  "example_addresses = [(1, ''a:1''), (2, ''b:1''), (3, ''c:1'')]"

lemma measure_jitter_replicate:
  "\<exists>j. measure_jitter (replicate 10 (Answered t)) = Some (Ok j)"
proof -
  have "collect_latencies (replicate n (Answered t)) = Some (Ok (replicate n (word_of_nat (t div 1000 div 2))))" for n
    by (induction n) simp_all
  then show ?thesis by (simp add: measure_jitter_def)
qed

lemma profile_measures_every_pair_witness:
  "\<exists>t. profile_cluster example_network example_addresses = Some t \<and>
     map fst (ct_nodes t) = [1, 2, 3] \<and> map lm_latency_us (ct_links t) = [30]"
proof -
  have ok: "hm_ok example_addresses" by (simp add: hm_ok_def example_addresses_def)
  obtain j where j: "measure_jitter (replicate 10 (Answered 60000)) = Some (Ok j)"
    using measure_jitter_replicate by blast
  show ?thesis unfolding profile_measures_every_pair [OF ok]
    by (simp add: example_addresses_def example_network_def hm_keys_def hm_get_def measured_pair_def Let_def
        measure_link_def measure_bandwidth_def j)
qed

end
