(* ===== verification/Hardware_Probe.thy ===== *)
theory Hardware_Probe
  imports Bytes Cluster_Types
begin

text \<open>
  Hardware detection, \<open>crates/hardware-probe/src/lib.rs\<close>.  What the machine and the
  build give is the record \<open>host\<close>: the target, the readings of \<open>sysinfo\<close>, the
  rows of the WMI query (or its error), the existence of the paths and variables
  that are looked up.  The code under \<open>cfg\<close> is the branch on the target.
\<close>

section \<open>The host\<close>

datatype target_os = Linux | Macos | Windows | Other_Os

record host =
  ho_os :: target_os
  ho_arch :: string
  ho_nvidia_feature :: bool
  ho_physical_cores :: "nat option"
  ho_cpu_frequencies :: "u64 list"
  ho_total_memory :: u64
  ho_available_memory :: u64
  ho_disks :: "(u64 \<times> u64) list"
  ho_networks :: "string list"
  ho_wmi :: "string + (string, string) hash_map list"
  ho_usr_local_cuda :: bool
  ho_cuda_path_var :: bool
  ho_opt_rocm :: bool

section \<open>Strings\<close>

text \<open>\<open>str::contains\<close> and \<open>str::parse::<u64>\<close>.\<close>

fun contains :: "string \<Rightarrow> string \<Rightarrow> bool" where
  "contains pat [] = (pat = [])"
| "contains pat (c # cs) = (take (length pat) (c # cs) = pat \<or> contains pat cs)"

definition is_digit :: "char \<Rightarrow> bool" where
  "is_digit c \<longleftrightarrow> (48 :: nat) \<le> of_char c \<and> of_char c \<le> (57 :: nat)"

definition parse_u64 :: "string \<Rightarrow> u64 option" where
  "parse_u64 s =
     (let ds = (case s of [] \<Rightarrow> [] | c # r \<Rightarrow> if c = CHR ''+'' then r else s)
      in if ds \<noteq> [] \<and> list_all is_digit ds \<and> digits_value ds < 2 ^ 64 then Some (word_of_nat (digits_value ds)) else None)"

definition unwrap_or :: "'a \<Rightarrow> 'a option \<Rightarrow> 'a" where
  "unwrap_or d x = (case x of None \<Rightarrow> d | Some a \<Rightarrow> a)"

section \<open>Probes\<close>

definition probe_cpu :: "host \<Rightarrow> (string, cpu_capabilities) outcome" where
  "probe_cpu h =
     (let cores = word_of_nat (unwrap_or 1 (ho_physical_cores h));
          threads = word_of_nat (length (ho_cpu_frequencies h));
          frequency_mhz = (case ho_cpu_frequencies h of [] \<Rightarrow> 0 | f # _ \<Rightarrow> f);
          x86 = ho_arch h = ''x86_64'';
          features = filter (\<lambda>s. s \<noteq> [])
            [''aes'', if x86 then ''avx2'' else [], if x86 then ''sse4.2'' else []]
      in Ok \<lparr>cpu_architecture = ho_arch h, cpu_cores = cores, cpu_threads = threads,
           cpu_frequency_mhz = ucast frequency_mhz, cpu_features = features, cpu_numa_nodes = 1\<rparr>)"

definition probe_nvidia_gpus :: "(string, gpu_capabilities list) outcome" where
  "probe_nvidia_gpus = Ok []"

definition wmi_vendor :: "string \<Rightarrow> gpu_vendor" where
  "wmi_vendor vendor_str =
     (if contains ''NVIDIA'' vendor_str then Nvidia
      else if contains ''AMD'' vendor_str \<or> contains ''ATI'' vendor_str then Amd
      else if contains ''Intel'' vendor_str then Intel
      else Unknown)"

definition wmi_gpu :: "nat \<Rightarrow> (string, string) hash_map \<Rightarrow> gpu_capabilities" where
  "wmi_gpu i gpu_info =
     (let name = unwrap_or ''Unknown GPU'' (hm_get gpu_info ''Name'');
          vendor = wmi_vendor (unwrap_or ''Unknown'' (hm_get gpu_info ''AdapterCompatibility''));
          vram_bytes = unwrap_or 0 (Option.bind (hm_get gpu_info ''AdapterRAM'') parse_u64)
      in \<lparr>gpu_id = ''gpu:'' @ digits i, gpu_name = name, gpu_vendor = vendor, gpu_vram_bytes = vram_bytes,
           gpu_compute_capability = None, gpu_supports_peer_to_peer = False,
           gpu_supports_nvml = (vendor = Nvidia), gpu_supported_precisions = [Fp16, Fp32]\<rparr>)"

definition probe_wmi_gpus :: "host \<Rightarrow> (string, gpu_capabilities list) outcome" where
  "probe_wmi_gpus h =
     (case ho_wmi h of Inl e \<Rightarrow> Err e | Inr results \<Rightarrow> Ok (map (\<lambda>(i, row). wmi_gpu i row) (enumerate 0 results)))"

text \<open>A list extended by a probe's result, if it is one.\<close>

definition extend_ok :: "'a list \<Rightarrow> ('e, 'a list) outcome \<Rightarrow> 'a list" where
  "extend_ok xs r = (case r of Ok ys \<Rightarrow> xs @ ys | _ \<Rightarrow> xs)"

definition probe_gpus :: "host \<Rightarrow> (string, gpu_capabilities list) outcome" where
  "probe_gpus h =
     (let gpus = [];
          gpus = (if ho_nvidia_feature h then extend_ok gpus probe_nvidia_gpus else gpus);
          gpus = (if ho_os h = Windows then extend_ok gpus (probe_wmi_gpus h) else gpus)
      in Ok gpus)"

definition probe_memory :: "host \<Rightarrow> (string, memory_capabilities) outcome" where
  "probe_memory h = Ok \<lparr>mem_total_bytes = ho_total_memory h, mem_available_bytes = ho_available_memory h,
     mem_bandwidth_mbps = 25600\<rparr>"

definition probe_storage :: "host \<Rightarrow> (string, storage_capabilities) outcome" where
  "probe_storage h = Ok \<lparr>sto_total_bytes = sum_list (map fst (ho_disks h)),
     sto_available_bytes = sum_list (map snd (ho_disks h)),
     sto_read_throughput_mbps = 3500, sto_write_throughput_mbps = 3000\<rparr>"

definition probe_network :: "host \<Rightarrow> (string, network_capabilities) outcome" where
  "probe_network h = Ok \<lparr>net_interfaces =
     map (\<lambda>name. \<lparr>nif_name = name, nif_ip_address = [], nif_mac_address = [], nif_bandwidth_mbps = 1000,
         nif_supports_rdma = False\<rparr>)
       (filter (\<lambda>name. \<not> contains ''Loopback'' name) (ho_networks h))\<rparr>"

definition has_cuda :: "host \<Rightarrow> bool" where
  "has_cuda h \<longleftrightarrow> ho_usr_local_cuda h \<or> ho_cuda_path_var h"

definition has_rocm :: "host \<Rightarrow> bool" where
  "has_rocm h \<longleftrightarrow> ho_opt_rocm h"

definition has_apple_silicon :: "host \<Rightarrow> bool" where
  "has_apple_silicon h \<longleftrightarrow> ho_arch h = ''aarch64''"

definition detect_supported_runtimes :: "host \<Rightarrow> runtime_backend list" where
  "detect_supported_runtimes h =
     (let runtimes = [CPU];
          runtimes = runtimes @ [GGML];
          runtimes = (if ho_nvidia_feature h \<and> has_cuda h then runtimes @ [CUDA] else runtimes);
          runtimes = (if ho_os h = Linux \<and> has_rocm h then runtimes @ [ROCm] else runtimes);
          runtimes = (if ho_os h = Macos \<and> has_apple_silicon h then runtimes @ [MLX] else runtimes)
      in runtimes @ [Vulkan])"

definition probe_all :: "host \<Rightarrow> (string, node_capabilities) outcome" where
  "probe_all h =
     bind_outcome (probe_cpu h) (\<lambda>cpu.
     bind_outcome (probe_gpus h) (\<lambda>gpus.
     bind_outcome (probe_memory h) (\<lambda>memory.
     bind_outcome (probe_storage h) (\<lambda>storage.
     bind_outcome (probe_network h) (\<lambda>network.
       Ok \<lparr>nc_cpu = cpu, nc_gpus = gpus, nc_memory = memory, nc_storage = storage, nc_network = network,
            nc_supported_runtimes = detect_supported_runtimes h\<rparr>)))))"

section \<open>Lemmas\<close>

lemma probe_gpus_off_windows: "ho_os h \<noteq> Windows \<Longrightarrow> probe_gpus h = Ok []"
  by (simp add: probe_gpus_def extend_ok_def probe_nvidia_gpus_def)

lemma probe_gpus_windows:
  "ho_os h = Windows \<Longrightarrow>
   probe_gpus h = Ok (case ho_wmi h of Inl e \<Rightarrow> [] | Inr rows \<Rightarrow> map (\<lambda>(i, row). wmi_gpu i row) (enumerate 0 rows))"
  by (simp add: probe_gpus_def extend_ok_def probe_nvidia_gpus_def probe_wmi_gpus_def split: sum.split)

text \<open>The probe always has a result, with the GPUs of \<open>probe_gpus\<close>.\<close>

lemma probe_all_total: "\<exists>caps. probe_all h = Ok caps \<and> probe_gpus h = Ok (nc_gpus caps) \<and>
    nc_supported_runtimes caps = detect_supported_runtimes h"
  by (cases "ho_os h = Windows")
    (simp_all add: probe_all_def probe_cpu_def probe_gpus_off_windows probe_gpus_windows probe_memory_def
      probe_storage_def probe_network_def Let_def)

lemma probe_all_off_windows:
  assumes "ho_os h \<noteq> Windows" and "probe_all h = Ok caps"
  shows "nc_gpus caps = []"
  using probe_all_total [of h] assms by (simp add: probe_gpus_off_windows)

lemma wmi_gpu_id [simp]: "gpu_id (wmi_gpu i row) = ''gpu:'' @ digits i"
  by (simp add: wmi_gpu_def Let_def)

lemma wmi_gpu_ids: "map gpu_id (map (\<lambda>(i, row). wmi_gpu i row) (enumerate n rows)) = map (\<lambda>i. ''gpu:'' @ digits i) [n..<n + length rows]"
  by (induction rows arbitrary: n) (simp_all add: upt_rec)

lemma distinct_gpu_ids: "distinct (map (\<lambda>i. ''gpu:'' @ digits i) [m..<n])"
  by (simp add: distinct_map inj_on_def digits_inject)

lemma parse_u64_digits: "n < 2 ^ 64 \<Longrightarrow> parse_u64 (digits n) = Some (word_of_nat n)"
proof -
  assume n: "n < 2 ^ 64"
  have all: "list_all is_digit (digits n)"
    using digits_range by (fastforce simp: list_all_iff is_digit_def)
  obtain c cs where d: "digits n = c # cs" by (cases "digits n") (use digits_not_Nil in auto)
  have "c \<noteq> CHR ''+''" using all by (auto simp: d is_digit_def)
  then show ?thesis using n all digits_value [of n] by (simp add: parse_u64_def d)
qed

end
