(* ===== verification/Fleet.thy ===== *)
theory Fleet
  imports Hardware_Probe Node_Agent Node_Control Planner
begin

text \<open>
  The composition of probing, membership and planning: agents that register what
  their machine's probe found, the coordinator's REST and control calls, and the
  plans made from its table.
\<close>

section \<open>Events\<close>

text \<open>The probe's result as the callers take it.\<close>

definition probe_result :: "host \<Rightarrow> string + node_capabilities" where
  "probe_result h = (case probe_all h of Ok caps \<Rightarrow> Inr caps | Err e \<Rightarrow> Inl e | Panic p \<Rightarrow> Inl [])"

text \<open>
  An agent on a machine probes it for every registration and sends what the probe
  found, or sends none when it fails; the control service answers \<open>Probe\<close> with what
  its own machine's probe finds.
\<close>

fun from_machine :: "host \<Rightarrow> cluster_event \<Rightarrow> cluster_event option" where
  "from_machine h (Register n req) =
     (case probe_result h of
        Inl e \<Rightarrow> None
      | Inr caps \<Rightarrow> Some (Register n (req\<lparr>rn_capabilities := caps\<rparr>)))"
| "from_machine h (Heartbeat node_text req) = Some (Heartbeat node_text req)"
| "from_machine h Monitor_Tick = Some Monitor_Tick"

fun on_machine :: "host \<Rightarrow> control_call \<Rightarrow> control_call" where
  "on_machine h (Call_Probe result node_text) = Call_Probe (probe_result h) node_text"
| "on_machine h call = call"

datatype fleet_event = Rest_Call host datetime cluster_event | Control_Call control_call

fun off_windows :: "fleet_event \<Rightarrow> bool" where
  "off_windows (Rest_Call h now e) = (ho_os h \<noteq> Windows)"
| "off_windows (Control_Call call) = True"

fun fleet_step ::
  "'k crypto \<Rightarrow> (string \<Rightarrow> uuid option) \<Rightarrow> (uuid \<Rightarrow> string) \<Rightarrow> host \<Rightarrow> 'k cluster_state \<Rightarrow> fleet_event \<Rightarrow> 'k cluster_state" where
  "fleet_step cr pu ut coordinator st (Rest_Call h now e) =
     (case from_machine h e of None \<Rightarrow> st | Some e' \<Rightarrow> cluster_step pu ut (now, e') st)"
| "fleet_step cr pu ut coordinator st (Control_Call call) = control_exec cr pu st (on_machine coordinator call)"

definition fleet_run ::
  "'k crypto \<Rightarrow> (string \<Rightarrow> uuid option) \<Rightarrow> (uuid \<Rightarrow> string) \<Rightarrow> host \<Rightarrow> fleet_event list \<Rightarrow> 'k cluster_state \<Rightarrow> 'k cluster_state" where
  "fleet_run cr pu ut coordinator events st = foldl (fleet_step cr pu ut coordinator) st events"

section \<open>Tables without a GPU\<close>

definition without_gpus :: "(node_id, physical_node) hash_map \<Rightarrow> bool" where
  "without_gpus nodes \<longleftrightarrow> (\<forall>(n, node) \<in> set nodes. nc_gpus (pn_capabilities node) = [])"

lemma without_gpus_new [simp]: "without_gpus hm_new"
  by (simp add: without_gpus_def hm_new_def)

lemma without_gpus_insert [simp]:
  "without_gpus nodes \<Longrightarrow> nc_gpus (pn_capabilities node) = [] \<Longrightarrow> without_gpus (hm_insert n node nodes)"
  unfolding without_gpus_def hm_insert_def by (induction nodes) auto

lemma without_gpus_modify [simp]:
  "without_gpus nodes \<Longrightarrow> (\<And>node. nc_gpus (pn_capabilities node) = [] \<Longrightarrow> nc_gpus (pn_capabilities (f node)) = [])
     \<Longrightarrow> without_gpus (hm_modify n f nodes)"
  by (fastforce simp: without_gpus_def hm_modify_def)

lemma without_gpus_remove: "without_gpus nodes \<Longrightarrow> without_gpus (hm_remove n nodes)"
  by (auto simp: without_gpus_def hm_remove_def AList.delete_eq)

lemma without_gpus_remove_all:
  "without_gpus nodes \<Longrightarrow> without_gpus (foldl (\<lambda>nodes n. hm_remove n nodes) nodes ns)"
  by (induction ns arbitrary: nodes) (simp_all add: without_gpus_remove)

lemma without_gpus_scan: "without_gpus nodes \<Longrightarrow> without_gpus (fst (monitor_scan now nodes))"
  by (induction now nodes rule: monitor_scan.induct) (auto simp: without_gpus_def Let_def split: prod.splits)

lemma tick_without_gpus: "without_gpus (cs_nodes st) \<Longrightarrow> without_gpus (cs_nodes (heartbeat_monitor_tick now st))"
  using without_gpus_scan [of "cs_nodes st" now]
  by (auto simp: heartbeat_monitor_tick_def without_gpus_remove_all split: prod.split)

lemma probe_result_total:
  obtains caps where "probe_all h = Ok caps" and "probe_result h = Inr caps"
  using probe_all_total [of h] by (auto simp: probe_result_def)

lemma machine_capabilities:
  assumes "ho_os h \<noteq> Windows" and "probe_result h = Inr caps"
  shows "nc_gpus caps = []"
  using probe_all_off_windows [OF assms(1)] assms(2) by (metis probe_result_total sum.inject(2))

lemma rest_without_gpus:
  assumes "ho_os h \<noteq> Windows" and "without_gpus (cs_nodes st)" and "from_machine h e = Some e'"
  shows "without_gpus (cs_nodes (cluster_step pu ut (now, e') st))"
  using assms(2,3)
  by (cases e) (auto simp: register_node_def send_heartbeat_def Let_def tick_without_gpus
      dest: machine_capabilities [OF assms(1)] split: option.split sum.splits)

lemma probe_without_gpus:
  assumes "ho_os h \<noteq> Windows" and "without_gpus (cs_nodes st)"
  shows "without_gpus (cs_nodes (snd (probe pu (probe_result h) node_text st)))"
  using assms(2) machine_capabilities [OF assms(1)]
  by (cases "pu node_text") (auto simp: probe_def parse_id_def split: sum.split)

lemma control_without_gpus:
  assumes "ho_os h \<noteq> Windows" and "without_gpus (cs_nodes st)"
  shows "without_gpus (cs_nodes (control_exec cr pu st (on_machine h call)))"
proof (cases call)
  case (Call_Control_Register n challenge clock now req)
  then show ?thesis using control_register_nodes [of cr pu n challenge clock now req st] assms(2)
    by (auto simp: pending_node_def unknown_capabilities_def)
next
  case (Call_Control_Heartbeat now req)
  then show ?thesis using assms(2)
    by (cases "pu (hb_node_id req)") (auto simp: control_heartbeat_def parse_id_def)
next
  case (Call_Probe result node_text)
  then show ?thesis using probe_without_gpus [OF assms] by simp
next
  case (Call_Benchmark node_text bt)
  then show ?thesis using assms(2) by (cases "pu node_text") (auto simp: benchmark_def parse_id_def)
next
  case (Call_Prepare req)
  then show ?thesis using assms(2) by (simp add: prepare_plan_state)
next
  case (Call_Commit node_text)
  then show ?thesis using assms(2) by (cases "pu node_text") (auto simp: commit_plan_def parse_id_def return_action_def)
next
  case (Call_Cancel node_text)
  then show ?thesis using assms(2) by (cases "pu node_text") (auto simp: cancel_plan_def parse_id_def return_action_def)
next
  case (Call_Drain req)
  then show ?thesis using assms(2) by (cases "pu (dr_node_id req)") (auto simp: drain_def parse_id_def)
next
  case (Call_Set_Permissions req)
  then show ?thesis using assms(2) by (cases "pu (sr_node_id req)") (auto simp: set_permissions_def parse_id_def)
qed

lemma fleet_without_gpus:
  assumes "ho_os coordinator \<noteq> Windows" and "list_all off_windows events"
    and "without_gpus (cs_nodes st)"
  shows "without_gpus (cs_nodes (fleet_run cr pu ut coordinator events st))"
  using assms(2,3)
proof (induction events arbitrary: st)
  case (Cons e events)
  have "without_gpus (cs_nodes (fleet_step cr pu ut coordinator st e))"
    using Cons.prems by (cases e) (auto simp: control_without_gpus [OF assms(1)] intro: rest_without_gpus split: option.split)
  with Cons.IH Cons.prems(1) show ?case by (simp add: fleet_run_def)
qed (simp add: fleet_run_def)

text \<open>Plans over such a table.\<close>

lemma device_sum_without_gpus:
  "(\<And>node. node \<in> set nodes \<Longrightarrow> nc_gpus (pn_capabilities node) = []) \<Longrightarrow>
   fst (snd (snd (foldl add_node_resources (cpu, host, device, storage) nodes))) = device"
  by (induction nodes arbitrary: cpu host device storage) (simp_all add: Let_def)

lemma scale_zero [simp]: "scale_u64 c 0 = 0"
proof -
  have zero: "f64_of (0 :: u64) = Fin 0" by (simp add: f64_of_def fl_of_nat_def fl_round_def round_rat_def)
  have "fl_mul binary64 (Fin 0) y = Fin 0 \<or> fl_mul binary64 (Fin 0) y = NaN" for y
    by (cases y) (simp_all add: fl_round_def round_rat_def signed_inf_def)
  from this [of "fl_round binary64 c"] show ?thesis by (auto simp: scale_u64_def zero)
qed

lemma device_memory_without_gpus:
  assumes "without_gpus (cs_nodes st)"
  shows "lr_device_memory_bytes (lc_logical_resources (get_logical_cluster st)) = 0"
proof -
  obtain cpu host device storage where
    sums: "foldl add_node_resources (Fin 0, 0, 0, 0) (hm_values (cs_nodes st)) = (cpu, host, device, storage)"
    by (metis prod_cases4)
  have "device = 0"
    using device_sum_without_gpus [of "hm_values (cs_nodes st)" "Fin 0" 0 0 0] sums assms
    by (fastforce simp: without_gpus_def hm_values_def)
  then show ?thesis by (simp add: get_logical_cluster_def sums)
qed

lemma stages_without_gpus:
  assumes "without_gpus (lc_nodes cluster)" and "create_plan request cluster = Ok plan" and "s \<in> set (ep_stages plan)"
  shows "sp_device s = ''cpu:0''"
proof -
  let ?nodes = "available_nodes cluster" and ?md = "pr_model_metadata request"
  have none: "\<not> has_gpu node" if "(n, node) \<in> set ?nodes" for n node
    using assms(1) that by (auto simp: available_nodes_iff without_gpus_def has_gpu_def)
  then have "filter (\<lambda>(_, node). has_gpu node) ?nodes = []" by (auto simp: filter_empty_conv)
  then have "hybrid_stages ?md ?nodes = pipeline_stages ?md ?nodes" by (simp add: hybrid_stages_def)
  with create_plan_Ok(1) [OF assms(2)] have "ep_stages plan = pipeline_stages ?md ?nodes"
    by (cases "ep_strategy plan") (auto simp: partition_model_def Let_def split: if_splits)
  then have "stage_on ?md ?nodes s"
    using assms(3) stage_loop_stages(1) [of ?md "layers_per_node (mm_layer_count ?md) (length ?nodes)" 0 0 ?nodes]
    by (cases "stage_loop ?md (layers_per_node (mm_layer_count ?md) (length ?nodes)) 0 0 ?nodes")
      (simp add: pipeline_stages_def)
  then obtain n node where "(n, node) \<in> set ?nodes" "sp_device s = select_device node"
    by (auto simp: stage_on_def)
  with none show ?thesis by (auto simp: select_device_def has_gpu_def split: list.splits)
qed

section \<open>Properties\<close>

text \<open>
  C19.  Off Windows the probe finds no GPU, and this carries through the whole
  system: when no agent and not the coordinator runs on Windows, then after any
  REST and control calls the logical cluster has no device memory and every
  stage of every plan made from it runs on a CPU, whatever GPUs the machines have.
\<close>
theorem fleet_off_windows_plans_cpus:
  assumes "ho_os coordinator \<noteq> Windows" and "list_all off_windows events"
    and "st = fleet_run cr pu ut coordinator events (cluster_state_new key cluster)"
    and "create_plan request (get_logical_cluster st) = Ok plan"
  shows "lr_device_memory_bytes (lc_logical_resources (get_logical_cluster st)) = 0 \<and>
    list_all (\<lambda>s. sp_device s = ''cpu:0'') (ep_stages plan)"
proof -
  have none: "without_gpus (cs_nodes st)"
    unfolding assms(3) by (rule fleet_without_gpus [OF assms(1,2)]) (simp add: cluster_state_new_def)
  moreover have "lc_nodes (get_logical_cluster st) = cs_nodes st"
    by (simp add: get_logical_cluster_def split: prod.split)
  ultimately show ?thesis
    using device_memory_without_gpus stages_without_gpus [of "get_logical_cluster st" request plan] assms(4)
    by (auto simp: list_all_iff)
qed

definition sample_host :: "target_os \<Rightarrow> host" where
  "sample_host os = \<lparr>ho_os = os, ho_arch = ''x86_64'', ho_nvidia_feature = True, ho_physical_cores = Some 8,
     ho_cpu_frequencies = replicate 16 3000, ho_total_memory = 64000000000, ho_available_memory = 32000000000,
     ho_disks = [(1000, 400), (2000, 600)], ho_networks = [''eth0''],
     ho_wmi = Inr [[(''Name'', ''Radeon''), (''AdapterCompatibility'', ''AMD''), (''AdapterRAM'', ''4293918720'')],
       [(''Name'', ''GeForce'')]],
     ho_usr_local_cuda = True, ho_cuda_path_var = False, ho_opt_rocm = True\<rparr>"

definition sample_registration :: register_node_request where
  "sample_registration = \<lparr>rn_node_name = ''worker'', rn_hostname = ''worker.local'', rn_cluster_id = [],
     rn_capabilities = default_capabilities, rn_resources = idle_resources\<rparr>"

definition sample_fleet :: "fleet_event list" where
  "sample_fleet = [Rest_Call (sample_host Linux) 5 (Register 7 sample_registration)]"

lemma one_node_plan:
  assumes "cs_nodes st = [(n, node)]" and "pn_status node = Healthy"
  shows "\<exists>plan. create_plan (sample_request 80 4096) (get_logical_cluster st) = Ok plan \<and> ep_stages plan \<noteq> []"
proof -
  let ?cluster = "get_logical_cluster st"
  have c: "lc_nodes ?cluster = [(n, node)]" "ct_links (lc_topology ?cluster) = []"
    using assms(1) by (simp_all add: get_logical_cluster_def split: prod.split)
  then have "available_nodes ?cluster \<noteq> []" using assms(2) by (simp add: available_nodes_def healthy_def)
  then obtain plan where plan: "create_plan (sample_request 80 4096) ?cluster = Ok plan"
    using create_plan_total [of ?cluster "sample_request 80 4096"] c by auto
  have "concat (map sp_layers (ep_stages plan)) = u32_range 0 80"
    using partition_model_complete [OF _ _ create_plan_Ok(1) [OF plan]] c(1) by (simp add: complete_stages_def)
  moreover have "u32_range 0 80 \<noteq> []" by simp
  ultimately have "ep_stages plan \<noteq> []" by (metis concat.simps(1) list.map(1))
  with plan show ?thesis by blast
qed

theorem fleet_off_windows_plans_cpus_witness:
  "\<exists>plan. create_plan (sample_request 80 4096) (get_logical_cluster
       (fleet_run sample_crypto (\<lambda>_. None) (\<lambda>_. []) (sample_host Linux) sample_fleet (cluster_state_new [9] 3))) = Ok plan \<and>
     ep_stages plan \<noteq> [] \<and> list_all (\<lambda>s. sp_device s = ''cpu:0'') (ep_stages plan)"
proof -
  let ?st = "fleet_run sample_crypto (\<lambda>_. None) (\<lambda>_. []) (sample_host Linux) sample_fleet (cluster_state_new [9] 3)"
  obtain caps where "probe_result (sample_host Linux) = Inr caps" by (rule probe_result_total)
  then have "\<exists>node. cs_nodes ?st = [(7, node)] \<and> pn_status node = Healthy"
    by (simp add: fleet_run_def sample_fleet_def register_node_def cluster_state_new_def hm_new_def hm_insert_def)
  then obtain plan where plan: "create_plan (sample_request 80 4096) (get_logical_cluster ?st) = Ok plan" "ep_stages plan \<noteq> []"
    using one_node_plan by blast
  from fleet_off_windows_plans_cpus [OF _ _ refl plan(1)] plan show ?thesis
    by (simp add: sample_host_def sample_fleet_def)
qed

lemma digits_01: "digits 0 = ''0''" "digits 1 = ''1''"
  by code_simp+

text \<open>
  On Windows the probe lists one GPU per row of the query under distinct ids
  in the rows' order, with the video memory the row's decimal text states; and
  the planner puts the stage of such a node on the device \<open>cuda:gpu:0\<close>, whoever
  made the GPU.
\<close>
theorem windows_gpus_listed:
  assumes "ho_os h = Windows" and "ho_wmi h = Inr rows" and "rows \<noteq> []"
    and "probe_all h = Ok caps" and "pn_capabilities node = caps"
  shows "map gpu_id (nc_gpus caps) = map (\<lambda>i. ''gpu:'' @ digits i) [0..<length rows] \<and>
    distinct (map gpu_id (nc_gpus caps)) \<and>
    list_all2 (\<lambda>row gpu. \<forall>b. hm_get row ''AdapterRAM'' = Some (digits b) \<and> b < 2 ^ 64 \<longrightarrow>
      unat (gpu_vram_bytes gpu) = b) rows (nc_gpus caps) \<and>
    select_device node = ''cuda:gpu:0''"
proof -
  have gpus: "nc_gpus caps = map (\<lambda>(i, row). wmi_gpu i row) (enumerate 0 rows)"
    using probe_all_total [of h] assms(1,2,4) by (simp add: probe_gpus_windows)
  have ids: "map gpu_id (nc_gpus caps) = map (\<lambda>i. ''gpu:'' @ digits i) [0..<length rows]"
    unfolding gpus wmi_gpu_ids by simp
  then have "distinct (map gpu_id (nc_gpus caps))" by (simp only: distinct_gpu_ids)
  moreover have "unat (gpu_vram_bytes (wmi_gpu i row)) = b"
    if "hm_get row ''AdapterRAM'' = Some (digits b)" "b < 2 ^ 64" for i row b
    using that by (simp add: wmi_gpu_def parse_u64_digits unwrap_or_def unat_of_nat Let_def)
  moreover from this have "list_all2 (\<lambda>row gpu. \<forall>b. hm_get row ''AdapterRAM'' = Some (digits b) \<and> b < 2 ^ 64 \<longrightarrow>
      unat (gpu_vram_bytes gpu) = b) rows (nc_gpus caps)"
    unfolding gpus by (auto simp: list_all2_conv_all_nth nth_enumerate_eq)
  moreover have "select_device node = ''cuda:gpu:0''"
  proof (cases rows)
    case (Cons row rest)
    then show ?thesis using gpus assms(5) by (simp add: select_device_def digits_01)
  qed (use assms(3) in simp)
  ultimately show ?thesis using ids by simp
qed

theorem windows_gpus_listed_witness:
  "\<exists>caps. probe_all (sample_host Windows) = Ok caps \<and> map gpu_id (nc_gpus caps) = [''gpu:0'', ''gpu:1''] \<and>
     select_device ((sample_node 7 Healthy [])\<lparr>pn_capabilities := caps\<rparr>) = ''cuda:gpu:0''"
proof -
  obtain caps where caps: "probe_all (sample_host Windows) = Ok caps" using probe_all_total by blast
  from windows_gpus_listed [OF _ _ _ caps, where node = "(sample_node 7 Healthy [])\<lparr>pn_capabilities := caps\<rparr>"] caps
  show ?thesis by (simp add: sample_host_def digits_01 [simplified])
qed

section \<open>Plans and failure detection\<close>

text \<open>A detector that suspects nobody has heard the node, and every pass since then was in time.\<close>

definition recently_heard :: "(string \<Rightarrow> uuid option) \<Rightarrow> node_id \<Rightarrow> datetime \<Rightarrow> (datetime \<times> cluster_event) list \<Rightarrow> bool" where
  "recently_heard pu n heard events \<longleftrightarrow>
     (\<exists>pre e post. events = pre @ (heard, e) # post \<and> contacts pu n e \<and>
       list_all (\<lambda>(t, e'). \<not> contacts pu n e' \<and> (e' = Monitor_Tick \<longrightarrow> t - heard < 11000000000)) post)"

lemma recently_heard_snoc:
  "recently_heard pu n heard events \<Longrightarrow> \<not> contacts pu n e \<Longrightarrow> (e = Monitor_Tick \<Longrightarrow> t - heard < 11000000000) \<Longrightarrow>
   recently_heard pu n heard (events @ [(t, e)])"
  unfolding recently_heard_def by (elim exE) (rule exI, rule exI, rule_tac x = "post @ [(t, e)]" in exI, auto)

lemma recently_heard_now: "contacts pu n e \<Longrightarrow> recently_heard pu n t (events @ [(t, e)])"
  unfolding recently_heard_def by (intro exI [of _ events] exI [of _ e] exI [of _ "[]"]) simp

lemma detector_recent:
  "foldl (detector_step pu n) None events = Some (heard, False) \<Longrightarrow> recently_heard pu n heard events"
proof (induction events arbitrary: heard rule: rev_induct)
  case (snoc ev events)
  obtain t e where ev: "ev = (t, e)" by (cases ev)
  show ?case
    using snoc recently_heard_now [of pu n e t events] recently_heard_snoc [of pu n heard events e t]
    by (cases e) (auto simp: ev split: if_splits option.splits)
qed simp

text \<open>
  C15.  A plan uses live nodes only: when the plan is made from the coordinator's
  table after any registrations, heartbeats and passes of the monitor, the node
  of every stage was heard of at some time, and every pass since then came less
  than 11 seconds after it.
\<close>
theorem planned_nodes_alive:
  assumes "create_plan request (get_logical_cluster (cluster_run pu ut events (cluster_state_new key cluster))) = Ok plan"
    and "s \<in> set (ep_stages plan)"
  shows "\<exists>heard. recently_heard pu (sp_node_id s) heard events"
proof -
  let ?st = "cluster_run pu ut events (cluster_state_new key cluster)"
  let ?cluster = "get_logical_cluster ?st"
  have start: "hm_ok (cs_nodes (cluster_state_new key cluster))" "member_view (cluster_state_new key cluster) n = None" for n
    by (simp_all add: cluster_state_new_def member_view_def)
  note run = cluster_run_refines [OF start(1), of pu ut events]
  have nodes: "lc_nodes ?cluster = cs_nodes ?st" by (simp add: get_logical_cluster_def split: prod.split)
  have ok: "hm_ok (lc_nodes ?cluster)" unfolding nodes using run by blast
  from partition_model_placed [OF ok create_plan_Ok(1) [OF assms(1)]] assms(2)
  obtain n node where n: "(n, node) \<in> set (available_nodes ?cluster)" "sp_node_id s = n"
    by (auto simp: placed_stages_def stage_on_def)
  then have "member_view ?st n = Some (pn_last_heartbeat node, False)"
    using hm_get_mem [OF ok, of n node] nodes by (simp add: available_nodes_iff healthy_def member_view_def)
  then have "foldl (detector_step pu n) None events = Some (pn_last_heartbeat node, False)"
    using run start(2) by simp
  then show ?thesis using n(2) detector_recent by blast
qed

theorem planned_nodes_alive_witness:
  "\<exists>plan s. create_plan (sample_request 80 4096) (get_logical_cluster
       (cluster_run (\<lambda>_. None) (\<lambda>_. []) [(5, Register 7 sample_registration)] (cluster_state_new [9 :: u8] 3))) = Ok plan \<and>
     s \<in> set (ep_stages plan) \<and>
     (\<exists>heard. recently_heard (\<lambda>_. None) (sp_node_id s) heard [(5, Register 7 sample_registration)])"
proof -
  let ?st = "cluster_run (\<lambda>_. None) (\<lambda>_. []) [(5, Register 7 sample_registration)] (cluster_state_new [9 :: u8] 3)"
  have "\<exists>node. cs_nodes ?st = [(7, node)] \<and> pn_status node = Healthy"
    by (simp add: cluster_run_def register_node_def cluster_state_new_def hm_new_def hm_insert_def)
  then obtain plan where plan: "create_plan (sample_request 80 4096) (get_logical_cluster ?st) = Ok plan" "ep_stages plan \<noteq> []"
    using one_node_plan by blast
  then obtain s where "s \<in> set (ep_stages plan)" by (cases "ep_stages plan") auto
  with planned_nodes_alive [OF plan(1)] plan(1) show ?thesis by blast
qed

end
