(* ===== verification/Desktop_Client.thy ===== *)
theory Desktop_Client
  imports Coordinator "HOL-Library.Sublist"
begin

text \<open>
  The desktop interface's client of the REST server, \<open>desktop-ui/src/cluster_client.rs\<close>
  and \<open>commands.rs\<close>, against the coordinator's three GET routes
  (\<open>services/coordinator/src/api.rs\<close>).

  The code that \<open>serde\<close> derives from the structs is generated: it is the parameter
  records \<open>coordinator_serde\<close> and \<open>desktop_serde\<close>, and \<open>serde_contract\<close> is what
  the derive macros document (an object has the struct's fields; reading a struct
  fails when a field is missing; reading a \<open>Vec\<close> fails unless it is an array).
\<close>

section \<open>JSON\<close>

datatype json =
    Json_Null
  | Json_Bool bool
  | Json_Number int
  | Json_String string
  | Json_Array "json list"
  | Json_Object "(string \<times> json) list"

text \<open>\<open>value["key"]\<close> of \<open>serde_json\<close>: \<open>Null\<close> for a missing key or what is no object.\<close>

fun json_index :: "json \<Rightarrow> string \<Rightarrow> json" where
  "json_index (Json_Object kvs) key = (case map_of kvs key of None \<Rightarrow> Json_Null | Some v \<Rightarrow> v)"
| "json_index _ key = Json_Null"

section \<open>What the desktop expects\<close>

record info_resources =
  ir_cpu_compute_units :: f32
  ir_host_memory_bytes :: u64
  ir_device_memory_bytes :: u64
  ir_storage_bytes :: u64
  ir_preferred_parallelism :: string

record cluster_info =
  ci_id :: string
  ci_name :: string
  ci_logical_resources :: info_resources
  ci_node_count :: u64

record info_node_capabilities =
  ic_cpu_cores :: u32
  ic_gpu_count :: u64
  ic_memory_bytes :: u64

record info_node_resources =
  in_cpu_usage_percent :: f32
  in_memory_used_bytes :: u64

record node_info =
  ni_id :: string
  ni_name :: string
  ni_hostname :: string
  ni_status :: string
  ni_capabilities :: info_node_capabilities
  ni_resources :: info_node_resources

record model_info =
  mi_id :: string
  mi_object :: string
  mi_created :: int
  mi_owned_by :: string

text \<open>The names of the fields, on both sides.\<close>

definition cluster_info_fields :: "string list" where
  "cluster_info_fields = [''id'', ''name'', ''logical_resources'', ''node_count'']"

definition logical_cluster_fields :: "string list" where
  "logical_cluster_fields = [''id'', ''name'', ''logical_resources'', ''nodes'', ''topology'']"

record coordinator_serde =
  cs_cluster_json :: "logical_cluster \<Rightarrow> json"
  cs_node_json :: "physical_node \<Rightarrow> json"

record desktop_serde =
  ds_cluster_info :: "json \<Rightarrow> string + cluster_info"
  ds_node_infos :: "json \<Rightarrow> string + node_info list"
  ds_model_infos :: "json \<Rightarrow> string + model_info list"

definition serde_contract :: "coordinator_serde \<Rightarrow> desktop_serde \<Rightarrow> bool" where
  "serde_contract co de \<longleftrightarrow>
     (\<forall>c. \<exists>kvs. cs_cluster_json co c = Json_Object kvs \<and> map fst kvs = logical_cluster_fields) \<and>
     (\<forall>kvs. \<not> set cluster_info_fields \<subseteq> fst ` set kvs \<longrightarrow> (\<exists>e. ds_cluster_info de (Json_Object kvs) = Inl e)) \<and>
     (\<forall>j. (\<forall>js. j \<noteq> Json_Array js) \<longrightarrow> (\<exists>e. ds_node_infos de j = Inl e)) \<and>
     ds_model_infos de (Json_Array []) = Inr []"

section \<open>The client\<close>

text \<open>A GET request: no answer, a body that is no JSON, or a value.\<close>

type_synonym http_get = "string \<Rightarrow> string + (string + json)"

record cluster_client =
  cc_base_url :: string

definition cluster_client_new :: "string \<Rightarrow> cluster_client" where
  "cluster_client_new base_url = \<lparr>cc_base_url = base_url\<rparr>"

definition parsed :: "string + 'a \<Rightarrow> (string, 'a) outcome" where
  "parsed r = (case r of Inl e \<Rightarrow> Err (''Parse failed: '' @ e) | Inr a \<Rightarrow> Ok a)"

definition fetch :: "http_get \<Rightarrow> string \<Rightarrow> (string, json) outcome" where
  "fetch http url = (case http url of Inl e \<Rightarrow> Err (''Request failed: '' @ e) | Inr body \<Rightarrow> parsed body)"

definition client_get_cluster :: "http_get \<Rightarrow> desktop_serde \<Rightarrow> cluster_client \<Rightarrow> (string, cluster_info) outcome" where
  "client_get_cluster http de c =
     bind_outcome (fetch http (cc_base_url c @ ''/api/cluster'')) (\<lambda>j. parsed (ds_cluster_info de j))"

definition client_get_nodes :: "http_get \<Rightarrow> desktop_serde \<Rightarrow> cluster_client \<Rightarrow> (string, node_info list) outcome" where
  "client_get_nodes http de c =
     bind_outcome (fetch http (cc_base_url c @ ''/api/cluster/nodes''))
       (\<lambda>response. parsed (ds_node_infos de (json_index response ''nodes'')))"

definition client_get_models :: "http_get \<Rightarrow> desktop_serde \<Rightarrow> cluster_client \<Rightarrow> (string, model_info list) outcome" where
  "client_get_models http de c =
     bind_outcome (fetch http (cc_base_url c @ ''/api/v1/models''))
       (\<lambda>response. parsed (ds_model_infos de (json_index response ''data'')))"

section \<open>The commands of the window\<close>

record app_state =
  as_client :: cluster_client

definition app_state_new :: app_state where
  "app_state_new = \<lparr>as_client = cluster_client_new ''http://localhost:8080''\<rparr>"

definition command_get_cluster :: "http_get \<Rightarrow> desktop_serde \<Rightarrow> app_state \<Rightarrow> (string, cluster_info) outcome" where
  "command_get_cluster http de app = client_get_cluster http de (as_client app)"

definition command_get_nodes :: "http_get \<Rightarrow> desktop_serde \<Rightarrow> app_state \<Rightarrow> (string, node_info list) outcome" where
  "command_get_nodes http de app = client_get_nodes http de (as_client app)"

definition command_get_models :: "http_get \<Rightarrow> desktop_serde \<Rightarrow> app_state \<Rightarrow> (string, model_info list) outcome" where
  "command_get_models http de app = client_get_models http de (as_client app)"

definition set_coordinator_url :: "string \<Rightarrow> (app_state, string, unit) action" where
  "set_coordinator_url url app = (Ok (), app\<lparr>as_client := cluster_client_new url\<rparr>)"

section \<open>The coordinator's side\<close>

text \<open>The GET routes; a map is written as an object, the order of its keys plays no role.\<close>

definition api_list_models :: json where
  "api_list_models = Json_Object [(''object'', Json_String ''list''), (''data'', Json_Array [])]"

definition get_route :: "coordinator_serde \<Rightarrow> (uuid \<Rightarrow> string) \<Rightarrow> 'k cluster_state \<Rightarrow> string \<Rightarrow> json option" where
  "get_route co uuid_text st path =
     (if path = ''/api/cluster'' then Some (cs_cluster_json co (get_logical_cluster st))
      else if path = ''/api/cluster/nodes'' then
        Some (Json_Object (map (\<lambda>(n, node). (uuid_text n, cs_node_json co node)) (get_nodes st)))
      else if path = ''/api/v1/models'' then Some api_list_models
      else None)"

text \<open>A coordinator that answers at \<open>base\<close>; the answer for an unknown route has no body.\<close>

definition coordinator_at :: "coordinator_serde \<Rightarrow> (uuid \<Rightarrow> string) \<Rightarrow> 'k cluster_state \<Rightarrow> string \<Rightarrow> http_get" where
  "coordinator_at co uuid_text st base url =
     (if prefix base url then
        (case get_route co uuid_text st (drop (length base) url) of
           None \<Rightarrow> Inr (Inl ''EOF while parsing a value'')
         | Some j \<Rightarrow> Inr (Inr j))
      else Inl ''connection refused'')"

section \<open>Properties\<close>

lemma fetch_coordinator:
  "fetch (coordinator_at co ut st base) (base @ path) =
     (case get_route co ut st path of None \<Rightarrow> Err (''Parse failed: '' @ ''EOF while parsing a value'') | Some j \<Rightarrow> Ok j)"
  by (simp add: fetch_def coordinator_at_def parsed_def split: option.split)

text \<open>
  C29.  The desktop cannot show a cluster: pointed at a coordinator that answers,
  in any state of it, the commands for the cluster and for the nodes fail to
  parse the answer, since the coordinator never sends the field \<open>node_count\<close> nor a list \<open>nodes\<close>; only the
  list of models is read, and it is always empty.
\<close>
theorem desktop_cannot_show_cluster:
  assumes "serde_contract co de" and "\<And>n. ut n \<noteq> ''nodes''"
    and "set_coordinator_url base app = (Ok (), app')"
  shows "(\<exists>e. command_get_cluster (coordinator_at co ut st base) de app' = Err (''Parse failed: '' @ e)) \<and>
    (\<exists>e. command_get_nodes (coordinator_at co ut st base) de app' = Err (''Parse failed: '' @ e)) \<and>
    command_get_models (coordinator_at co ut st base) de app' = Ok []"
proof (intro conjI)
  have base: "cc_base_url (as_client app') = base"
    using assms(3) by (auto simp: set_coordinator_url_def cluster_client_new_def)
  obtain kvs where kvs: "cs_cluster_json co (get_logical_cluster st) = Json_Object kvs" "map fst kvs = logical_cluster_fields"
    using assms(1) unfolding serde_contract_def by blast
  have "fst ` set kvs = set logical_cluster_fields" by (simp only: set_map [symmetric] kvs(2))
  then have "\<not> set cluster_info_fields \<subseteq> fst ` set kvs"
    by (simp add: logical_cluster_fields_def cluster_info_fields_def)
  then obtain e where "ds_cluster_info de (Json_Object kvs) = Inl e"
    using assms(1) unfolding serde_contract_def by blast
  then show "\<exists>e. command_get_cluster (coordinator_at co ut st base) de app' = Err (''Parse failed: '' @ e)"
    by (simp add: command_get_cluster_def client_get_cluster_def base fetch_coordinator get_route_def kvs(1) parsed_def)
  have other: "''nodes'' \<noteq> ut n" for n using assms(2) [of n] by simp
  have "map_of (map (\<lambda>(n, node). (ut n, cs_node_json co node)) nodes) ''nodes'' = None" for nodes
    by (induction nodes) (simp_all add: other split: prod.split)
  moreover have "\<exists>e. ds_node_infos de Json_Null = Inl e"
    using assms(1) unfolding serde_contract_def by blast
  ultimately show "\<exists>e. command_get_nodes (coordinator_at co ut st base) de app' = Err (''Parse failed: '' @ e)"
    by (auto simp: command_get_nodes_def client_get_nodes_def base fetch_coordinator get_route_def parsed_def)
  have "ds_model_infos de (Json_Array []) = Inr []"
    using assms(1) unfolding serde_contract_def by blast
  then show "command_get_models (coordinator_at co ut st base) de app' = Ok []"
    by (simp add: command_get_models_def client_get_models_def base fetch_coordinator get_route_def api_list_models_def parsed_def)
qed

definition sample_coordinator_serde :: coordinator_serde where
  "sample_coordinator_serde = \<lparr>
     cs_cluster_json = (\<lambda>c. Json_Object (map (\<lambda>f. (f, if f = ''name'' then Json_String (lc_name c) else Json_Null))
       logical_cluster_fields)),
     cs_node_json = (\<lambda>node. Json_Object [(''name'', Json_String (pn_name node))])\<rparr>"

definition sample_desktop_serde :: desktop_serde where
  "sample_desktop_serde = \<lparr>
     ds_cluster_info = (\<lambda>j. case j of
         Json_Object kvs \<Rightarrow>
           (if list_all (\<lambda>f. f \<in> fst ` set kvs) cluster_info_fields
            then Inr \<lparr>ci_id = [], ci_name = [],
              ci_logical_resources = \<lparr>ir_cpu_compute_units = Fin 0, ir_host_memory_bytes = 0,
                ir_device_memory_bytes = 0, ir_storage_bytes = 0, ir_preferred_parallelism = []\<rparr>,
              ci_node_count = 0\<rparr>
            else Inl ''missing field'')
       | _ \<Rightarrow> Inl ''invalid type''),
     ds_node_infos = (\<lambda>j. case j of Json_Array [] \<Rightarrow> Inr [] | _ \<Rightarrow> Inl ''invalid type''),
     ds_model_infos = (\<lambda>j. case j of Json_Array [] \<Rightarrow> Inr [] | _ \<Rightarrow> Inl ''invalid type'')\<rparr>"

lemma sample_serde_contract: "serde_contract sample_coordinator_serde sample_desktop_serde"
  unfolding serde_contract_def
  by (auto simp: sample_coordinator_serde_def sample_desktop_serde_def o_def list_all_iff split: json.split list.split)

theorem desktop_cannot_show_cluster_witness:
  "\<exists>e. command_get_cluster (coordinator_at sample_coordinator_serde (\<lambda>_. ''0f'') sample_member_state ''http://c'')
     sample_desktop_serde (snd (set_coordinator_url ''http://c'' app_state_new)) = Err (''Parse failed: '' @ e)"
  using desktop_cannot_show_cluster [OF sample_serde_contract, of "\<lambda>_. ''0f''" "''http://c''" app_state_new
      "snd (set_coordinator_url ''http://c'' app_state_new)" sample_member_state]
  by (simp add: set_coordinator_url_def)

end
