(* ===== verification/Observability.thy ===== *)
theory Observability
  imports Ieee Prelude
begin

text \<open>
  Logging and metrics, \<open>crates/observability/src/lib.rs\<close>: the events handed to
  \<open>tracing\<close>, as the list of those a subscriber keeps.  Which levels it keeps is
  the parameter \<open>enabled\<close>.

  The crate \<open>tracing_subscriber\<close> is the record \<open>tracing_lib\<close>: the directives of the
  environment, the parser of directives and what a filter keeps.  \<open>init\<close> and
  \<open>init_simple\<close> install the one subscriber of the process, and panic when there is
  one already, as the library documents.
\<close>

section \<open>Events\<close>

datatype level = Level_Error | Level_Warn | Level_Info | Level_Debug

datatype field =
    Text_Field string string
  | Option_Field string "string option"
  | Count_Field string u64
  | Real_Field string f64
  | Labels_Field "(string \<times> string) list"

record log_event =
  le_level :: level
  le_fields :: "field list"
  le_message :: string

definition emit :: "(level \<Rightarrow> bool) \<Rightarrow> level \<Rightarrow> field list \<Rightarrow> string \<Rightarrow> log_event list \<Rightarrow> log_event list" where
  "emit enabled lvl fs message events =
     (if enabled lvl then events @ [\<lparr>le_level = lvl, le_fields = fs, le_message = message\<rparr>] else events)"

section \<open>Metrics\<close>

record metrics_collector =
  mc_service_name :: string

definition metrics_collector_new :: "string \<Rightarrow> metrics_collector" where
  "metrics_collector_new service = \<lparr>mc_service_name = service\<rparr>"

definition increment_counter ::
  "(level \<Rightarrow> bool) \<Rightarrow> metrics_collector \<Rightarrow> string \<Rightarrow> u64 \<Rightarrow> (string \<times> string) list \<Rightarrow> log_event list \<Rightarrow> log_event list" where
  "increment_counter enabled mc name amount labels =
     emit enabled Level_Debug [Text_Field ''service'' (mc_service_name mc), Text_Field ''metric'' name,
       Count_Field ''value'' amount, Labels_Field labels] ''counter incremented''"

definition record_gauge ::
  "(level \<Rightarrow> bool) \<Rightarrow> metrics_collector \<Rightarrow> string \<Rightarrow> f64 \<Rightarrow> (string \<times> string) list \<Rightarrow> log_event list \<Rightarrow> log_event list" where
  "record_gauge enabled mc name amount labels =
     emit enabled Level_Debug [Text_Field ''service'' (mc_service_name mc), Text_Field ''metric'' name,
       Real_Field ''value'' amount, Labels_Field labels] ''gauge recorded''"

definition record_histogram ::
  "(level \<Rightarrow> bool) \<Rightarrow> metrics_collector \<Rightarrow> string \<Rightarrow> f64 \<Rightarrow> (string \<times> string) list \<Rightarrow> log_event list \<Rightarrow> log_event list" where
  "record_histogram enabled mc name amount labels =
     emit enabled Level_Debug [Text_Field ''service'' (mc_service_name mc), Text_Field ''metric'' name,
       Real_Field ''value'' amount, Labels_Field labels] ''histogram recorded''"

text \<open>The timed operation may log and change a state of its own; \<open>duration\<close> is what the clock shows.\<close>

definition record_timing ::
  "(level \<Rightarrow> bool) \<Rightarrow> f64 \<Rightarrow> metrics_collector \<Rightarrow> string \<Rightarrow> (string \<times> string) list \<Rightarrow>
   (log_event list \<times> 's \<Rightarrow> 'r \<times> log_event list \<times> 's) \<Rightarrow> log_event list \<times> 's \<Rightarrow> 'r \<times> log_event list \<times> 's" where
  "record_timing enabled duration mc name labels f st =
     (case f st of (result, events, s) \<Rightarrow>
        (result, record_histogram enabled mc (name @ ''_duration'') duration labels events, s))"

section \<open>Log contexts\<close>

record log_context =
  lx_operation :: string
  lx_node_id :: "string option"
  lx_session_id :: "string option"
  lx_model_id :: "string option"

definition log_context_new :: "string \<Rightarrow> log_context" where
  "log_context_new operation =
     \<lparr>lx_operation = operation, lx_node_id = None, lx_session_id = None, lx_model_id = None\<rparr>"

definition with_node_id :: "string \<Rightarrow> log_context \<Rightarrow> log_context" where
  "with_node_id n ctx = ctx\<lparr>lx_node_id := Some n\<rparr>"

definition with_session_id :: "string \<Rightarrow> log_context \<Rightarrow> log_context" where
  "with_session_id s ctx = ctx\<lparr>lx_session_id := Some s\<rparr>"

definition with_model_id :: "string \<Rightarrow> log_context \<Rightarrow> log_context" where
  "with_model_id m ctx = ctx\<lparr>lx_model_id := Some m\<rparr>"

definition context_fields :: "log_context \<Rightarrow> field list" where
  "context_fields ctx = [Text_Field ''operation'' (lx_operation ctx), Option_Field ''node_id'' (lx_node_id ctx),
     Option_Field ''session_id'' (lx_session_id ctx), Option_Field ''model_id'' (lx_model_id ctx)]"

definition log_info :: "(level \<Rightarrow> bool) \<Rightarrow> log_context \<Rightarrow> string \<Rightarrow> log_event list \<Rightarrow> log_event list" where
  "log_info enabled ctx message = emit enabled Level_Info (context_fields ctx) message"

definition log_warn :: "(level \<Rightarrow> bool) \<Rightarrow> log_context \<Rightarrow> string \<Rightarrow> log_event list \<Rightarrow> log_event list" where
  "log_warn enabled ctx message = emit enabled Level_Warn (context_fields ctx) message"

definition log_error :: "(level \<Rightarrow> bool) \<Rightarrow> log_context \<Rightarrow> string \<Rightarrow> log_event list \<Rightarrow> log_event list" where
  "log_error enabled ctx message = emit enabled Level_Error (context_fields ctx) message"

section \<open>The subscriber of the process\<close>

datatype directive = Level_Directive level | Target_Directive string level

record tracing_lib =
  tr_from_env :: "directive list"
  tr_parse :: "string \<Rightarrow> directive option"
  tr_keeps :: "directive list \<Rightarrow> level \<Rightarrow> bool"

record subscriber =
  sb_filter :: "directive list"
  sb_target :: bool
  sb_thread_ids :: bool
  sb_level :: bool

text \<open>The subscriber of the process, once there is one, and the events shown so far.\<close>

type_synonym tracing = "subscriber option \<times> log_event list"

definition parsed_or_warn :: "tracing_lib \<Rightarrow> string \<Rightarrow> directive" where
  "parsed_or_warn lib s = (case tr_parse lib s of Some d \<Rightarrow> d | None \<Rightarrow> Level_Directive Level_Warn)"

definition env_filter :: "tracing_lib \<Rightarrow> directive list" where
  "env_filter lib = tr_from_env lib @ [Level_Directive Level_Info] @
     [parsed_or_warn lib ''hyper=warn''] @ [parsed_or_warn lib ''tonic=warn'']"

text \<open>\<open>init()\<close> of the library: the expectation that there is no subscriber yet.\<close>

definition install :: "subscriber \<Rightarrow> (tracing, 'e, unit) action" where
  "install sb = (\<lambda>(current, events).
     case current of
       Some _ \<Rightarrow> (Panic Unwrap_On_None, (current, events))
     | None \<Rightarrow> (Ok (), (Some sb, events)))"

text \<open>An event of level INFO, shown if the subscriber keeps it.\<close>

definition say :: "tracing_lib \<Rightarrow> string \<Rightarrow> (tracing, 'e, unit) action" where
  "say lib message = (\<lambda>(current, events).
     (Ok (), (current, case current of
        None \<Rightarrow> events
      | Some sb \<Rightarrow> emit (tr_keeps lib (sb_filter sb)) Level_Info [] message events)))"

definition init :: "tracing_lib \<Rightarrow> string \<Rightarrow> (tracing, 'e, unit) action" where
  "init lib service_name =
     bind_action (install \<lparr>sb_filter = env_filter lib, sb_target = True, sb_thread_ids = True, sb_level = True\<rparr>)
       (\<lambda>_. say lib (''Observability initialized for service: '' @ service_name))"

definition init_simple :: "tracing_lib \<Rightarrow> string \<Rightarrow> (tracing, 'e, unit) action" where
  "init_simple lib service_name =
     bind_action (install \<lparr>sb_filter = env_filter lib, sb_target = True, sb_thread_ids = True, sb_level = True\<rparr>)
       (\<lambda>_. say lib (''Observability initialized (simple mode) for service: '' @ service_name))"

section \<open>Facts\<close>

text \<open>The first initialisation succeeds, and every later one panics and changes nothing.\<close>

lemma init_once:
  "\<exists>sb events'. init lib service_name (None, events) = (Ok (), (Some sb, events')) \<and> sb_filter sb = env_filter lib"
  "\<exists>sb events'. init_simple lib service_name (None, events) = (Ok (), (Some sb, events')) \<and> sb_filter sb = env_filter lib"
  "init lib service_name (Some sb, events) = (Panic Unwrap_On_None, (Some sb, events))"
  "init_simple lib service_name (Some sb, events) = (Panic Unwrap_On_None, (Some sb, events))"
  by (simp_all add: init_def init_simple_def install_def say_def bind_action_def)

text \<open>With no directives but those of the crate, a filter that keeps the levels up to its widest directive drops the metrics.\<close>

fun directive_level :: "directive \<Rightarrow> level" where
  "directive_level (Level_Directive l) = l"
| "directive_level (Target_Directive t l) = l"

lemma default_filter_drops_debug:
  assumes "\<forall>ds. tr_keeps lib ds Level_Debug \<longrightarrow> Level_Debug \<in> directive_level ` set ds"
    and "tr_from_env lib = []" and "tr_parse lib ''hyper=warn'' = Some (Target_Directive ''hyper'' Level_Warn)"
    and "tr_parse lib ''tonic=warn'' = Some (Target_Directive ''tonic'' Level_Warn)"
  shows "\<not> tr_keeps lib (env_filter lib) Level_Debug"
proof
  assume "tr_keeps lib (env_filter lib) Level_Debug"
  then have "Level_Debug \<in> directive_level ` set (env_filter lib)" using assms(1) by blast
  then show False by (simp add: env_filter_def parsed_or_warn_def assms(2-4))
qed

text \<open>
  Metrics exist as debug events only: a subscriber that keeps no debug events, as
  the one \<open>init\<close> installs by default, keeps no metric, and timing an operation
  changes neither its result nor its effects.
\<close>

lemma metrics_need_debug:
  assumes "\<not> enabled Level_Debug"
  shows "increment_counter enabled mc name amount labels events = events"
    and "record_gauge enabled mc name x labels events = events"
    and "record_histogram enabled mc name x labels events = events"
    and "record_timing enabled x mc name labels f st = f st"
  using assms
  by (simp_all add: increment_counter_def record_gauge_def record_histogram_def record_timing_def emit_def split: prod.split)

lemma timing_keeps_result:
  "fst (record_timing enabled x mc name labels f st) = fst (f st) \<and>
   snd (snd (record_timing enabled x mc name labels f st)) = snd (snd (f st))"
  by (simp add: record_timing_def split: prod.split)

lemma context_builders_commute:
  "with_node_id n (with_session_id s ctx) = with_session_id s (with_node_id n ctx)"
  "with_node_id n (with_model_id m ctx) = with_model_id m (with_node_id n ctx)"
  "with_session_id s (with_model_id m ctx) = with_model_id m (with_session_id s ctx)"
  by (simp_all add: with_node_id_def with_session_id_def with_model_id_def)

end
