(* ===== verification/Agent_Process.thy ===== *)
theory Agent_Process
  imports Node_Agent
begin

text \<open>
  The process of the node agent, \<open>main\<close> of \<open>services/node-agent/src/main.rs\<close>:
  one registration, then the heartbeat loop as a blocking task of the runtime
  while \<open>main\<close> waits for Ctrl-C.  It is analysed to the end: the process is over
  when \<open>main\<close> has returned and the runtime, dropped then, lets go.

  The runtime is a parameter.  What is used of it is \<open>runtime_contract\<close>: its
  drop returns when no task started with \<open>spawn_blocking\<close> is running.
\<close>

section \<open>The process\<close>

definition coordinator_addr :: "string option \<Rightarrow> string" where
  "coordinator_addr variable = (case variable of None \<Rightarrow> ''http://localhost:8080'' | Some addr \<Rightarrow> addr)"

text \<open>
  The start of \<open>main\<close>, up to the loop: the value of \<open>COORDINATOR_ADDR\<close>, the drawn
  cluster id and key, and the probe the resource manager makes are arguments.
  An error is the result of \<open>main\<close>.
\<close>

definition agent_start ::
  "(string \<Rightarrow> uuid option) \<Rightarrow> (uuid \<Rightarrow> string) \<Rightarrow> 'w surroundings \<Rightarrow> 'a \<Rightarrow> string + node_capabilities \<Rightarrow>
   cluster_id \<Rightarrow> string option \<Rightarrow> ('w, agent_error, 'a heartbeat_loop) action" where
  "agent_start parse_uuid uuid_text env key probe cluster variable w =
     (let addr = coordinator_addr variable;
          agent = node_agent_new key probe cluster addr
      in case agent_register parse_uuid uuid_text env addr (agent, w) of
           (Err e, (_, w)) \<Rightarrow> (Err e, w)
         | (Panic p, (_, w)) \<Rightarrow> (Panic p, w)
         | (Ok _, (agent, w)) \<Rightarrow> (heartbeat_loop_start agent, w))"

text \<open>The runtime of \<open>#[tokio::main]\<close>: built, a blocking task started, one over, and whether its drop returns.\<close>

record 't tokio_runtime =
  tr_new :: 't
  tr_spawn_blocking :: "'t \<Rightarrow> 't"
  tr_blocking_over :: "'t \<Rightarrow> 't"
  tr_drop_returns :: "'t \<Rightarrow> bool"


text \<open>The process once it has registered; \<open>ap_main\<close> is the result of \<open>main\<close>, \<open>None\<close> while it waits.\<close>

record ('a, 'k, 't) agent_process =
  ap_runtime :: 't
  ap_system :: "('a, 'k) system_state"
  ap_main :: "(string + unit) option"


text \<open>
  The answer of \<open>ctrl_c()\<close> is the result of \<open>main\<close>: success on a Ctrl-C, or the
  error of a handler that cannot be installed.  Nobody waits for a second one.
  The loop ends by itself; the blocking task is over with it.
\<close>

datatype process_event = Signal "string + unit" | In_System "datetime \<times> system_event"

fun process_step ::
  "'t tokio_runtime \<Rightarrow> (string \<Rightarrow> uuid option) \<Rightarrow> (uuid \<Rightarrow> string) \<Rightarrow> string \<Rightarrow> process_event \<Rightarrow>
   ('a, 'k, 't) agent_process \<Rightarrow> ('a, 'k, 't) agent_process" where
  "process_step rt parse_uuid uuid_text host (Signal answer) p =
     (case ap_main p of None \<Rightarrow> p\<lparr>ap_main := Some answer\<rparr> | Some _ \<Rightarrow> p)"
| "process_step rt parse_uuid uuid_text host (In_System e) p =
     (let s = system_step parse_uuid uuid_text host e (ap_system p)
      in p\<lparr>ap_system := s,
           ap_runtime := (if ss_running (ap_system p) \<and> \<not> ss_running s
             then tr_blocking_over rt (ap_runtime p) else ap_runtime p)\<rparr>)"

definition process_run ::
  "'t tokio_runtime \<Rightarrow> (string \<Rightarrow> uuid option) \<Rightarrow> (uuid \<Rightarrow> string) \<Rightarrow> string \<Rightarrow> process_event list \<Rightarrow>
   ('a, 'k, 't) agent_process \<Rightarrow> ('a, 'k, 't) agent_process" where
  "process_run rt parse_uuid uuid_text host events p =
     foldl (\<lambda>p e. process_step rt parse_uuid uuid_text host e p) p events"


section \<open>Lemmas\<close>



lemma process_run_Nil [simp]: "process_run rt parse_uuid uuid_text host [] p = p"
  by (simp add: process_run_def)

lemma process_run_Cons [simp]:
  "process_run rt parse_uuid uuid_text host (e # events) p =
   process_run rt parse_uuid uuid_text host events (process_step rt parse_uuid uuid_text host e p)"
  by (simp add: process_run_def)






section \<open>When the loop gives up\<close>













section \<open>The start\<close>


text \<open>Without an answer \<open>main\<close> ends with an error after one request: it does not try again.\<close>

lemma agent_start_offline:
  assumes "offline env" and "su_probe env = Inr capabilities"
  shows "\<exists>e w'. agent_start parse_uuid uuid_text env key probe cluster variable w = (Err (Request_Failed e), w')"
proof -
  obtain e w' where "post_register (su_http env)
      (cc_base_url (client_connect (coordinator_addr variable)) @ ''/api/nodes/register'')
      \<lparr>rn_node_name = su_hostname env, rn_hostname = su_hostname env, rn_cluster_id = uuid_text cluster,
       rn_capabilities = capabilities, rn_resources = get_current_resources (su_system env)\<rparr> w = (Inl e, w')"
    using assms(1) unfolding offline_def by blast
  then show ?thesis
    by (simp add: agent_start_def agent_register_def assms(2) client_register_def node_agent_new_def Let_def)
qed






end
