(* ===== verification/Scheduler_Calls.thy ===== *)
theory Scheduler_Calls
  imports Scheduler
begin

text \<open>
  Concurrent calls of the scheduler.  \<open>schedule\<close> releases the lock of the node
  allocations before it takes the lock of the sessions: another call can run in
  between, and a caller that gives up there (the future is dropped) leaves the
  reservation behind.  \<open>release_session\<close> holds both locks to its end.

  The first half of \<open>schedule\<close> is \<open>schedule_reserve\<close>, the second \<open>schedule_store\<close>;
  \<open>concurrent_reachable\<close> are the states of all interleavings, with the sessions
  that are reserved and not yet stored.
\<close>

section \<open>The two halves of schedule\<close>

definition schedule_reserve ::
  "((node_id, resource_allocation) hash_map \<Rightarrow> (node_id, resource_allocation) hash_map) \<Rightarrow> datetime \<Rightarrow>
   schedule_request \<Rightarrow> (scheduler_state, schedule_error, scheduled_session) action" where
  "schedule_reserve rehash now request st =
     (let cluster = sc_cluster st
      in if \<not> check_admission request cluster then (Err AdmissionRejected, st)
         else bind_action (lift_outcome (select_nodes cluster)) (\<lambda>selected.
           if selected = [] then fail_action NoSchedulableNodes
           else
             let allocations = rehash (calculate_allocations selected)
             in bind_action (\<lambda>st. let (reserved, allocs) =
                    reserve_resources (rq_session_id request) allocations (sc_node_allocations st)
                  in (reserved, st\<lparr>sc_node_allocations := allocs\<rparr>)) (\<lambda>_.
                return_action \<lparr>ss_session_id = rq_session_id request,
                  ss_model_id = rq_model_id request,
                  ss_assigned_nodes = selected,
                  ss_allocated_resources = allocations,
                  ss_priority = rq_priority request,
                  ss_scheduled_at = now,
                  ss_estimated_tokens_per_second = estimate_throughput selected cluster\<rparr>)) st)"

definition schedule_store :: "scheduled_session \<Rightarrow> (scheduler_state, schedule_error, scheduled_session) action" where
  "schedule_store session st =
     (Ok session, st\<lparr>sc_sessions := hm_insert (ss_session_id session) session (sc_sessions st)\<rparr>)"

text \<open>Without a call in between, the two halves are \<open>schedule\<close>.\<close>

lemma schedule_halves:
  "schedule rehash now request = bind_action (schedule_reserve rehash now request) schedule_store"
  by (rule ext)
    (simp add: schedule_def schedule_reserve_def schedule_store_def bind_action_def lift_outcome_def fail_action_def
      return_action_def Let_def split_beta split: outcome.split)

inductive concurrent_reachable :: "logical_cluster \<Rightarrow> scheduler_state \<Rightarrow> scheduled_session list \<Rightarrow> bool"
  for cluster where
  initial: "concurrent_reachable cluster (scheduler_new cluster) []"
| reserved: "concurrent_reachable cluster st pending \<Longrightarrow> iteration_order rehash \<Longrightarrow>
    schedule_reserve rehash now request st = (Ok session, st') \<Longrightarrow>
    concurrent_reachable cluster st' (session # pending)"
| refused: "concurrent_reachable cluster st pending \<Longrightarrow> iteration_order rehash \<Longrightarrow>
    schedule_reserve rehash now request st = (r, st') \<Longrightarrow> \<not> is_ok r \<Longrightarrow>
    concurrent_reachable cluster st' pending"
| stored: "concurrent_reachable cluster st (pending @ session # pending') \<Longrightarrow>
    schedule_store session st = (r, st') \<Longrightarrow> concurrent_reachable cluster st' (pending @ pending')"
| abandoned: "concurrent_reachable cluster st (pending @ session # pending') \<Longrightarrow>
    concurrent_reachable cluster st (pending @ pending')"
| released: "concurrent_reachable cluster st pending \<Longrightarrow> release_session sid st = (r, st') \<Longrightarrow>
    concurrent_reachable cluster st' pending"

section \<open>The invariant\<close>

definition placed_session :: "logical_cluster \<Rightarrow> scheduled_session \<Rightarrow> bool" where
  "placed_session cluster s \<longleftrightarrow> ss_assigned_nodes s = selected cluster \<and>
     standard_shares (ss_allocated_resources s) (set (selected cluster))"

text \<open>The load covers the stored sessions and the pending ones.\<close>

definition concurrent_inv :: "logical_cluster \<Rightarrow> nat \<Rightarrow> scheduler_state \<Rightarrow> scheduled_session list \<Rightarrow> bool" where
  "concurrent_inv cluster k st pending \<longleftrightarrow>
     scheduler_inv False cluster k st \<and> hm_len (sc_sessions st) + length pending \<le> k \<and>
     list_all (placed_session cluster) pending"

lemma reserve_Ok:
  assumes "schedule_reserve rehash now request st = (Ok session, st')"
  shows "schedule rehash now request st = (Ok session, snd (schedule_store session st'))"
    and "st' = st\<lparr>sc_node_allocations := sc_node_allocations st'\<rparr>"
  using assms
  by (auto simp: schedule_halves schedule_store_def schedule_reserve_def Let_def split_beta
      split: if_splits elim!: bind_action_OkE)

lemma reserve_not_Ok:
  assumes "schedule_reserve rehash now request st = (r, st')" and "\<not> is_ok r"
  shows "snd (schedule rehash now request st) = st' \<and> \<not> is_ok (fst (schedule rehash now request st))"
  using assms by (cases r) (simp_all add: schedule_halves)

lemma concurrent_inv_reserve:
  assumes "concurrent_inv cluster k st pending" and "iteration_order rehash"
    and "schedule_reserve rehash now request st = (Ok session, st')"
  shows "concurrent_inv cluster (Suc k) st' (session # pending)"
proof -
  have inv: "scheduler_inv False cluster k st" using assms(1) by (simp add: concurrent_inv_def)
  note reserve = reserve_Ok [OF assms(3)]
  from assms(2) inv show ?thesis
  proof (cases rule: schedule_cases [of rehash False cluster k st request now])
    case (ok s allocs)
    have same: "s = session" using ok(4) reserve(1) by simp
    have "snd (schedule_store session st') = st\<lparr>sc_node_allocations := allocs,
        sc_sessions := hm_insert (rq_session_id request) s (sc_sessions st)\<rparr>"
      using ok(4) reserve(1) same by simp
    from arg_cong [OF this, of sc_node_allocations] have "sc_node_allocations st' = allocs"
      by (simp add: schedule_store_def)
    with reserve(2) have st': "st' = st\<lparr>sc_node_allocations := allocs\<rparr>" by simp
    have "uniform_load cluster (Suc k) allocs"
      using uniform_load_add [OF _ _ ok(8)] inv ok(3) by (simp add: scheduler_inv_def)
    then show ?thesis
      using assms(1) ok(3,5,6,7) by (simp add: st' same [symmetric] concurrent_inv_def scheduler_inv_def placed_session_def)
  qed (use reserve(1) in auto)
qed

lemma concurrent_inv_store:
  assumes "concurrent_inv cluster k st (pending @ session # pending')" and "schedule_store session st = (r, st')"
  shows "concurrent_inv cluster k st' (pending @ pending')"
proof -
  have "hm_ok (sc_sessions st)" using assms(1) by (simp add: concurrent_inv_def scheduler_inv_def)
  then have "hm_len (hm_insert (ss_session_id session) session (sc_sessions st)) \<le> Suc (hm_len (sc_sessions st))"
    by (rule hm_len_insert_le)
  then show ?thesis
    using assms by (auto simp: schedule_store_def concurrent_inv_def scheduler_inv_def placed_sessions_def placed_session_def
      split: if_splits)
qed

lemma concurrent_reachable_inv: "concurrent_reachable cluster st pending \<Longrightarrow> \<exists>k. concurrent_inv cluster k st pending"
proof (induction rule: concurrent_reachable.induct)
  case initial
  show ?case using scheduler_inv_new [of False cluster]
    by (intro exI [of _ 0]) (simp add: concurrent_inv_def scheduler_new_def hm_len_def hm_new_def)
next
  case (reserved st pending rehash now request session st')
  then show ?case using concurrent_inv_reserve by blast
next
  case (refused st pending rehash now request r st')
  then obtain k where inv: "concurrent_inv cluster k st pending" by blast
  then have "scheduler_inv False cluster k st" by (simp add: concurrent_inv_def)
  from refused.hyps(2) this have "st' = st"
    by (cases rule: schedule_cases [of rehash False cluster k st request now])
      (use reserve_not_Ok [OF refused.hyps(3,4)] in auto)
  with inv show ?case by blast
next
  case (stored st pending session pending' r st')
  then show ?case using concurrent_inv_store by blast
next
  case (abandoned st pending session pending')
  then obtain k where "concurrent_inv cluster k st (pending @ session # pending')" by blast
  then show ?case by (intro exI [of _ k]) (simp add: concurrent_inv_def)
next
  case (released st pending sid r st')
  then obtain k where inv: "concurrent_inv cluster k st pending" by blast
  then have "scheduler_inv False cluster k st" by (simp add: concurrent_inv_def)
  then show ?case
  proof (cases rule: release_cases [of False cluster k st sid])
    case absent
    then show ?thesis using inv released.hyps(2) by auto
  next
    case (ok session allocs)
    have "scheduler_inv False cluster (k - 1) st'"
      using scheduler_inv_release [OF \<open>scheduler_inv False cluster k st\<close> released.hyps(2)] ok(4) released.hyps(2) by simp
    moreover have "Suc (hm_len (sc_sessions st')) = hm_len (sc_sessions st)"
      using hm_len_remove [OF _ ok(1)] inv ok(4) released.hyps(2) by (auto simp: concurrent_inv_def scheduler_inv_def)
    ultimately show ?thesis
      using inv by (intro exI [of _ "k - 1"]) (auto simp: concurrent_inv_def)
  qed
qed

section \<open>Properties\<close>

text \<open>
  C6.  Concurrent calls never overcommit a node.  In every state that calls of
  \<open>schedule\<close> and \<open>release_session\<close> reach, interleaved between the two locks of
  \<open>schedule\<close> in any way, with any requests, hash orders and abandoned calls, a
  node's reservation is \<open>k\<close> times 30 percent of CPU, 4 GiB of RAM and 2 GiB of
  VRAM for one \<open>k\<close> of at most 3, and the stored sessions and those about to be
  stored are at most \<open>k\<close> together.
\<close>

theorem concurrent_calls_never_overcommit:
  assumes "concurrent_reachable cluster st pending"
  shows "\<exists>k \<le> 3. hm_len (sc_sessions st) + length pending \<le> k \<and>
    (\<forall>n a. hm_get (sc_node_allocations st) n = Some a \<longrightarrow>
      na_cpu_percent a = Fin (of_nat (30 * k)) \<and>
      unat (na_ram_bytes a) = 4 * 1024 ^ 3 * k \<and> unat (na_vram_bytes a) = 2 * 1024 ^ 3 * k)"
proof -
  obtain k where inv: "concurrent_inv cluster k st pending"
    using concurrent_reachable_inv [OF assms] by blast
  then have le: "k \<le> 3" and load: "uniform_load cluster k (sc_node_allocations st)"
    by (simp_all add: concurrent_inv_def scheduler_inv_def)
  have "carries k a" if "hm_get (sc_node_allocations st) n = Some a" for n a
    using uniform_loadD(3) [OF load that] .
  moreover have "unat (of_nat (4294967296 * k) :: u64) = 4294967296 * k"
    "unat (of_nat (2147483648 * k) :: u64) = 2147483648 * k"
    using le by (intro unat_of_nat_exact; simp)+
  ultimately show ?thesis
    using inv le by (auto simp: concurrent_inv_def carries_def intro!: exI [of _ k])
qed

text \<open>
  Abandoned calls use the scheduler up: after three of them nothing is stored,
  and from then on every request is refused and every release finds no session,
  so the state never changes again.
\<close>

lemma abandoned_calls_exhaust:
  assumes "iteration_order rehash"
    and "schedule_reserve rehash t1 r1 (scheduler_new cluster) = (Ok s1, st1)"
    and "schedule_reserve rehash t2 r2 st1 = (Ok s2, st2)" and "schedule_reserve rehash t3 r3 st2 = (Ok s3, st3)"
  shows "concurrent_reachable cluster st3 []" and "sc_sessions st3 = []"
    and "iteration_order rehash' \<Longrightarrow> \<exists>e. schedule rehash' now request st3 = (Err e, st3)"
    and "release_session sid st3 = (Err SessionNotFound, st3)"
proof -
  have "concurrent_inv cluster 0 (scheduler_new cluster) []"
    using scheduler_inv_new by (simp add: concurrent_inv_def scheduler_new_def hm_len_def hm_new_def)
  from concurrent_inv_reserve [OF concurrent_inv_reserve [OF concurrent_inv_reserve [OF this assms(1,2)] assms(1,3)] assms(1,4)]
  have inv: "scheduler_inv False cluster 3 st3" by (simp add: concurrent_inv_def numeral_3_eq_3)
  have keep: "sc_sessions st' = sc_sessions st" if "schedule_reserve rehash t r st = (Ok s, st')" for t r s st st'
    using reserve_Ok(2) [OF that] by (metis scheduler_state.select_convs(2) scheduler_state.surjective scheduler_state.update_convs(3))
  show empty: "sc_sessions st3 = []"
    using keep [OF assms(2)] keep [OF assms(3)] keep [OF assms(4)] by (simp add: scheduler_new_def hm_new_def)
  show "concurrent_reachable cluster st3 []"
    using concurrent_reachable.abandoned [of cluster st3 "[]" s3 "[]"]
      concurrent_reachable.abandoned [of cluster st3 "[s3]" s2 "[]"]
      concurrent_reachable.abandoned [of cluster st3 "[s3, s2]" s1 "[]"]
      concurrent_reachable.reserved [OF concurrent_reachable.reserved [OF concurrent_reachable.reserved
        [OF concurrent_reachable.initial assms(1,2)] assms(1,3)] assms(1,4)] by simp
  show "\<exists>e. schedule rehash' now request st3 = (Err e, st3)" if "iteration_order rehash'"
    using that inv by (cases rule: schedule_cases [of rehash' False cluster 3 st3 request now]) auto
  show "release_session sid st3 = (Err SessionNotFound, st3)"
    by (simp add: release_session_def empty hm_get_def)
qed

text \<open>Two calls that reserve before either stores its session.\<close>

lemma sample_reserve:
  assumes "scheduler_inv False sample_scheduling_cluster k st" and "k < 3"
  shows "\<exists>session st'. schedule_reserve rev 0 (sample_schedule_request sid) st = (Ok session, st')"
  using iteration_order_rev assms(1)
proof (cases rule: schedule_cases [of rev False sample_scheduling_cluster k st "sample_schedule_request sid" 0])
  case (ok session allocs)
  then show ?thesis
    by (auto simp: schedule_halves elim!: bind_action_OkE)
qed (use assms(2) in auto)

theorem concurrent_calls_never_overcommit_witness:
  "\<exists>s1 s2 st1 st2. schedule_reserve rev 0 (sample_schedule_request 7) (scheduler_new sample_scheduling_cluster) = (Ok s1, st1) \<and>
     schedule_reserve rev 0 (sample_schedule_request 8) st1 = (Ok s2, st2) \<and>
     (\<exists>k \<le> 3. hm_len (sc_sessions st2) + 2 \<le> k \<and>
       (\<forall>n a. hm_get (sc_node_allocations st2) n = Some a \<longrightarrow> na_cpu_percent a = Fin (of_nat (30 * k))))"
proof -
  obtain s1 st1 where first:
    "schedule_reserve rev 0 (sample_schedule_request 7) (scheduler_new sample_scheduling_cluster) = (Ok s1, st1)"
    using sample_reserve [where sid = 7, OF scheduler_inv_new] by auto
  have inv: "concurrent_inv sample_scheduling_cluster 0 (scheduler_new sample_scheduling_cluster) []"
    using scheduler_inv_new by (simp add: concurrent_inv_def scheduler_new_def hm_len_def hm_new_def)
  have "scheduler_inv False sample_scheduling_cluster (Suc 0) st1"
    using concurrent_inv_reserve [OF inv iteration_order_rev first] by (simp add: concurrent_inv_def)
  from sample_reserve [where sid = 8, OF this] obtain s2 st2 where
    second: "schedule_reserve rev 0 (sample_schedule_request 8) st1 = (Ok s2, st2)" by auto
  have "concurrent_reachable sample_scheduling_cluster st2 [s2, s1]"
    by (intro concurrent_reachable.reserved [OF _ iteration_order_rev second]
        concurrent_reachable.reserved [OF _ iteration_order_rev first] concurrent_reachable.initial)
  from concurrent_calls_never_overcommit [OF this] first second show ?thesis by auto
qed

end
