(* ===== verification/Test_Harness.thy ===== *)
theory Test_Harness
  imports Cluster_Types
begin

text \<open>
  How a test of the repository is read: a test function is a value of type
  \<open>verdict\<close>, which is \<open>Ok ()\<close> when the test passes, \<open>Err l\<close> when the
  \<open>unwrap\<close> or the assertion in line \<open>l\<close> of its file is the first to fail, and
  \<open>Panic\<close> when the code under test panics itself.
\<close>

type_synonym verdict = "(nat, unit) outcome"

definition unwrap_at :: "nat \<Rightarrow> ('e, 'a) outcome \<Rightarrow> (nat, 'a) outcome" where
  "unwrap_at line r = (case r of Ok a \<Rightarrow> Ok a | Err _ \<Rightarrow> Err line | Panic p \<Rightarrow> Panic p)"

definition check_at :: "nat \<Rightarrow> bool \<Rightarrow> verdict" where
  "check_at line b = (if b then Ok () else Err line)"

text \<open>An awaited operation with a mutable receiver, unwrapped.\<close>

definition unwrap_action_at :: "nat \<Rightarrow> ('s, 'e, 'a) action \<Rightarrow> ('s, nat, 'a) action" where
  "unwrap_action_at line m s = (case m s of (r, s') \<Rightarrow> (unwrap_at line r, s'))"

lemma unwrap_at_simps [simp]:
  "unwrap_at line (Ok a) = Ok a" "unwrap_at line (Err e) = Err line" "unwrap_at line (Panic p) = Panic p"
  by (simp_all add: unwrap_at_def)

lemma check_at_simps [simp]: "check_at line True = Ok ()" "check_at line False = Err line"
  by (simp_all add: check_at_def)

lemma unwrap_action_at_simps:
  "m s = (r, s') \<Longrightarrow> unwrap_action_at line m s = (unwrap_at line r, s')"
  by (simp add: unwrap_action_at_def)

end
