(* ===== verification/Serving.thy ===== *)
theory Serving
  imports Planner Scheduler Pipeline_Executor Test_Harness
begin

text \<open>
  Planner, scheduler and executor together, as the chat completion of
  \<open>tests/end-to-end/src/api_tests.rs\<close> calls them: plan the model on the cluster,
  initialise the session with the plan, reserve resources for it, execute.  The
  repository has no other code that calls the three for one session.

  The flow is characterised for every cluster, and the reservation is compared
  with the plan: the scheduler reserves a share of at most three nodes, while
  the planner uses every healthy node.
\<close>

section \<open>The flow\<close>

definition chat_model_metadata :: model_metadata where
  "chat_model_metadata = \<lparr>mm_parameter_count = 7000000000, mm_layer_count = 32,
     mm_architecture = ''llama2'', mm_quantization = ''q4_k_m'',
     mm_estimated_weight_bytes = 4 * 1024 * 1024 * 1024\<rparr>"

definition chat_planning_request :: planning_request where
  "chat_planning_request = \<lparr>pr_model_id = ''llama-2-7b'', pr_model_metadata = chat_model_metadata,
     pr_context_length = 4096, pr_batch_size = 1, pr_preferred_strategy = None\<rparr>"

definition chat_schedule_request :: "session_id \<Rightarrow> schedule_request" where
  "chat_schedule_request sid = \<lparr>rq_session_id = sid, rq_model_id = ''llama-2-7b'',
     rq_context_length = 4096, rq_batch_size = 1, rq_priority = Normal\<rparr>"

definition chat_execution_request :: "session_id \<Rightarrow> execution_request" where
  "chat_execution_request sid = \<lparr>xr_session_id = sid, xr_input_tokens = [1, 2, 3, 4, 5],
     xr_max_tokens = 10, xr_temperature = fl_round binary32 (7 / 10)\<rparr>"

text \<open>
  The steps of the flow for a cluster, a session id, the readings of the clocks
  and the iteration order of the map of allocations.
\<close>

definition chat_flow ::
  "((node_id, resource_allocation) hash_map \<Rightarrow> (node_id, resource_allocation) hash_map) \<Rightarrow> datetime \<Rightarrow>
   (nat \<Rightarrow> datetime) \<Rightarrow> nat \<Rightarrow> session_id \<Rightarrow> logical_cluster \<Rightarrow> verdict" where
  "chat_flow rehash now clock elapsed sid cluster =
     bind_outcome (unwrap_at 59 (create_plan chat_planning_request cluster)) (\<lambda>plan.
     bind_outcome (check_at 60 (ep_model_id plan = ''llama-2-7b'')) (\<lambda>_.
     let (initialized, executor) = initialize_session now sid plan hm_new
     in bind_outcome (unwrap_at 62 initialized) (\<lambda>_.
        let (scheduled, scheduler) = schedule rehash now (chat_schedule_request sid) (scheduler_new cluster)
        in bind_outcome (unwrap_at 72 scheduled) (\<lambda>_.
           let (executed, executor) = execute clock elapsed (chat_execution_request sid) executor
           in bind_outcome (unwrap_at 81 executed) (\<lambda>result.
              bind_outcome (check_at 82 (er_session_id result = sid)) (\<lambda>_.
              bind_outcome (check_at 83 (er_tokens result \<noteq> [])) (\<lambda>_.
              check_at 84 (fl_less (Fin 0) (er_tokens_per_second result)))))))))"

section \<open>The measured rate\<close>

text \<open>A rounding stays below a power of two.\<close>

lemma fl_round_below:
  assumes "0 \<le> x" and "x \<le> 2 ^ k" and "k < 128"
  shows "\<exists>y. fl_round binary32 x = Fin y \<and> 0 \<le> y \<and> y \<le> 2 ^ k"
proof (cases "x = 0")
  case True
  then show ?thesis by (simp add: fl_round_def round_rat_def)
next
  case False
  have "representable 24 (-149) (2 ^ k)"
    unfolding representable_def by (intro exI [of _ 1] exI [of _ "int k"]) auto
  then have "round_rat 24 (-149) x \<le> 2 ^ k"
    using assms False by (intro round_rat_le_representable) auto
  moreover have "fl_round binary32 x = Fin (round_rat 24 (-149) x)"
    using assms by (subst fl_round_Fin [of _ k]) auto
  ultimately show ?thesis using round_rat_nonneg [OF assms(1)] by blast
qed

lemma of_nat_below: "n < 2 ^ k \<Longrightarrow> (of_nat n :: rat) \<le> 2 ^ k"
  by (metis less_imp_le of_nat_le_iff of_nat_numeral of_nat_power)

lemma fl_of_nat_below:
  assumes "n < 2 ^ k" and "k < 128"
  shows "\<exists>y. fl_of_nat binary32 n = Fin y \<and> 0 \<le> y \<and> y \<le> 2 ^ k"
  unfolding fl_of_nat_def by (rule fl_round_below [OF _ of_nat_below [OF assms(1)] assms(2)]) simp

text \<open>The seconds of a \<open>Duration\<close>, whose seconds are 64 bits wide.\<close>

lemma as_secs_range:
  assumes "elapsed < 2 ^ 64 * 1000000000"
  shows "\<exists>s. as_secs_f32 elapsed = Fin s \<and> 0 \<le> s \<and> s \<le> 2 ^ 65"
proof -
  have "elapsed div 1000000000 < 2 ^ 64"
    using assms by (simp add: less_mult_imp_div_less)
  then obtain a where a: "fl_of_nat binary32 (elapsed div 1000000000) = Fin a" "0 \<le> a" "a \<le> 2 ^ 64"
    using fl_of_nat_below [of _ 64] by fastforce
  have "elapsed mod 1000000000 < 2 ^ 30"
    by (rule less_trans [of _ 1000000000]) simp_all
  then obtain b where b: "fl_of_nat binary32 (elapsed mod 1000000000) = Fin b" "0 \<le> b" "b \<le> 2 ^ 30"
    using fl_of_nat_below [of _ 30] by fastforce
  then have "0 \<le> b / 1000000000" "b / 1000000000 \<le> 2 ^ 1" by simp_all
  then obtain c where c: "fl_round binary32 (b / 1000000000) = Fin c" "0 \<le> c" "c \<le> 2 ^ 1"
    using fl_round_below [of _ 1] by fastforce
  have "0 \<le> a + c" "a + c \<le> 2 ^ 65" using a c by simp_all
  then show ?thesis
    using fl_round_below [of "a + c" 65] a(1) b(1) c(1) by (auto simp: as_secs_f32_def)
qed

lemma rate_positive:
  assumes "0 < n" and "n \<le> 2 ^ 24" and "elapsed < 2 ^ 64 * 1000000000"
  shows "fl_less (Fin 0) (fl_div binary32 (fl_of_nat binary32 n) (as_secs_f32 elapsed))"
proof -
  obtain s where s: "as_secs_f32 elapsed = Fin s" "0 \<le> s" "s \<le> 2 ^ 65"
    using as_secs_range [OF assms(3)] by blast
  have n: "fl_of_nat binary32 n = Fin (of_nat n)" by (rule fl_of_nat_exact32 [OF assms(2)])
  show ?thesis
  proof (cases "s = 0")
    case True
    then show ?thesis using assms(1) by (simp add: s n signed_inf_def)
  next
    case False
    let ?q = "of_nat n / s"
    have pos: "0 < ?q" using False s assms(1) by simp
    have s0: "0 < s" using False s(2) by linarith
    have "1 / 2 ^ 65 \<le> 1 / s" by (rule divide_left_mono [OF s(3)]) (use s0 in simp_all)
    moreover have "1 \<le> (of_nat n :: rat)" using assms(1) by simp
    then have "1 / s \<le> ?q" using s0 by (intro divide_right_mono) simp_all
    ultimately have low: "1 / 2 ^ 65 \<le> ?q" by linarith
    have "(2::rat) powi (-149 + int 24 - 1) \<le> 2 powi (- int 65)" by (rule powi_mono) simp
    also have "(2::rat) powi (- int 65) = 1 / 2 ^ 65"
      by (simp only: power_int_minus power_int_of_nat divide_inverse mult_1)
    finally have normal: "2 powi (-149 + int 24 - 1) \<le> ?q" using low by linarith
    have "0 < round_rat 24 (-149) ?q" by (rule r32.rnd_positive [OF pos normal])
    then have "fl_less (Fin 0) (fl_round binary32 ?q)"
      by (simp add: fl_round_def Let_def)
    then show ?thesis using False by (simp add: s n)
  qed
qed

section \<open>The flow on any cluster\<close>

lemma selected_empty_iff: "selected cluster = [] \<longleftrightarrow> available_nodes cluster = []"
proof -
  obtain ys where "selected cluster = map fst (take 3 ys)" "mset ys = mset (node_scores cluster)"
    by (rule selected_sorted)
  then have "selected cluster = [] \<longleftrightarrow> node_scores cluster = []" by auto
  then show ?thesis by (simp add: node_scores_def available_nodes_def)
qed

lemma chat_execution:
  assumes "elapsed < 2 ^ 64 * 1000000000"
  shows "\<exists>result executor. execute clock elapsed (chat_execution_request sid) (snd (initialize_session now sid plan hm_new)) =
      (Ok result, executor) \<and> er_session_id result = sid \<and> er_tokens result = map word_of_nat [6..<16] \<and>
      fl_less (Fin 0) (er_tokens_per_second result)"
proof -
  let ?s = "\<lparr>se_session_id = sid, se_plan = plan, se_stage_states = map initial_stage (ep_stages plan),
    se_tensor_buffer = hm_new, se_status = SInitializing, se_created_at = now\<rparr>"
  let ?sessions = "snd (initialize_session now sid plan hm_new)"
  have get: "hm_get ?sessions (xr_session_id (chat_execution_request sid)) = Some ?s"
    by (simp add: initialize_session_def chat_execution_request_def)
  have ok: "session_ok ?s" by (simp add: session_ok_def initial_stage_def comp_def)
  obtain session' result where run:
      "execute clock elapsed (chat_execution_request sid) ?sessions =
        (Ok result, hm_modify (xr_session_id (chat_execution_request sid)) (\<lambda>_. session') ?sessions)"
      "er_tokens result = generate (unat (xr_max_tokens (chat_execution_request sid)))
        (xr_input_tokens (chat_execution_request sid) @ xr_input_tokens (chat_execution_request sid))"
    using execute_session [OF get ok, where clock = clock and elapsed = elapsed] by auto
  have first: "next_token [1, 2, 3, 4, 5, 1, 2, 3, 4, 5] = 6"
    by (simp add: next_token_def)
  have list: "[0..<10] = [0, 1, 2, 3, 4, 5, 6, 7, 8, 9 :: nat]" "[6..<16] = [6, 7, 8, 9, 10, 11, 12, 13, 14, 15 :: nat]"
    by (simp_all add: upt_rec)
  have tokens: "er_tokens result = map word_of_nat [6..<16]"
    using run(2) unfolding generate_closed by (simp add: chat_execution_request_def first list)
  have "er_tokens_per_second result = fl_div binary32 (fl_of_nat binary32 (length (er_tokens result))) (as_secs_f32 elapsed)"
    and "er_session_id result = sid"
    using run(1) get by (auto simp: execute_def Let_def split_beta chat_execution_request_def)
  moreover have "length (er_tokens result) = 10" by (simp add: tokens list)
  ultimately have "er_session_id result = sid \<and> fl_less (Fin 0) (er_tokens_per_second result)"
    using rate_positive [of 10 elapsed, OF _ _ assms] by simp
  then show ?thesis using run(1) tokens by blast
qed

lemma chat_flow_outcome:
  assumes "iteration_order rehash" and "length (ct_links (lc_topology cluster)) < 2 ^ 32"
    and "elapsed < 2 ^ 64 * 1000000000"
  shows "chat_flow rehash now clock elapsed sid cluster =
    (if available_nodes cluster = [] then Err 59
     else if \<not> check_admission (chat_schedule_request sid) cluster then Err 72 else Ok ())"
proof (cases "available_nodes cluster = []")
  case True
  then show ?thesis
    using create_plan_total [OF assms(2), of chat_planning_request] by (auto simp: chat_flow_def)
next
  case False
  then obtain plan where plan: "create_plan chat_planning_request cluster = Ok plan"
    using create_plan_total [OF assms(2)] by blast
  then have id: "ep_model_id plan = ''llama-2-7b''"
    using create_plan_Ok(4) [OF plan] by (simp add: chat_planning_request_def)
  have init: "fst (initialize_session now sid plan hm_new) = Ok ()" by (simp add: initialize_session_def)
  obtain result executor where run: "execute clock elapsed (chat_execution_request sid)
      (snd (initialize_session now sid plan hm_new)) = (Ok result, executor)" "er_session_id result = sid"
      "er_tokens result = map word_of_nat [6..<16]" "fl_less (Fin 0) (er_tokens_per_second result)"
    using chat_execution [OF assms(3)] by blast
  have ne: "selected cluster \<noteq> []" using False by (simp add: selected_empty_iff)
  from assms(1) scheduler_inv_new show ?thesis
    by (cases rule: schedule_cases [of rehash False cluster 0 "scheduler_new cluster" "chat_schedule_request sid" now])
      (use False ne in \<open>auto simp: chat_flow_def plan id init run split_beta Let_def simp del: upt_rec_numeral\<close>)
qed

text \<open>
  C16.  The chat completion on any cluster: it fails in planning when the cluster
  has no healthy node, in scheduling when the cluster's memory does not exceed
  4 MiB or its device memory 2 MiB, and passes every check otherwise, whatever
  the order of the maps and the readings of the clocks.
\<close>

theorem chat_flow_verdict:
  assumes "iteration_order rehash" and "length (ct_links (lc_topology cluster)) < 2 ^ 32"
    and "elapsed < 2 ^ 64 * 1000000000"
  shows "chat_flow rehash now clock elapsed sid cluster =
    (if \<not> (\<exists>(n, node) \<in> set (lc_nodes cluster). pn_status node = Healthy) then Err 59
     else if lr_host_memory_bytes (lc_logical_resources cluster) \<le> 4194304 \<or>
       lr_device_memory_bytes (lc_logical_resources cluster) \<le> 2097152 then Err 72
     else Ok ())"
proof -
  have "(\<exists>(n, node) \<in> set (lc_nodes cluster). pn_status node = Healthy) \<longleftrightarrow> available_nodes cluster \<noteq> []"
    by (auto simp: available_nodes_def healthy_def filter_empty_conv)
  moreover have "check_admission (chat_schedule_request sid) cluster \<longleftrightarrow>
      \<not> (lr_host_memory_bytes (lc_logical_resources cluster) \<le> 4194304 \<or>
         lr_device_memory_bytes (lc_logical_resources cluster) \<le> 2097152)"
    by (auto simp: check_admission_def chat_schedule_request_def Let_def not_le)
  ultimately show ?thesis using chat_flow_outcome [OF assms] by simp
qed

theorem chat_flow_verdict_witness:
  "chat_flow rev 0 (\<lambda>_. 0) 1000000 7 sample_planning_cluster = Ok () \<and>
   chat_flow rev 0 (\<lambda>_. 0) 1000000 7 (sample_cluster [] []) = Err 59"
  using chat_flow_verdict [OF iteration_order_rev, of sample_planning_cluster 1000000 0 "\<lambda>_. 0" 7]
    chat_flow_verdict [OF iteration_order_rev, of "sample_cluster [] []" 1000000 0 "\<lambda>_. 0" 7]
  by (simp add: sample_planning_cluster_def sample_cluster_def)

section \<open>The plan and the reservation\<close>

text \<open>
  The nodes a plan is made over: the healthy ones, and under the hybrid strategy
  those with a GPU if there is one.
\<close>

definition planned_nodes :: "logical_cluster \<Rightarrow> parallelism_strategy \<Rightarrow> (node_id \<times> physical_node) list" where
  "planned_nodes cluster strategy =
     (let nodes = available_nodes cluster; gpu_nodes = filter (\<lambda>(_, node). has_gpu node) nodes
      in if strategy = PipelineHybrid \<and> gpu_nodes \<noteq> [] then gpu_nodes else nodes)"

lemma planned_nodes_subset: "set (planned_nodes cluster strategy) \<subseteq> set (available_nodes cluster)"
  by (auto simp: planned_nodes_def Let_def)

lemma partition_is_pipeline:
  assumes "length (lc_nodes cluster) \<le> 2 ^ 24"
    and "unat (mm_layer_count (pr_model_metadata request)) \<le> 2 ^ 24"
    and "partition_model request cluster strategy = Ok stages"
  shows "stages = pipeline_stages (pr_model_metadata request) (planned_nodes cluster strategy)"
    and "planned_nodes cluster strategy \<noteq> []" and "length (planned_nodes cluster strategy) \<le> 2 ^ 24"
proof -
  have len: "length (available_nodes cluster) \<le> 2 ^ 24"
    using assms(1) length_filter_le order_trans unfolding available_nodes_def by blast
  show "stages = pipeline_stages (pr_model_metadata request) (planned_nodes cluster strategy)"
  proof (cases "filter (\<lambda>(_, node). has_gpu node) (available_nodes cluster) = []")
    case True
    then show ?thesis using assms(3)
      by (cases strategy) (auto simp: partition_model_def planned_nodes_def hybrid_stages_def Let_def split: if_splits)
  next
    case False
    then show ?thesis using assms(3) hybrid_stages_gpu [OF False len assms(2)]
      by (cases strategy) (auto simp: partition_model_def planned_nodes_def Let_def split: if_splits)
  qed
  show "planned_nodes cluster strategy \<noteq> []" "length (planned_nodes cluster strategy) \<le> 2 ^ 24"
    using assms(3) len order_trans [OF length_filter_le len]
    by (auto simp: partition_model_def planned_nodes_def Let_def split: if_splits)
qed

text \<open>The stages hold at most \<open>per_node\<close> layers each, so there are enough of them for the model.\<close>

lemma length_concat_le: "\<forall>xs \<in> set xss. length xs \<le> k \<Longrightarrow> length (concat xss) \<le> length xss * k"
  by (induction xss) auto

lemma pipeline_stage_count:
  assumes "nodes \<noteq> []" and "length nodes \<le> 2 ^ 24" and "unat (mm_layer_count md) \<le> 2 ^ 24"
  shows "unat (mm_layer_count md) \<le>
    length (pipeline_stages md nodes) * unat (layers_per_node (mm_layer_count md) (length nodes))"
proof -
  let ?p = "layers_per_node (mm_layer_count md) (length nodes)"
  obtain stages final where loop: "stage_loop md ?p 0 0 nodes = (stages, final)" by force
  have "1 \<le> length nodes" using assms(1) by (cases nodes) auto
  note enough = layers_per_node_enough(2) [OF this assms(2,3)]
  have bound: "unat (mm_layer_count md) + unat ?p < 2 ^ 32" using enough assms(3) by simp
  have "(0 :: u32) \<le> mm_layer_count md" by simp
  note cover = stage_loop_cover [OF loop bound this]
  have complete: "concat (map sp_layers stages) = u32_range 0 (mm_layer_count md)"
    using stage_loop_complete [OF assms loop] by (simp add: complete_stages_def)
  have "length (concat (map sp_layers stages)) \<le> length (map sp_layers stages) * unat ?p"
    using cover by (intro length_concat_le) auto
  then show ?thesis by (simp add: complete pipeline_stages_def loop)
qed

text \<open>What is reserved for a session.\<close>

lemma reserved_shares:
  assumes "scheduler_reachable fresh cluster st" and "iteration_order rehash"
    and "schedule rehash now request st = (Ok session, st')"
  shows "hm_get (ss_allocated_resources session) n =
    (if n \<in> set (selected cluster) then Some (standard_allocation n) else None)"
proof -
  obtain k where "scheduler_inv fresh cluster k st" using reachable_inv [OF assms(1)] by blast
  with assms(2) show ?thesis
    by (cases rule: schedule_cases [of rehash fresh cluster k st request now])
      (use assms(3) in \<open>auto simp: standard_shares_get\<close>)
qed

lemma selected_length: "length (selected cluster) \<le> 3"
  by (rule selected_sorted [of cluster]) simp

lemma selected_all:
  assumes "length (available_nodes cluster) \<le> 3"
  shows "set (selected cluster) = fst ` set (available_nodes cluster)"
proof -
  obtain ys where ys: "selected cluster = map fst (take 3 ys)" "mset ys = mset (node_scores cluster)"
    by (rule selected_sorted)
  have "length ys = length (node_scores cluster)" using ys(2) by (metis size_mset)
  then have "length ys \<le> 3" using assms by (simp add: node_scores_def available_nodes_def)
  moreover have "set ys = set (node_scores cluster)" using ys(2) by (metis mset_eq_setD)
  ultimately show ?thesis using ys(1)
    by (force simp: node_scores_def available_nodes_def)
qed

text \<open>Clusters with two and with four healthy nodes, and a session scheduled on them.\<close>

definition wide_cluster :: logical_cluster where
  "wide_cluster = sample_cluster (map (\<lambda>n. (n, sample_node n Healthy [])) [1, 2, 3, 4]) []"

lemma wide_cluster_simps [simp]:
  "hm_ok (lc_nodes wide_cluster)" "length (lc_nodes wide_cluster) = 4"
  "ct_links (lc_topology wide_cluster) = []"
  "length (planned_nodes wide_cluster strategy) = 4" "available_nodes wide_cluster \<noteq> []"
  by (simp_all add: wide_cluster_def hm_ok_def planned_nodes_def available_nodes_def)

lemma wide_plan: "\<exists>plan. create_plan (sample_request layers context_length) wide_cluster = Ok plan"
  using create_plan_total [of wide_cluster "sample_request layers context_length"] by simp

lemma chat_session_scheduled:
  assumes "available_nodes cluster \<noteq> []" and "cluster = sample_cluster nodes links"
  shows "\<exists>session st'. schedule rev 0 (chat_schedule_request 7) (scheduler_new cluster) = (Ok session, st')"
proof -
  have "check_admission (chat_schedule_request 7) cluster"
    by (simp add: assms(2) check_admission_def chat_schedule_request_def sample_cluster_def)
  with iteration_order_rev scheduler_inv_new [of False cluster] show ?thesis
    by (cases rule: schedule_cases [of rev False cluster 0 "scheduler_new cluster" "chat_schedule_request 7" 0])
      (use assms(1) in \<open>auto simp: selected_empty_iff\<close>)
qed

text \<open>
  On a cluster with at most three healthy nodes, a scheduled session has the
  standard share reserved on the node of every stage of any plan.
\<close>

theorem small_plans_reserved:
  assumes "hm_ok (lc_nodes cluster)" and "create_plan request cluster = Ok plan"
    and "scheduler_reachable fresh cluster st" and "iteration_order rehash"
    and "schedule rehash now srequest st = (Ok session, st')"
    and "length (available_nodes cluster) \<le> 3" and "stage \<in> set (ep_stages plan)"
  shows "hm_get (ss_allocated_resources session) (sp_node_id stage) = Some (standard_allocation (sp_node_id stage))"
proof -
  have "stage_on (pr_model_metadata request) (available_nodes cluster) stage"
    using partition_model_placed [OF assms(1) create_plan_Ok(1) [OF assms(2)]] assms(7)
    by (simp add: placed_stages_def)
  then have "sp_node_id stage \<in> set (selected cluster)"
    by (force simp: stage_on_def selected_all [OF assms(6)])
  then show ?thesis using reserved_shares [OF assms(3-5)] by simp
qed

theorem small_plans_reserved_witness:
  "\<exists>plan session st'. create_plan (sample_request 80 4096) sample_planning_cluster = Ok plan \<and>
     schedule rev 0 (chat_schedule_request 7) (scheduler_new sample_planning_cluster) = (Ok session, st') \<and>
     (\<forall>stage \<in> set (ep_stages plan). hm_get (ss_allocated_resources session) (sp_node_id stage) \<noteq> None)"
proof -
  obtain plan where plan: "create_plan (sample_request 80 4096) sample_planning_cluster = Ok plan"
    using sample_plan by blast
  have "available_nodes sample_planning_cluster \<noteq> []" by simp
  then obtain session st' where
    ok: "schedule rev 0 (chat_schedule_request 7) (scheduler_new sample_planning_cluster) = (Ok session, st')"
    using chat_session_scheduled [OF _ sample_planning_cluster_def] by blast
  have "hm_get (ss_allocated_resources session) (sp_node_id stage) = Some (standard_allocation (sp_node_id stage))"
    if "stage \<in> set (ep_stages plan)" for stage
    by (rule small_plans_reserved [OF _ plan scheduler_reachable.initial [of False] iteration_order_rev ok]) (simp_all add: that)
  with plan ok show ?thesis by fastforce
qed

text \<open>
  C17.  On a larger cluster the reservation does not cover the plan: when three
  stages of \<open>ceil (layers / planned nodes)\<close> layers cannot hold the model, some
  stage of the plan runs on a node on which nothing is reserved for the session.
\<close>

theorem plan_exceeds_reservation:
  assumes "hm_ok (lc_nodes cluster)" and "length (lc_nodes cluster) \<le> 2 ^ 24"
    and "create_plan request cluster = Ok plan"
    and "layers = unat (mm_layer_count (pr_model_metadata request))" and "layers \<le> 2 ^ 24"
    and "3 * \<lceil>of_nat layers / of_nat (length (planned_nodes cluster (ep_strategy plan))) :: rat\<rceil> < int layers"
    and "scheduler_reachable fresh cluster st" and "iteration_order rehash"
    and "schedule rehash now srequest st = (Ok session, st')"
  shows "\<exists>stage \<in> set (ep_stages plan). hm_get (ss_allocated_resources session) (sp_node_id stage) = None"
proof (rule ccontr)
  assume contra: "\<not> ?thesis"
  have part: "partition_model request cluster (ep_strategy plan) = Ok (ep_stages plan)"
    by (rule create_plan_Ok(1) [OF assms(3)])
  have small: "unat (mm_layer_count (pr_model_metadata request)) \<le> 2 ^ 24" using assms(4,5) by simp
  note pipe = partition_is_pipeline [OF assms(2) small part]
  let ?nodes = "planned_nodes cluster (ep_strategy plan)"
  let ?p = "unat (layers_per_node (mm_layer_count (pr_model_metadata request)) (length ?nodes))"
  have "set (map sp_node_id (ep_stages plan)) \<subseteq> set (selected cluster)"
    using contra reserved_shares [OF assms(7-9)] by (auto split: if_splits)
  then have "card (set (map sp_node_id (ep_stages plan))) \<le> 3"
    by (meson card_length card_mono finite_set le_trans selected_length)
  moreover have "distinct (map sp_node_id (ep_stages plan))"
    using partition_model_placed [OF assms(1) part] by (simp add: placed_stages_def)
  ultimately have three: "length (ep_stages plan) \<le> 3" by (metis distinct_card length_map)
  have "layers \<le> length (ep_stages plan) * ?p"
    using pipeline_stage_count [OF pipe(2,3) small] pipe(1) assms(4) by simp
  also have "\<dots> \<le> 3 * ?p" using three by (rule mult_right_mono) simp
  finally have le: "layers \<le> 3 * ?p" .
  have "1 \<le> length ?nodes" using pipe(2) by (cases ?nodes) auto
  note layers_per_node_exact [OF this pipe(3) small]
  then have "3 * int ?p < int layers" using assms(4,6) by simp
  with le show False by linarith
qed

theorem plan_exceeds_reservation_witness:
  "\<exists>plan session st'. create_plan (sample_request 4 4096) wide_cluster = Ok plan \<and>
     schedule rev 0 (chat_schedule_request 7) (scheduler_new wide_cluster) = (Ok session, st') \<and>
     (\<exists>stage \<in> set (ep_stages plan). hm_get (ss_allocated_resources session) (sp_node_id stage) = None)"
proof -
  obtain plan where plan: "create_plan (sample_request 4 4096) wide_cluster = Ok plan"
    using wide_plan by blast
  have "available_nodes wide_cluster \<noteq> []" by simp
  then obtain session st' where
    ok: "schedule rev 0 (chat_schedule_request 7) (scheduler_new wide_cluster) = (Ok session, st')"
    using chat_session_scheduled [OF _ wide_cluster_def] by blast
  have "\<exists>stage \<in> set (ep_stages plan). hm_get (ss_allocated_resources session) (sp_node_id stage) = None"
    by (rule plan_exceeds_reservation [OF _ _ plan _ _ _ scheduler_reachable.initial [of False] iteration_order_rev ok,
        of 4]) simp_all
  with plan ok show ?thesis by blast
qed

end
