(* ===== verification/Crate_Tests.thy ===== *)
theory Crate_Tests
  imports Test_Harness Tcp_Transport Rdma_Transport Hardware_Probe Pairing Observability Gguf Topology Runtimes
begin

text \<open>
  The unit tests of the crates, the transports and the runtimes, each a value of
  type \<open>verdict\<close>, and what comes of them.  What a test draws at random, reads
  from a clock or probes from the machine is an argument.

  The test modules of the runtime of GGML and of the observability crate do not
  compile as they are written (a field \<open>parameters\<close> that \<open>StageExecution\<close> does
  not have, a closure that is not \<open>Debug\<close>), nor does the test of the QUIC
  transport (a \<open>Vec\<close> where a private key is required).  Their other tests are
  read for what they say of the code.
\<close>

section \<open>Transports\<close>

definition test_tcp_config_default :: verdict where
  "test_tcp_config_default =
     (let config = tcp_config_default
      in bind_outcome (check_at 384 (tc_bind_address config = ''0.0.0.0:0'')) (\<lambda>_.
         check_at 385 (tc_max_connections config = 100)))"

definition test_message_type_conversion :: verdict where
  "test_message_type_conversion =
     bind_outcome (unwrap_at 390 (message_type_from_u8 0)) (\<lambda>t0.
     bind_outcome (check_at 390 (t0 = TensorTransfer)) (\<lambda>_.
     bind_outcome (unwrap_at 391 (message_type_from_u8 1)) (\<lambda>t1.
     bind_outcome (check_at 391 (t1 = Ping)) (\<lambda>_.
     bind_outcome (unwrap_at 392 (message_type_from_u8 2)) (\<lambda>t2.
     bind_outcome (check_at 392 (t2 = Ack)) (\<lambda>_.
     bind_outcome (check_at 393 (\<not> is_ok (message_type_from_u8 99))) (\<lambda>_.
     bind_outcome (check_at 395 (message_type_as_u8 TensorTransfer = 0)) (\<lambda>_.
     bind_outcome (check_at 396 (message_type_as_u8 Ping = 1)) (\<lambda>_.
     check_at 397 (message_type_as_u8 Ack = 2))))))))))"

definition test_message_header :: verdict where
  "test_message_header =
     (let header = \<lparr>mh_message_type = TensorTransfer, mh_tensor_id = ascii ''test_tensor'', mh_payload_length = 1024\<rparr>
      in bind_outcome (check_at 408 (mh_message_type header = TensorTransfer)) (\<lambda>_.
         bind_outcome (check_at 409 (mh_tensor_id header = ascii ''test_tensor'')) (\<lambda>_.
         check_at 410 (mh_payload_length header = 1024))))"

definition test_rdma_server_creation :: verdict where
  "test_rdma_server_creation =
     (let server = rdma_server_new ''127.0.0.1:0''
      in bind_outcome (check_at 342 (is_ok server)) (\<lambda>_.
         case server of
           Ok server \<Rightarrow> check_at 346 (rst_active_connections (rdma_get_stats server) = 0)
         | _ \<Rightarrow> Ok ()))"

definition test_rdma_client_creation :: verdict where
  "test_rdma_client_creation = check_at 353 (is_ok (rdma_client_new ''127.0.0.1:12345''))"

text \<open>The keys of the region are drawn at random.\<close>

definition test_memory_region_registration :: "u32 \<Rightarrow> u32 \<Rightarrow> verdict" where
  "test_memory_region_registration lkey rkey =
     bind_outcome (unwrap_at 358 (rdma_server_new ''127.0.0.1:0'')) (\<lambda>server.
       let (result, server) = server_register_memory_region lkey rkey ''test_region'' 0x1000 4096 server
       in bind_outcome (check_at 361 (is_ok result)) (\<lambda>_.
          check_at 364 (rst_memory_regions (rdma_get_stats server) = 1)))"

lemma transport_tests_pass:
  "test_tcp_config_default = Ok ()" "test_message_type_conversion = Ok ()" "test_message_header = Ok ()"
  "test_rdma_server_creation = Ok ()" "test_rdma_client_creation = Ok ()"
  "test_memory_region_registration lkey rkey = Ok ()"
  by (simp_all add: test_tcp_config_default_def tcp_config_default_def test_message_type_conversion_def
      test_message_header_def test_rdma_server_creation_def test_rdma_client_creation_def rdma_server_new_def
      rdma_client_new_def rdma_get_stats_def test_memory_region_registration_def server_register_memory_region_def
      hm_defs)

section \<open>Formats, measurements and probes\<close>

definition test_magic_number :: verdict where
  "test_magic_number = check_at 293 (gguf_magic = 0x46554747)"

definition test_dtype_bytes :: verdict where
  "test_dtype_bytes =
     bind_outcome (check_at 298 (dtype_bytes ''f32'' = Some 4)) (\<lambda>_.
     bind_outcome (check_at 299 (dtype_bytes ''f16'' = Some 2)) (\<lambda>_.
     bind_outcome (check_at 300 (dtype_bytes ''i8'' = Some 1)) (\<lambda>_.
     check_at 301 (dtype_bytes ''unknown'' = None))))"

definition test_value_conversions :: verdict where
  "test_value_conversions =
     (let string_val = GString (ascii ''test''); uint_val = Uint32 42; bool_val = GBool True
      in bind_outcome (check_at 307 (as_string string_val = Some (ascii ''test''))) (\<lambda>_.
         bind_outcome (check_at 310 (as_u64 uint_val = Some 42)) (\<lambda>_.
         check_at 313 (as_bool bool_val = Some True))))"

text \<open>The ends of the links are drawn at random.\<close>

definition test_link_quality_estimation :: "node_id \<Rightarrow> node_id \<Rightarrow> node_id \<Rightarrow> node_id \<Rightarrow> verdict" where
  "test_link_quality_estimation a b c d =
     (let excellent = \<lparr>lm_from = a, lm_to = b, lm_transport = ''tcp'', lm_latency_us = 50,
            lm_bandwidth_mbps = 10000, lm_jitter_us = 10, lm_packet_loss_percent = Fin 0\<rparr>;
          poor = \<lparr>lm_from = c, lm_to = d, lm_transport = ''tcp'', lm_latency_us = 5000,
            lm_bandwidth_mbps = 100, lm_jitter_us = 500, lm_packet_loss_percent = Fin 5\<rparr>
      in bind_outcome (check_at 186 (estimate_link_quality excellent = Excellent)) (\<lambda>_.
         check_at 201 (estimate_link_quality poor = Poor)))"

definition test_log_context :: "(level \<Rightarrow> bool) \<Rightarrow> log_event list \<Rightarrow> verdict \<times> log_event list" where
  "test_log_context enabled events =
     (let ctx = with_session_id ''session-456'' (with_node_id ''node-123'' (log_context_new ''test_operation''))
      in (Ok (), log_info enabled ctx ''Test message'' events))"

lemma format_tests_pass:
  "test_magic_number = Ok ()" "test_dtype_bytes = Ok ()" "test_value_conversions = Ok ()"
  "test_link_quality_estimation a b c d = Ok ()" "fst (test_log_context enabled events) = Ok ()"
  by (simp_all add: test_magic_number_def gguf_magic_def test_dtype_bytes_def dtype_bytes_def
      test_value_conversions_def test_link_quality_estimation_def estimate_link_quality_def test_log_context_def Let_def)

definition test_probe_cpu :: "host \<Rightarrow> verdict" where
  "test_probe_cpu h =
     bind_outcome (unwrap_at 265 (probe_cpu h)) (\<lambda>cpu.
     bind_outcome (check_at 266 (0 < cpu_cores cpu)) (\<lambda>_.
     bind_outcome (check_at 267 (0 < cpu_threads cpu)) (\<lambda>_.
     check_at 268 (cpu_architecture cpu \<noteq> []))))"

definition test_probe_memory :: "host \<Rightarrow> verdict" where
  "test_probe_memory h =
     bind_outcome (unwrap_at 273 (probe_memory h)) (\<lambda>memory.
     bind_outcome (check_at 274 (0 < mem_total_bytes memory)) (\<lambda>_.
     bind_outcome (check_at 275 (0 < mem_available_bytes memory)) (\<lambda>_.
     check_at 276 (mem_available_bytes memory \<le> mem_total_bytes memory))))"

definition test_probe_all :: "host \<Rightarrow> verdict" where
  "test_probe_all h =
     bind_outcome (unwrap_at 281 (probe_all h)) (\<lambda>capabilities.
     check_at 282 (nc_supported_runtimes capabilities \<noteq> []))"

text \<open>The tests of the probes depend on the machine, except that of all probes.\<close>

lemma probe_tests_verdicts:
  "test_probe_memory h = Ok () \<longleftrightarrow>
     0 < ho_total_memory h \<and> 0 < ho_available_memory h \<and> ho_available_memory h \<le> ho_total_memory h"
  "test_probe_cpu h = Ok () \<longleftrightarrow>
     (word_of_nat (unwrap_or 1 (ho_physical_cores h)) :: u32) \<noteq> 0 \<and>
     (word_of_nat (length (ho_cpu_frequencies h)) :: u32) \<noteq> 0 \<and> ho_arch h \<noteq> []"
  by (auto simp: test_probe_memory_def probe_memory_def test_probe_cpu_def probe_cpu_def check_at_def Let_def
      word_gt_0)

lemma test_probe_all_passes: "test_probe_all h = Ok ()"
  by (simp add: test_probe_all_def probe_all_def probe_cpu_def probe_gpus_def probe_nvidia_gpus_def extend_ok_def
      probe_memory_def probe_storage_def probe_network_def detect_supported_runtimes_def Let_def)

section \<open>Pairing\<close>

definition test_request :: "'k crypto \<Rightarrow> cluster_id \<Rightarrow> u8 list \<Rightarrow> pairing_request" where
  "test_request cr cluster node_public_key = \<lparr>pq_node_name = ''test-node'', pq_hostname = ''test-host'',
     pq_cluster_id = cluster, pq_public_key = node_public_key,
     pq_fingerprint = generate_fingerprint cr node_public_key\<rparr>"

text \<open>
  The two tests for the keys drawn for the coordinator and the node, the drawn
  ids and challenge, and the readings of the clock.
\<close>

definition test_pairing_flow ::
  "'k crypto \<Rightarrow> 'k \<Rightarrow> 'k \<Rightarrow> cluster_id \<Rightarrow> node_id \<Rightarrow> u8 list \<Rightarrow> datetime \<Rightarrow> datetime \<Rightarrow> datetime \<Rightarrow> verdict" where
  "test_pairing_flow cr coordinator_key node_key cluster drawn random now checked issued =
     (let coordinator = new_coordinator coordinator_key cluster;
          node = new_node node_key cluster;
          node_public_key = manager_public_key cr node;
          request = test_request cr cluster node_public_key;
          (generated, coordinator) = generate_challenge cr drawn random now request coordinator
      in bind_outcome (unwrap_at 313 generated) (\<lambda>challenge.
         bind_outcome (unwrap_at 317 (sign_challenge cr (ph_challenge challenge) node)) (\<lambda>challenge_signature.
         let response = \<lparr>pr_node_id = ph_node_id challenge, pr_challenge_response = ph_challenge challenge,
               pr_challenge_signature = challenge_signature\<rparr>;
             (verified, coordinator) = verify_response cr checked issued response node_public_key coordinator
         in bind_outcome (unwrap_at 326 verified) (\<lambda>certificate.
            bind_outcome (check_at 328 (dc_node_id certificate = ph_node_id challenge)) (\<lambda>_.
            check_at 329 (dc_cluster_id certificate = cluster))))))"

definition test_certificate_verification ::
  "'k crypto \<Rightarrow> 'k \<Rightarrow> 'k \<Rightarrow> cluster_id \<Rightarrow> node_id \<Rightarrow> u8 list \<Rightarrow> datetime \<Rightarrow> datetime \<Rightarrow> datetime \<Rightarrow> datetime \<Rightarrow> verdict" where
  "test_certificate_verification cr coordinator_key node_key cluster drawn random now checked issued verified_at =
     (let coordinator = new_coordinator coordinator_key cluster;
          coordinator_public_key = manager_public_key cr coordinator;
          node = new_node node_key cluster;
          node_public_key = manager_public_key cr node;
          request = test_request cr cluster node_public_key;
          (generated, coordinator) = generate_challenge cr drawn random now request coordinator
      in bind_outcome (unwrap_at 349 generated) (\<lambda>challenge.
         bind_outcome (unwrap_at 351 (sign_challenge cr (ph_challenge challenge) node)) (\<lambda>challenge_signature.
         let response = \<lparr>pr_node_id = ph_node_id challenge, pr_challenge_response = ph_challenge challenge,
               pr_challenge_signature = challenge_signature\<rparr>;
             (verified, coordinator) = verify_response cr checked issued response node_public_key coordinator
         in bind_outcome (unwrap_at 359 verified) (\<lambda>certificate.
            bind_outcome (unwrap_at 362 (verify_certificate cr verified_at certificate coordinator_public_key coordinator))
              (\<lambda>valid. check_at 363 valid)))))"

text \<open>Both pass for every signature scheme unless they are suspended for minutes.\<close>

lemma pairing_tests_pass:
  assumes "signature_scheme cr" and "length random = 32" and "timestamp checked \<le> timestamp now + 300"
  shows "test_pairing_flow cr coordinator_key node_key cluster drawn random now checked issued = Ok ()"
    and "timestamp verified_at \<le> timestamp issued + 31536000 \<Longrightarrow>
      test_certificate_verification cr coordinator_key node_key cluster drawn random now checked issued verified_at = Ok ()"
  using assms
  by (simp_all add: test_pairing_flow_def test_certificate_verification_def generate_challenge_def sign_challenge_def
      verify_response_def slice_to_Ok check_response_def expired_def parse_signature_def signature_scheme_def
      manager_public_key_def new_coordinator_def new_node_def issue_certificate_def verify_certificate_def
      verify_coordinator_signature_def Let_def)

section \<open>Runtimes\<close>

definition test_cpu_runtime_creation :: verdict where
  "test_cpu_runtime_creation = (let runtime = cpu_new in check_at 219 (cpu_backend runtime = CPU))"

definition test_ggml_runtime_creation :: verdict where
  "test_ggml_runtime_creation =
     (let runtime = (ggml_new :: unit ggml_runtime) in check_at 377 (gr_backend runtime = GGML))"

definition test_probe_capabilities :: verdict where
  "test_probe_capabilities =
     (let runtime = (ggml_new :: unit ggml_runtime); caps = ggml_probe runtime
      in bind_outcome (check_at 385 (gq_backend caps = GGML)) (\<lambda>_.
         bind_outcome (check_at 386 (gq_supports_cpu caps)) (\<lambda>_.
         check_at 387 (gq_supported_dtypes caps \<noteq> []))))"

definition test_allocate_tensor :: verdict where
  "test_allocate_tensor =
     (let runtime = (ggml_new :: unit ggml_runtime);
          spec = \<lparr>tc_tensor_id = ''test_tensor'', tc_shape = [128, 128], tc_dtype = ''f32'', tc_bytes = 128 * 128 * 4\<rparr>
      in check_at 402 (is_ok (ggml_allocate_tensor runtime spec)))"

text \<open>The device the driver finds, or its error, is an argument.\<close>

definition test_cuda_runtime_creation :: "string + 'd \<Rightarrow> verdict" where
  "test_cuda_runtime_creation dev =
     (let runtime = cuda_new 0 dev
      in bind_outcome (check_at 329 (is_ok runtime)) (\<lambda>_.
         case runtime of
           Ok runtime \<Rightarrow>
             bind_outcome (check_at 332 (cu_backend runtime = CUDA)) (\<lambda>_. check_at 333 (cu_device_id runtime = 0))
         | _ \<Rightarrow> Ok ()))"

definition test_device_info :: "string + 'd \<Rightarrow> verdict" where
  "test_device_info dev =
     bind_outcome (unwrap_at 339 (cuda_new 0 dev)) (\<lambda>runtime.
       if cuda_is_available runtime then
         (let info = cuda_get_device_info runtime
          in bind_outcome (check_at 343 (is_ok info)) (\<lambda>_.
             case info of
               Ok info \<Rightarrow>
                 bind_outcome (check_at 346 (cdi_name info \<noteq> [])) (\<lambda>_. check_at 347 (0 < cdi_total_memory info))
             | _ \<Rightarrow> Ok ()))
       else Ok ())"

definition test_rocm_runtime_creation :: verdict where
  "test_rocm_runtime_creation =
     (let runtime = rocm_new 0
      in bind_outcome (check_at 316 (is_ok runtime)) (\<lambda>_.
         case runtime of
           Ok runtime \<Rightarrow>
             bind_outcome (check_at 319 (ro_backend runtime = ROCm)) (\<lambda>_. check_at 320 (ro_device_id runtime = 0))
         | _ \<Rightarrow> Ok ()))"

definition test_rocm_availability :: verdict where
  "test_rocm_availability =
     bind_outcome (unwrap_at 326 (rocm_new 0)) (\<lambda>runtime. check_at 329 (\<not> rocm_is_available runtime))"

definition test_mlx_runtime_creation :: verdict where
  "test_mlx_runtime_creation =
     (let runtime = mlx_new
      in bind_outcome (check_at 312 (is_ok runtime)) (\<lambda>_.
         case runtime of Ok runtime \<Rightarrow> check_at 315 (mx_backend runtime = MLX) | _ \<Rightarrow> Ok ()))"

definition test_mlx_availability :: verdict where
  "test_mlx_availability =
     bind_outcome (unwrap_at 321 mlx_new) (\<lambda>runtime. check_at 324 (\<not> mlx_is_available runtime))"

lemma runtime_tests_pass:
  "test_cpu_runtime_creation = Ok ()" "test_ggml_runtime_creation = Ok ()" "test_probe_capabilities = Ok ()"
  "test_allocate_tensor = Ok ()" "test_cuda_runtime_creation dev = Ok ()" "test_device_info dev = Ok ()"
  "test_rocm_runtime_creation = Ok ()" "test_mlx_runtime_creation = Ok ()"
  by (simp_all add: test_cpu_runtime_creation_def cpu_new_def test_ggml_runtime_creation_def ggml_new_def
      test_probe_capabilities_def ggml_probe_def test_allocate_tensor_def ggml_allocate_tensor_def
      test_cuda_runtime_creation_def cuda_new_def test_device_info_def cuda_get_device_info_def
      cuda_is_available_def test_rocm_runtime_creation_def rocm_new_def test_mlx_runtime_creation_def mlx_new_def Let_def
      word_gt_0)

lemma availability_tests_pass: "test_rocm_availability = Ok ()" "test_mlx_availability = Ok ()"
  by (simp_all add: test_rocm_availability_def test_mlx_availability_def rocm_new_def mlx_new_def
      rocm_is_available_def mlx_is_available_def check_rocm_availability_def check_mlx_availability_def)

end
