(* ===== verification/Service_Tests.thy ===== *)
theory Service_Tests
  imports Serving Tensor_Directory Model_Registry Runtimes
begin

text \<open>
  The unit tests of the services and the end-to-end tests
  (\<open>tests/end-to-end/src\<close>), each a value of type \<open>verdict\<close>.  What a test draws
  at random or reads from a clock is an argument, and so is the order in which a
  fresh map is iterated.

  The tests of the planner and of the tensor directory are read for what they say
  of the code: their modules do not compile as they are written (a private field
  of another crate; a moved value).  The tests of the fine-tuning service, which
  call \<open>ModelRegistry::new\<close> without its argument, are left out.
\<close>

section \<open>Unit tests\<close>

definition test_average_bandwidth :: "node_id \<Rightarrow> node_id \<Rightarrow> node_id \<Rightarrow> node_id \<Rightarrow> verdict" where
  "test_average_bandwidth a b c d =
     (let topology = \<lparr>ct_nodes = hm_new, ct_links =
            [\<lparr>lm_from = a, lm_to = b, lm_transport = ''tcp'', lm_latency_us = 100, lm_bandwidth_mbps = 10000,
               lm_jitter_us = 10, lm_packet_loss_percent = Fin 0\<rparr>,
             \<lparr>lm_from = c, lm_to = d, lm_transport = ''tcp'', lm_latency_us = 150, lm_bandwidth_mbps = 5000,
               lm_jitter_us = 15, lm_packet_loss_percent = fl_round binary32 (1 / 10)\<rparr>]\<rparr>
      in bind_outcome (unwrap_at 429 (calculate_average_bandwidth topology)) (\<lambda>avg. check_at 430 (avg = 7500)))"

text \<open>The cluster of the tests, which has no nodes.\<close>

definition test_cluster :: "cluster_id \<Rightarrow> string \<Rightarrow> logical_cluster" where
  "test_cluster cluster_id name = \<lparr>lc_id = cluster_id, lc_name = name,
     lc_logical_resources = \<lparr>lr_cpu_compute_units = Fin 16, lr_host_memory_bytes = 32 * 1024 * 1024 * 1024,
       lr_device_memory_bytes = 8 * 1024 * 1024 * 1024, lr_storage_bytes = 1024 * 1024 * 1024 * 1024,
       lr_preferred_parallelism = Pipeline\<rparr>,
     lc_nodes = hm_new, lc_topology = \<lparr>ct_nodes = hm_new, ct_links = []\<rparr>\<rparr>"

definition test_scheduler ::
  "((node_id, resource_allocation) hash_map \<Rightarrow> (node_id, resource_allocation) hash_map) \<Rightarrow> datetime \<Rightarrow>
   cluster_id \<Rightarrow> session_id \<Rightarrow> verdict" where
  "test_scheduler rehash now cluster_id sid =
     (let scheduler = scheduler_new (test_cluster cluster_id ''test'');
          request = \<lparr>rq_session_id = sid, rq_model_id = ''test-model'', rq_context_length = 2048,
            rq_batch_size = 1, rq_priority = Normal\<rparr>;
          (result, scheduler) = schedule rehash now request scheduler
      in check_at 398 (\<not> is_ok result))"

text \<open>The plans of the executor's tests; their nodes are drawn at random.\<close>

definition test_plan :: "stage_plan list \<Rightarrow> execution_plan" where
  "test_plan stages = \<lparr>ep_model_id = ''test-model'', ep_strategy = Pipeline,
     ep_estimated = \<lparr>pe_load_seconds = Fin 5, pe_prompt_tokens_per_second = Fin 50,
       pe_decode_tokens_per_second = Fin 15\<rparr>,
     ep_stages = stages,
     ep_kv_cache = \<lparr>kv_policy = StageLocal, kv_reserved_bytes = 64 * 1024 * 1024\<rparr>\<rparr>"

definition test_stage :: "u32 \<Rightarrow> node_id \<Rightarrow> u32 list \<Rightarrow> stage_plan" where
  "test_stage i node layers = \<lparr>sp_id = i, sp_node_id = node, sp_device = ''cpu:0'', sp_layers = layers,
     sp_weight_bytes = 1024 * 1024\<rparr>"

definition test_pipeline_executor ::
  "datetime \<Rightarrow> (nat \<Rightarrow> datetime) \<Rightarrow> nat \<Rightarrow> session_id \<Rightarrow> node_id \<Rightarrow> node_id \<Rightarrow> verdict" where
  "test_pipeline_executor now clock elapsed sid node0 node1 =
     (let plan = test_plan [test_stage 0 node0 [0, 1, 2], test_stage 1 node1 [3, 4, 5]];
          (initialized, executor) = initialize_session now sid plan hm_new
      in bind_outcome (unwrap_at 379 initialized) (\<lambda>_.
         let request = \<lparr>xr_session_id = sid, xr_input_tokens = [1, 2, 3], xr_max_tokens = 10,
               xr_temperature = fl_round binary32 (7 / 10)\<rparr>;
             (result, executor) = execute clock elapsed request executor
         in bind_outcome (check_at 389 (is_ok result)) (\<lambda>_.
            bind_outcome (unwrap_at 391 result) (\<lambda>result.
            bind_outcome (check_at 392 (er_session_id result = sid)) (\<lambda>_.
            check_at 393 (er_tokens result \<noteq> []))))))"

definition test_session_lifecycle :: "datetime \<Rightarrow> session_id \<Rightarrow> verdict" where
  "test_session_lifecycle now sid =
     fst (bind_action (unwrap_action_at 416 (initialize_session now sid (test_plan []))) (\<lambda>_.
          bind_action (unwrap_action_at 418 (pause_session sid)) (\<lambda>_.
          bind_action (unwrap_action_at 419 (resume_session sid)) (\<lambda>_.
          bind_action (unwrap_action_at 420 (cancel_session sid)) (\<lambda>_ executor.
            let status = get_session_status sid executor
            in (check_at 423 (\<not> is_ok status), executor))))) hm_new)"

lemma generate_empty_iff [simp]: "generate n ctx = [] \<longleftrightarrow> n = 0"
  by (cases n) (simp_all add: Let_def)

lemma executor_tests_pass:
  "test_pipeline_executor now clock elapsed sid node0 node1 = Ok ()"
  "test_session_lifecycle now sid = Ok ()"
  by (simp_all add: test_pipeline_executor_def test_session_lifecycle_def initialize_session_def execute_def
      execute_prefill_def decode_loop_tokens Let_def split_beta unwrap_action_at_def bind_action_def
      pause_session_def resume_session_def cancel_session_def get_session_status_def)

lemma test_cluster_simps [simp]:
  "available_nodes (test_cluster cluster_id name) = []"
  "ct_links (lc_topology (test_cluster cluster_id name)) = []"
  "check_admission (chat_schedule_request sid) (test_cluster cluster_id name)"
  by (simp_all add: test_cluster_def available_nodes_def hm_new_def check_admission_def chat_schedule_request_def)

text \<open>Nothing is scheduled on a cluster without nodes.\<close>

lemma schedule_without_nodes: "\<not> is_ok (fst (schedule rehash now request (scheduler_new (test_cluster cluster_id name))))"
proof -
  have "selected (test_cluster cluster_id name) = []" by (simp add: selected_empty_iff)
  then show ?thesis by (simp add: schedule_def scheduler_new_def select_nodes_total Let_def)
qed

lemma planning_tests_pass:
  "test_average_bandwidth a b c d = Ok ()" "test_scheduler rehash now cluster_id sid = Ok ()"
  by (simp_all add: test_average_bandwidth_def calculate_average_bandwidth_def div_u32_def test_scheduler_def
      schedule_without_nodes split_beta Let_def)

text \<open>The directory of the tests.\<close>

definition test_placement :: "node_id \<Rightarrow> placement_role \<Rightarrow> physical_placement" where
  "test_placement node role = \<lparr>pp_node_id = node, pp_device = ''cpu:0'', pp_offset = 0, pp_length = 1024, pp_role = role\<rparr>"

definition register_test_tensor :: "nat \<Rightarrow> datetime \<Rightarrow> physical_placement \<Rightarrow> (tensor_directory, nat, unit) action" where
  "register_test_tensor line now placement =
     unwrap_action_at line (register_tensor now ''test_tensor'' [128, 128] ''f32'' placement False None)"

definition test_register_tensor :: "datetime \<Rightarrow> datetime \<Rightarrow> node_id \<Rightarrow> verdict" where
  "test_register_tensor now later node =
     fst (bind_action (register_test_tensor 340 now (test_placement node Primary)) (\<lambda>_ dir.
          let (tensor, dir) = get_tensor later ''test_tensor'' dir
          in (check_at 343 (tensor \<noteq> None), dir)) directory_new)"

definition test_add_placement :: "datetime \<Rightarrow> datetime \<Rightarrow> node_id \<Rightarrow> node_id \<Rightarrow> verdict" where
  "test_add_placement now later node1 node2 =
     fst (bind_action (register_test_tensor 367 now (test_placement node1 Primary)) (\<lambda>_.
          bind_action (unwrap_action_at 377 (add_placement ''test_tensor'' (test_placement node2 Replica))) (\<lambda>_ dir.
          let (tensor, dir) = get_tensor later ''test_tensor'' dir
          in (bind_outcome (check_at 380 (tensor \<noteq> None)) (\<lambda>_.
              bind_outcome (unwrap_at 381 (ok_or () tensor)) (\<lambda>tensor.
              check_at 381 (length (te_placements tensor) = 2))), dir))) directory_new)"

definition test_evict_from_node :: "datetime \<Rightarrow> datetime \<Rightarrow> node_id \<Rightarrow> verdict" where
  "test_evict_from_node now later node =
     fst (bind_action (register_test_tensor 404 now (test_placement node Primary)) (\<lambda>_.
          bind_action (unwrap_action_at 406 (evict_from_node node)) (\<lambda>evicted dir.
          let (tensor, dir) = get_tensor later ''test_tensor'' dir
          in (bind_outcome (check_at 407 (length evicted = 1)) (\<lambda>_. check_at 410 (tensor = None)), dir))) directory_new)"

lemma directory_tests_pass:
  "test_register_tensor now later node = Ok ()" "test_add_placement now later node1 node2 = Ok ()"
  "test_evict_from_node now later node = Ok ()"
  by (simp_all add: test_register_tensor_def test_add_placement_def test_evict_from_node_def register_test_tensor_def
      unwrap_action_at_def bind_action_def register_tensor_def add_placement_def evict_from_node_def get_tensor_def
      directory_new_def index_push_def test_placement_def Let_def off_node_def hm_defs)

text \<open>\<open>Path::ends_with\<close> for a relative path of plain names.\<close>

definition path_ends_with :: "path \<Rightarrow> path \<Rightarrow> bool" where
  "path_ends_with p q \<longleftrightarrow> p = q \<or> suffix (CHR ''/'' # q) p"

definition test_model_registry :: "path \<Rightarrow> file_system \<Rightarrow> verdict" where
  "test_model_registry temp_dir fs =
     (let (registry, fs) = registry_new temp_dir fs;
          models = list_models registry
      in bind_outcome (check_at 253 (length models = 0)) (\<lambda>_.
         let stats = registry_get_stats registry in check_at 256 (gs_total_models stats = 0)))"

definition test_cache_path :: "path \<Rightarrow> file_system \<Rightarrow> verdict" where
  "test_cache_path temp_dir fs =
     (let (registry, fs) = registry_new temp_dir fs;
          checksum = ''abcdef1234567890''
      in bind_outcome (unwrap_at 265 (cache_path registry checksum)) (\<lambda>path.
         check_at 267 (path_ends_with path ''ab/abcdef1234567890'')))"

lemma registry_tests_pass:
  "test_model_registry temp_dir fs = Ok ()" "test_cache_path temp_dir fs = Ok ()"
proof -
  show "test_model_registry temp_dir fs = Ok ()"
    by (simp add: test_model_registry_def registry_new_def list_models_def registry_get_stats_def hm_defs)
  have cut: "str_slice_to 2 ''abcdef1234567890'' = Ok ''ab''"
    by (simp add: str_slice_to_ascii)
  have "path_ends_with (path_join (path_join temp_dir ''ab'') ''abcdef1234567890'') ''ab/abcdef1234567890''"
  proof (cases "temp_dir = []")
    case True
    then show ?thesis by (simp add: path_join_def path_ends_with_def)
  next
    case False
    then obtain front c where dir: "temp_dir = front @ [c]" by (metis append_butlast_last_id)
    show ?thesis
      by (simp add: dir path_join_def path_ends_with_def suffix_def)
  qed
  then show "test_cache_path temp_dir fs = Ok ()"
    by (simp add: test_cache_path_def registry_new_def cache_path_def cut)
qed

end
