(* ===== verification/End_To_End.thy ===== *)
theory End_To_End
  imports Service_Tests
begin

text \<open>
  The end-to-end tests, \<open>tests/end-to-end/src/api_tests.rs\<close> and
  \<open>execution_tests.rs\<close>, and what comes of them for every id, clock and order of
  iteration: three of them plan or schedule on a cluster without nodes and fail.
\<close>

section \<open>The tests of the interfaces\<close>

definition test_chat_completion_flow ::
  "((node_id, resource_allocation) hash_map \<Rightarrow> (node_id, resource_allocation) hash_map) \<Rightarrow> datetime \<Rightarrow>
   (nat \<Rightarrow> datetime) \<Rightarrow> nat \<Rightarrow> session_id \<Rightarrow> cluster_id \<Rightarrow> verdict" where
  "test_chat_completion_flow rehash now clock elapsed sid cluster_id =
     chat_flow rehash now clock elapsed sid (test_cluster cluster_id ''test-cluster'')"

text \<open>A status is compared by its debug text, that is by its variant.\<close>

definition test_api_session_lifecycle :: "datetime \<Rightarrow> session_id \<Rightarrow> verdict" where
  "test_api_session_lifecycle now sid =
     fst (bind_action (unwrap_action_at 126 (initialize_session now sid (test_plan []))) (\<lambda>_.
          bind_action (unwrap_action_at 129 (pause_session sid)) (\<lambda>_.
          bind_action (\<lambda>s. (unwrap_at 130 (get_session_status sid s), s)) (\<lambda>status.
          bind_action (lift_outcome (check_at 131 (status = SPaused))) (\<lambda>_.
          bind_action (unwrap_action_at 134 (resume_session sid)) (\<lambda>_.
          bind_action (\<lambda>s. (unwrap_at 135 (get_session_status sid s), s)) (\<lambda>status.
          bind_action (lift_outcome (check_at 136 (status = SRunning))) (\<lambda>_.
          bind_action (unwrap_action_at 139 (cancel_session sid)) (\<lambda>_ s.
          (check_at 141 (\<not> is_ok (get_session_status sid s)), s))))))))) hm_new)"

definition test_tokenization :: "'t tokenizer_lib \<Rightarrow> verdict" where
  "test_tokenization lib =
     (let runtime = ggml_new; result = ggml_tokenize lib runtime ''Hello, world!''
      in check_at 155 (\<not> is_ok result))"

definition test_scheduler_admission ::
  "((node_id, resource_allocation) hash_map \<Rightarrow> (node_id, resource_allocation) hash_map) \<Rightarrow> datetime \<Rightarrow>
   cluster_id \<Rightarrow> session_id \<Rightarrow> verdict" where
  "test_scheduler_admission rehash now cluster_id sid =
     (let scheduler = scheduler_new (test_cluster cluster_id ''test-cluster'');
          request = \<lparr>rq_session_id = sid, rq_model_id = ''test-model'', rq_context_length = 4096,
            rq_batch_size = 1, rq_priority = Normal\<rparr>;
          (result, scheduler) = schedule rehash now request scheduler
      in check_at 192 (is_ok result))"

definition test_planner_plan_generation :: "cluster_id \<Rightarrow> verdict" where
  "test_planner_plan_generation cluster_id =
     bind_outcome (unwrap_at 232 (create_plan chat_planning_request (test_cluster cluster_id ''test-cluster''))) (\<lambda>plan.
     bind_outcome (check_at 233 (ep_model_id plan = ''llama-2-7b'')) (\<lambda>_.
     check_at 234 (ep_stages plan \<noteq> [])))"

section \<open>The tests of the execution\<close>

definition test_pipeline_execution ::
  "datetime \<Rightarrow> (nat \<Rightarrow> datetime) \<Rightarrow> nat \<Rightarrow> session_id \<Rightarrow> node_id \<Rightarrow> node_id \<Rightarrow> verdict" where
  "test_pipeline_execution now clock elapsed sid node0 node1 =
     (let plan = test_plan [test_stage 0 node0 [0, 1, 2, 3], test_stage 1 node1 [4, 5, 6, 7]];
          (initialized, executor) = initialize_session now sid plan hm_new
      in bind_outcome (unwrap_at 61 initialized) (\<lambda>_.
         let request = \<lparr>xr_session_id = sid, xr_input_tokens = [1, 2, 3, 4, 5], xr_max_tokens = 20,
               xr_temperature = fl_round binary32 (7 / 10)\<rparr>;
             (result, executor) = execute clock elapsed request executor
         in bind_outcome (unwrap_at 70 result) (\<lambda>result.
            bind_outcome (check_at 71 (er_session_id result = sid)) (\<lambda>_.
            bind_outcome (check_at 72 (er_tokens result \<noteq> [])) (\<lambda>_.
            check_at 73 (fl_less (Fin 0) (er_tokens_per_second result)))))))"

definition test_executor_stats :: "datetime \<Rightarrow> session_id \<Rightarrow> verdict" where
  "test_executor_stats now sid =
     (let executor = hm_new; stats = executor_get_stats executor
      in bind_outcome (check_at 100 (es_total_sessions stats = 0)) (\<lambda>_.
         bind_outcome (check_at 101 (es_running_sessions stats = 0)) (\<lambda>_.
         let (initialized, executor) = initialize_session now sid (test_plan []) executor
         in bind_outcome (unwrap_at 119 initialized) (\<lambda>_.
            check_at 122 (es_total_sessions (executor_get_stats executor) = 1)))))"

text \<open>The three ids are drawn at random.\<close>

definition test_concurrent_sessions :: "datetime \<Rightarrow> session_id \<Rightarrow> session_id \<Rightarrow> session_id \<Rightarrow> verdict" where
  "test_concurrent_sessions now sid0 sid1 sid2 =
     fst (bind_action (unwrap_action_at 166 (initialize_session now sid0 (test_plan []))) (\<lambda>_.
          bind_action (unwrap_action_at 166 (initialize_session now sid1 (test_plan []))) (\<lambda>_.
          bind_action (unwrap_action_at 166 (initialize_session now sid2 (test_plan []))) (\<lambda>_ executor.
          (check_at 170 (es_total_sessions (executor_get_stats executor) = 3), executor)))) hm_new)"

section \<open>What comes of them\<close>

lemma execution_tests_verdicts:
  "elapsed < 2 ^ 64 * 1000000000 \<Longrightarrow> test_pipeline_execution now clock elapsed sid node0 node1 = Ok ()"
  "test_executor_stats now sid = Ok ()"
  "test_concurrent_sessions now sid0 sid1 sid2 = Ok () \<longleftrightarrow> distinct [sid0, sid1, sid2]"
proof -
  have tokens: "length (generate 20 ctx) \<le> 20" for ctx
    by (simp add: generate_closed)
  have "0 < length (generate 20 ctx)" "length (generate 20 ctx) \<le> 2 ^ 24" for ctx
    using tokens [of ctx] by simp_all
  from rate_positive [OF this]
  show "elapsed < 2 ^ 64 * 1000000000 \<Longrightarrow> test_pipeline_execution now clock elapsed sid node0 node1 = Ok ()"
    by (simp add: test_pipeline_execution_def initialize_session_def execute_def execute_prefill_def
        decode_loop_tokens Let_def split_beta)
  show "test_executor_stats now sid = Ok ()"
    by (simp add: test_executor_stats_def executor_get_stats_def initialize_session_def hm_defs)
  show "test_concurrent_sessions now sid0 sid1 sid2 = Ok () \<longleftrightarrow> distinct [sid0, sid1, sid2]"
    by (auto simp: test_concurrent_sessions_def unwrap_action_at_def bind_action_def initialize_session_def
        executor_get_stats_def check_at_def hm_defs)
qed

text \<open>
  The tests of the interfaces, whatever the ids, the clocks, the tokenizer
  and the order of the maps: the chat completion fails when it unwraps the
  plan, the admission test when it expects the schedule to succeed, the planner
  test when it unwraps the plan, since their cluster has no nodes; the life
  cycle of a session and the missing tokenizer are as the tests expect.
\<close>

theorem api_tests_verdicts:
  "test_chat_completion_flow rehash now clock elapsed sid cluster_id = Err 59 \<and>
   test_scheduler_admission rehash now cluster_id sid = Err 192 \<and>
   test_planner_plan_generation cluster_id = Err 232 \<and>
   test_api_session_lifecycle now sid = Ok () \<and>
   test_tokenization lib = Ok ()"
proof (intro conjI)
  have plan: "create_plan chat_planning_request (test_cluster cluster_id ''test-cluster'') = Err NoAvailableNodes"
    using create_plan_total [of "test_cluster cluster_id ''test-cluster''" chat_planning_request] by simp
  then show "test_chat_completion_flow rehash now clock elapsed sid cluster_id = Err 59"
    and "test_planner_plan_generation cluster_id = Err 232"
    by (simp_all add: test_chat_completion_flow_def chat_flow_def test_planner_plan_generation_def)
  show "test_scheduler_admission rehash now cluster_id sid = Err 192"
    by (simp add: test_scheduler_admission_def schedule_without_nodes split_beta Let_def)
  show "test_api_session_lifecycle now sid = Ok ()"
    by (simp add: test_api_session_lifecycle_def unwrap_action_at_def bind_action_def initialize_session_def
        pause_session_def resume_session_def cancel_session_def get_session_status_def lift_outcome_def)
  show "test_tokenization lib = Ok ()"
    by (simp add: test_tokenization_def ggml_tokenize_def ggml_new_def)
qed

end
