(* ===== verification/Spec2Isabelle.thy ===== *)
theory Spec2Isabelle
  imports Planner Scheduler Tcp_Transport Pipeline_Executor Directory_Locks Node_Control Node_Agent Fine_Tuning Runtimes Quic_Transport Rdma_Transport Topology Fleet Desktop_Client Observability
    Agent_Process Scheduler_Calls Serving Crate_Tests Service_Tests End_To_End
begin

text \<open>
  TensorGrid makes several computers look like one inference machine.  A
  coordinator keeps the table of nodes and pairs new ones; a planner splits a
  model's layers into stages over the healthy nodes; a scheduler admits sessions
  and reserves their share of the nodes; a pipeline executor runs the stages of
  a session; a tensor directory knows where each tensor is placed; a TCP data
  plane moves tensors; a model registry parses and caches GGUF files; a
  fine-tuning service trains adapters.  On each machine a node agent registers
  what the hardware probe finds and sends heartbeats; five runtime adapters run
  the stages on its devices.  The services share the data types of
  \<open>crates/cluster-types\<close> and otherwise meet only through the values they
  exchange: the coordinator's logical cluster is the input of the planner and of
  the scheduler, the planner's plan the input of the executor, the parsed GGUF
  model what the registry stores, the probe's result what an agent registers and
  the coordinator's JSON what the desktop reads.

  Theories and sources (paths under \<open>src/\<close>):

  \<^item> \<open>Prelude\<close>: integers at their width; the outcome of a Rust function (a value,
    an error, a panic) and actions, which thread a state that an error keeps;
    \<open>HashMap\<close> with its contract \<open>keyed_table\<close>, which all tables rest on.
  \<^item> \<open>Ieee\<close>: \<open>f32\<close> and \<open>f64\<close>, one rounding per operation; the laws of rounding
    are the locale \<open>rounding\<close>, interpreted for both formats.
  \<^item> \<open>Bytes\<close>: little- and big-endian integers, UTF-8, decimal numbers.
  \<^item> \<open>Cluster_Types\<close>: \<open>crates/cluster-types/src/lib.rs\<close>.  \<open>Samples\<close>: a concrete
    cluster for the witnesses.
  \<^item> \<open>Planner\<close>: \<open>services/planner/src/lib.rs\<close>, all of \<open>create_plan\<close>: strategy,
    partition (\<open>stage_loop\<close> is its loop over the nodes), KV cache, estimate.
    Its lemmas: the stages tile the layers, sit on distinct healthy nodes, and
    the loss of precision of the \<open>f32\<close> stage size just above \<open>2 ^ 24\<close> layers.
  \<^item> \<open>Scheduler\<close>: \<open>services/scheduler/src/lib.rs\<close>, state
    \<open>scheduler_state\<close>, operations \<open>schedule\<close>, \<open>release_session\<close>, \<open>get_stats\<close>.  The
    invariant \<open>scheduler_inv\<close> and its consequences: nothing is overcommitted,
    an error leaves no trace, release undoes schedule.
    \<open>Scheduler_Calls\<close>: the same under interleaved calls, with \<open>schedule\<close> split
    where it holds no lock.
  \<^item> \<open>Tcp_Transport\<close>: \<open>transports/tcp/src/lib.rs\<close> on byte streams cut into
    arbitrary reads: header codec, receive loop, server loop and client.
  \<^item> \<open>Gguf\<close>: \<open>crates/model-format/src/lib.rs\<close>, readers over the bytes of a file;
    framing of every reader, round trip with an encoder, panics.
  \<^item> \<open>Pipeline_Executor\<close>: \<open>services/pipeline-executor/src/lib.rs\<close>; the abstract
    machine \<open>lifecycle\<close> and the refinement; generation in closed form.
  \<^item> \<open>Tensor_Directory\<close>: \<open>services/tensor-directory/src/lib.rs\<close>, the two tables
    and the invariant that relates them.  \<open>Directory_Locks\<close>: the locks of each
    method and its runs beside others, a step relation with progress and deadlock.
  \<^item> \<open>Pairing\<close>: \<open>crates/secure-pairing/src/lib.rs\<close>: challenge, response,
    certificate; every certificate is justified by a signed fresh challenge.
  \<^item> \<open>Coordinator\<close>: \<open>services/coordinator/src/main.rs\<close>, \<open>api.rs\<close>, \<open>planner.rs\<close>: the
    node table, the REST handlers, the monitor; refinement of a failure
    detector per node; the sums of the logical cluster.  \<open>Node_Control\<close>:
    \<open>node_control.rs\<close>, the remote calls on the same state: what each does to a
    node's status, what ends a drain, when a plan is admitted.
  \<^item> \<open>Model_Registry\<close>: \<open>services/model-registry/src/lib.rs\<close> on a file system.
  \<^item> \<open>Fine_Tuning\<close>: \<open>services/fine-tuning/src/lib.rs\<close>, jobs and training tasks,
    one step between two waits, with the lock a waiting task holds.
  \<^item> \<open>Node_Agent\<close>: \<open>services/node-agent/src/*.rs\<close>: registration, the heartbeat loop
    and its reconnections, alone and together with the coordinator through a
    network that may lose a request or an answer; the HTTP library is a parameter.
    \<open>Agent_Process\<close>: \<open>main\<close> on a runtime, from its start to its end: exactly which
    signals and unanswered passes end the process.
  \<^item> \<open>Serving\<close>: planner, scheduler and executor for one session, in the order in
    which \<open>tests/end-to-end/src/api_tests.rs\<close> calls them, characterised for every
    cluster; what the scheduler reserves compared with what the planner places.
  \<^item> \<open>Runtime_Interface\<close>: the interface of a runtime as the locale \<open>stage_runtime\<close>
    (what executing and transferring conserves) and the clients' lemmas in it.
    \<open>Runtime_Host\<close> (\<open>runtimes/cpu\<close>, \<open>runtimes/ggml\<close>) and \<open>Runtime_Gpu\<close>
    (\<open>runtimes/cuda\<close>, \<open>runtimes/rocm\<close>, \<open>runtimes/mlx\<close>): all operations of the five
    adapters and an interpretation for each.  \<open>Runtimes\<close>: what holds of all five.
  \<^item> \<open>Quic_Transport\<close>: \<open>transports/quic/src/lib.rs\<close>: the table of connections and the
    framing of tensors over the contract \<open>quic_contract\<close> of the library; delivery in
    order, what the stream opened by \<open>accept\<close> does to the first receive, and why the
    client never connects.
    \<open>Rdma_Transport\<close>: \<open>transports/rdma/src/lib.rs\<close>, which simulates transfers.
  \<^item> \<open>Topology\<close>: \<open>crates/topology/src/lib.rs\<close>: round trips, the jitter in \<open>f64\<close> with
    \<open>Ieee_Sqrt\<close> for the square root, the loop over all pairs against its specification.
  \<^item> \<open>Hardware_Probe\<close>: \<open>crates/hardware-probe/src/lib.rs\<close> on a record of what the
    machine and the build give.  \<open>Desktop_Client\<close>: \<open>desktop-ui/src/cluster_client.rs\<close>
    and \<open>commands.rs\<close> against the GET routes.
    \<open>Observability\<close>: the events of \<open>crates/observability/src/lib.rs\<close> and the
    subscriber it installs.
  \<^item> \<open>Fleet\<close>: probe, agents, coordinator and planner together: plans use nodes that
    are alive, and what the probe's missing GPUs mean for every plan.
  \<^item> The tests of the repository, run on the model: \<open>Test_Harness\<close> says what a test
    is (a value that names the first line to fail), \<open>Crate_Tests\<close> and
    \<open>Service_Tests\<close> hold the unit tests of the sources, \<open>End_To_End\<close> those of
    \<open>tests/end-to-end\<close>, each with the verdict it has for every drawn id, clock
    and map order.

  Modelling decisions:

  \<^item> Arithmetic is that of a release build, as the README builds it: unsigned
    sums, products and differences wrap; a slice or index out of range, a failed
    \<open>unwrap\<close>, an allocation beyond the machine and a stack overflow are panics.
  \<^item> A \<open>HashMap\<close> is a list of entries with distinct keys; the order is the
    iteration order, which the standard library leaves open: every statement
    holds for every order.
  \<^item> Clock readings, fresh \<open>Uuid\<close>s and random bytes are arguments.  Log calls
    and metrics change no state the services read and are left out of them.
  \<^item> An operation that holds one lock from beginning to end is one step.  Where
    locks are taken one after the other (\<open>Directory_Locks\<close>, \<open>Scheduler_Calls\<close>,
    \<open>transfer_tensor\<close>) or
    kept across a wait (\<open>Fine_Tuning\<close>) the steps are separate.
  \<^item> Code outside the repository is a parameter: Ed25519, SHA-256, hexadecimal
    and \<open>Uuid\<close> text are fields of \<open>crypto\<close> or arguments, with the laws
    \<open>signature_scheme\<close> and \<open>text_encoding\<close>, which \<open>Pairing\<close> shows to be
    satisfiable; \<open>quinn\<close>, \<open>rustls\<close>, \<open>serde_json\<close> and the code derived by \<open>serde\<close> are
    records of functions with the laws \<open>quic_contract\<close>, \<open>endpoint_contract\<close>,
    \<open>json_contract\<close> and \<open>serde_contract\<close>, and of \<open>tokio\<close> the runtime that waits for
    its blocking tasks when it is dropped is one with the law \<open>runtime_contract\<close>, each
    with a concrete instance that satisfies it.
  \<^item> Between agent and coordinator a message is the record both sides declare for
    it: its JSON text, in which a reading that is not a number would be \<open>null\<close>, is
    not modelled (\<open>coordinator_http\<close>).
  \<^item> What may never return (a measurement without an answer in \<open>Topology\<close>) is \<open>None\<close>.

  Bounds: \<open>2 ^ 24\<close> layers and nodes are where \<open>f32\<close> still holds every count
  exactly (\<open>plan_loses_last_layer\<close> shows the bound is sharp).  The GGUF parser's
  recursion is bounded by the frames of the stack, a field of \<open>machine\<close>, and by
  the allocator's limit; both are arbitrary in every statement.  No other
  definition uses fuel: loops over lists are structural, the receive loop and
  the server loop terminate by the bytes left, generation by the token limit.

  Not modelled: the binding of sockets and the acceptance of connections, which
  is I/O; the \<open>main\<close> functions of the coordinator and of the desktop, which only
  start what is modelled; the spans of the \<open>instrument\<close> attribute; \<open>web-ui\<close> and
  \<open>desktop-ui/ui\<close>, which are not Rust; the tests under \<open>tests/integration-test\<close>, which
  compare values they build themselves or talk to gRPC services that no crate
  has, and the unit tests that do not fit the code they call (named in the
  theories of the tests); the \<open>build.rs\<close> files and the \<open>.proto\<close> files that no Rust
  code uses.
\<close>

end
